(* ===== verification/Prelude.thy ===== *)
theory Prelude
  imports Main "HOL-Library.Word" "HOL-Library.Char_ord" "HOL-Library.List_Lexorder"
begin

unbundle bit_operations_syntax

text \<open>
  Shared vocabulary of the development: Go's error values and \<open>errors.Is\<close>, results of
  fallible calls, 64-bit signed arithmetic, file modes and open flags as machine words, and
  the generic list lemmas the components use.  The error values are those the repository
  itself creates or compares against (\<open>io/fs\<close>, \<open>io\<close>, \<open>syscall\<close>, and its own
  \<open>ErrLimit\<close>, \<open>ErrOutputLimit\<close> and \<open>flow\<close>).
\<close>

named_theorems mode_simps \<open>evaluation of file modes and permission bits\<close>
named_theorems mem_inv_dests \<open>consequences of the in-memory filesystem invariant\<close>

section \<open>Errors\<close>

text \<open>The \<open>syscall.Errno\<close> values the source mentions; the rest carry their number.\<close>

datatype errno =
    ENOENT | EEXIST | ENOTDIR | EISDIR | ENOTEMPTY | ENOSPC | EROFS | EBUSY | EXDEV | ENOSYS
  | EACCES | EPERM | EOTHER nat

text \<open>
  Go error values.  \<open>PathError op path err\<close> is \<open>&fs.PathError{Op, Path, Err}\<close>;
  \<open>Wrapped\<close> is \<open>fmt.Errorf("...: %w", err)\<close>; \<open>Flow kind code\<close> is the shell's
  control-flow error; \<open>CtxErr\<close> is the error of a finished \<open>context.Context\<close>;
  \<open>ErrText\<close> is \<open>errors.New\<close> and any other opaque error.
\<close>

datatype goerr =
    ErrInvalid | ErrNotExist | ErrExist | ErrPermission | ErrClosed
  | EOF | ErrClosedPipe
  | Errno errno
  | PathError string string goerr
  | Wrapped string goerr
  | ErrLimit | ErrOutputLimit
  | Flow string int
  | CtxErr string
  | ErrText string

type_synonym 'a res = "goerr + 'a"

text \<open>\<open>syscall.Errno.Is\<close> on Unix: the portable errors an errno matches.\<close>

fun errno_is :: "errno \<Rightarrow> goerr \<Rightarrow> bool" where
  "errno_is n ErrPermission = (n = EACCES \<or> n = EPERM)"
| "errno_is n ErrExist = (n = EEXIST \<or> n = ENOTEMPTY)"
| "errno_is n ErrNotExist = (n = ENOENT)"
| "errno_is n _ = False"

text \<open>\<open>errors.Is\<close>: the error itself, what it wraps, or what its \<open>Is\<close> method accepts.\<close>

fun errors_is :: "goerr \<Rightarrow> goerr \<Rightarrow> bool" where
  "errors_is (PathError op p e) t = (PathError op p e = t \<or> errors_is e t)"
| "errors_is (Wrapped m e) t = (Wrapped m e = t \<or> errors_is e t)"
| "errors_is (Errno n) t = (Errno n = t \<or> errno_is n t)"
| "errors_is e t = (e = t)"

lemma errors_is_refl [simp]: "errors_is e e"
  by (cases e) auto

definition is_ok :: "'a res \<Rightarrow> bool" where
  "is_ok r = (case r of Inl _ \<Rightarrow> False | Inr _ \<Rightarrow> True)"

lemma is_ok_simps [simp]: "is_ok (Inr x)" "\<not> is_ok (Inl e)"
  by (simp_all add: is_ok_def)

section \<open>Machine integers\<close>

text \<open>
  \<open>int64\<close> (and \<open>int\<close> on a 64-bit platform) is a HOL \<open>int\<close> kept in range by writing the
  wrap-around out: every sum, difference and negation of the source is wrapped by \<open>i64\<close>.
\<close>

definition i64 :: "int \<Rightarrow> int" where
  "i64 x = signed_take_bit 63 x"

definition in_i64 :: "int \<Rightarrow> bool" where
  "in_i64 x = (- (2 ^ 63) \<le> x \<and> x < 2 ^ 63)"

definition max_int64 :: int where
  "max_int64 = 2 ^ 63 - 1"

lemma i64_id: "in_i64 x \<Longrightarrow> i64 x = x"
  unfolding in_i64_def i64_def by (rule signed_take_bit_int_eq_self) simp_all

lemma i64_range: "in_i64 (i64 x)"
  unfolding in_i64_def i64_def
  using signed_take_bit_int_greater_eq_minus_exp [of 63 x] signed_take_bit_int_less_exp [of 63 x]
  by blast

lemma i64_zero [simp]: "i64 0 = 0"
  by (simp add: i64_def)

lemma i64_bounded: "0 \<le> x \<Longrightarrow> x \<le> max_int64 \<Longrightarrow> i64 x = x"
  by (rule i64_id) (simp add: in_i64_def max_int64_def)

lemma i64_bounded_neg: "- max_int64 \<le> x \<Longrightarrow> x \<le> max_int64 \<Longrightarrow> i64 x = x"
  by (rule i64_id) (simp add: in_i64_def max_int64_def)

section \<open>File modes and open flags\<close>

text \<open>
  \<open>fs.FileMode\<close> is a 32-bit word; the constants are those of \<open>io/fs\<close>.  Open flags are
  \<open>os.O_*\<close> with their Linux values (the source only combines and tests single bits).
\<close>

type_synonym filemode = "32 word"
type_synonym oflag = "32 word"

definition ModeDir :: filemode where "ModeDir = 0x80000000"
definition ModeSymlink :: filemode where "ModeSymlink = 0x08000000"
definition ModeDevice :: filemode where "ModeDevice = 0x04000000"
definition ModeCharDevice :: filemode where "ModeCharDevice = 0x00200000"
definition ModeType :: filemode where "ModeType = 0x8F280000"
definition ModePerm :: filemode where "ModePerm = 0x1FF"

definition mode_is_dir :: "filemode \<Rightarrow> bool" where
  "mode_is_dir m = (m AND ModeDir \<noteq> 0)"

definition mode_perm :: "filemode \<Rightarrow> filemode" where
  "mode_perm m = m AND ModePerm"

definition mode_type :: "filemode \<Rightarrow> filemode" where
  "mode_type m = m AND ModeType"

definition O_RDONLY :: oflag where "O_RDONLY = 0"
definition O_WRONLY :: oflag where "O_WRONLY = 1"
definition O_RDWR :: oflag where "O_RDWR = 2"
definition O_CREATE :: oflag where "O_CREATE = 0x40"
definition O_EXCL :: oflag where "O_EXCL = 0x80"
definition O_TRUNC :: oflag where "O_TRUNC = 0x200"
definition O_APPEND :: oflag where "O_APPEND = 0x400"

definition has_flag :: "oflag \<Rightarrow> oflag \<Rightarrow> bool" where
  "has_flag f b = (f AND b \<noteq> 0)"

lemmas flag_defs = O_RDONLY_def O_WRONLY_def O_RDWR_def O_CREATE_def O_EXCL_def O_TRUNC_def
  O_APPEND_def

lemmas mode_defs = ModeDir_def ModeSymlink_def ModeDevice_def ModeCharDevice_def ModeType_def
  ModePerm_def

lemma mode_is_dir_bit: "mode_is_dir m = bit m 31"
proof -
  have "ModeDir = 2 ^ 31" by (simp add: ModeDir_def)
  then have "mode_is_dir m = (m AND 2 ^ 31 \<noteq> 0)" by (simp only: mode_is_dir_def)
  then show ?thesis by (simp only: and_exp_eq_0_iff_not_bit not_not)
qed

lemma ModeDir_bit: "bit ModeDir 31"
  using mode_is_dir_bit [of ModeDir] by (simp add: mode_is_dir_def ModeDir_def)

lemma mode_is_dir_perm [simp, mode_simps]: "\<not> mode_is_dir (mode_perm p)"
  by (simp add: mode_is_dir_def mode_perm_def mode_defs and.assoc)

lemma mode_is_dir_ModeDir_or [simp, mode_simps]: "mode_is_dir (ModeDir OR p)"
  by (simp add: mode_is_dir_bit bit_or_iff ModeDir_bit)

text \<open>\<open>Chmod\<close> keeps the type bits and replaces the permission bits.\<close>

lemma mode_is_dir_chmod [simp, mode_simps]:
  "mode_is_dir (mode_type m OR mode_perm p) = mode_is_dir m"
proof -
  have "bit ModeType 31" by (simp add: ModeType_def bit_simps)
  moreover have "\<not> bit (mode_perm p) 31"
    using mode_is_dir_perm [of p] by (simp add: mode_is_dir_bit)
  ultimately show ?thesis
    by (simp add: mode_is_dir_bit mode_type_def bit_or_iff bit_and_iff)
qed

end
