(* ===== verification/GoPath.thy ===== *)
theory GoPath
  imports Prelude
begin

text \<open>
  The parts of Go's \<open>strings\<close>, \<open>unicode/utf8\<close>, \<open>path\<close> and \<open>io/fs\<close> packages that
  the repository's path handling is written in: splitting and joining, prefixes and suffixes,
  \<open>path.Clean\<close>, \<open>Join\<close>, \<open>Dir\<close>, \<open>Base\<close> and \<open>fs.ValidPath\<close>.  A Go string
  is its bytes, one \<open>char\<close> each.  The lemmas relate slash-separated names to lists of
  components, which is how every later proof reasons about paths.
\<close>

section \<open>Strings\<close>

abbreviation (input) slash :: char where
  "slash \<equiv> CHR ''/''"

text \<open>\<open>strings.Split\<close> and \<open>strings.Join\<close> for a one-byte separator.\<close>

fun go_split :: "char \<Rightarrow> string \<Rightarrow> string list" where
  "go_split c [] = [[]]"
| "go_split c (x # xs) =
     (if x = c then [] # go_split c xs
      else (case go_split c xs of [] \<Rightarrow> [[x]] | y # ys \<Rightarrow> (x # y) # ys))"

fun go_join :: "string \<Rightarrow> string list \<Rightarrow> string" where
  "go_join sep [] = []"
| "go_join sep [x] = x"
| "go_join sep (x # y # zs) = x @ sep @ go_join sep (y # zs)"

text \<open>\<open>strings.HasPrefix\<close>, \<open>TrimPrefix\<close>, \<open>HasSuffix\<close>, \<open>TrimSuffix\<close>.\<close>

fun has_prefix :: "string \<Rightarrow> string \<Rightarrow> bool" where
  "has_prefix s [] = True"
| "has_prefix [] (b # p) = False"
| "has_prefix (a # s) (b # p) = (a = b \<and> has_prefix s p)"

definition trim_prefix :: "string \<Rightarrow> string \<Rightarrow> string" where
  "trim_prefix s p = (if has_prefix s p then drop (length p) s else s)"

definition has_suffix :: "string \<Rightarrow> string \<Rightarrow> bool" where
  "has_suffix s p = has_prefix (rev s) (rev p)"

definition trim_suffix :: "string \<Rightarrow> string \<Rightarrow> string" where
  "trim_suffix s p = (if has_suffix s p then take (length s - length p) s else s)"

definition contains_nul :: "string \<Rightarrow> bool" where
  "contains_nul s = (CHR 0x00 \<in> set s)"

section \<open>UTF-8 validity\<close>

text \<open>
  \<open>utf8.ValidString\<close>: for each lead byte the length of the sequence and the range of the
  second byte; later bytes are continuation bytes \<open>0x80..0xBF\<close>.
\<close>

definition utf8_lead :: "nat \<Rightarrow> (nat \<times> nat \<times> nat) option" where
  "utf8_lead b =
     (if 0xC2 \<le> b \<and> b \<le> 0xDF then Some (2, 0x80, 0xBF)
      else if b = 0xE0 then Some (3, 0xA0, 0xBF)
      else if b = 0xED then Some (3, 0x80, 0x9F)
      else if 0xE1 \<le> b \<and> b \<le> 0xEF then Some (3, 0x80, 0xBF)
      else if b = 0xF0 then Some (4, 0x90, 0xBF)
      else if 0xF1 \<le> b \<and> b \<le> 0xF3 then Some (4, 0x80, 0xBF)
      else if b = 0xF4 then Some (4, 0x80, 0x8F)
      else None)"

definition utf8_cont :: "nat \<Rightarrow> bool" where
  "utf8_cont b = (0x80 \<le> b \<and> b \<le> 0xBF)"

fun utf8_bytes :: "nat list \<Rightarrow> bool" where
  "utf8_bytes [] = True"
| "utf8_bytes (b # r) =
     (if b < 0x80 then utf8_bytes r
      else case utf8_lead b of
        None \<Rightarrow> False
      | Some (n, lo, hi) \<Rightarrow>
          (case r of
             [] \<Rightarrow> False
           | b1 # r1 \<Rightarrow>
               lo \<le> b1 \<and> b1 \<le> hi \<and>
               (if n = 2 then utf8_bytes r1
                else case r1 of
                  [] \<Rightarrow> False
                | b2 # r2 \<Rightarrow>
                    utf8_cont b2 \<and>
                    (if n = 3 then utf8_bytes r2
                     else case r2 of
                       [] \<Rightarrow> False
                     | b3 # r3 \<Rightarrow> utf8_cont b3 \<and> utf8_bytes r3))))"

definition valid_utf8 :: "string \<Rightarrow> bool" where
  "valid_utf8 s = utf8_bytes (map of_char s)"

section \<open>The path package\<close>

text \<open>
  \<open>path.Clean\<close>: empty elements and \<open>.\<close> vanish, \<open>..\<close> removes the element before it,
  and at the root it vanishes.  The stack holds the kept elements, the last one first.
\<close>

fun clean_step :: "bool \<Rightarrow> string list \<Rightarrow> string \<Rightarrow> string list" where
  "clean_step rooted st e =
     (if e = [] \<or> e = ''.'' then st
      else if e = ''..'' then
        (case st of
           [] \<Rightarrow> if rooted then [] else [''..'']
         | t # r \<Rightarrow> if t = ''..'' then ''..'' # st else r)
      else e # st)"

definition clean_elems :: "bool \<Rightarrow> string list \<Rightarrow> string list" where
  "clean_elems rooted es = rev (foldl (clean_step rooted) [] es)"

definition path_clean :: "string \<Rightarrow> string" where
  "path_clean p =
     (if p = [] then ''.''
      else let rooted = has_prefix p ''/'';
               out = go_join ''/'' (clean_elems rooted (go_split slash p))
           in if rooted then slash # out
              else if out = [] then ''.'' else out)"

text \<open>\<open>path.Join\<close> of two elements, the only arity the source uses.\<close>

definition path_join :: "string \<Rightarrow> string \<Rightarrow> string" where
  "path_join a b =
     (if a = [] \<and> b = [] then []
      else if a = [] then path_clean b
      else path_clean (a @ ''/'' @ b))"

text \<open>\<open>path.Dir\<close> cleans everything up to the last slash; \<open>path.Base\<close> is the last element.\<close>

definition path_dir :: "string \<Rightarrow> string" where
  "path_dir p = path_clean (rev (dropWhile (\<lambda>c. c \<noteq> slash) (rev p)))"

definition path_base :: "string \<Rightarrow> string" where
  "path_base p =
     (if p = [] then ''.''
      else let q = dropWhile (\<lambda>c. c = slash) (rev p);
               b = rev (takeWhile (\<lambda>c. c \<noteq> slash) q)
           in if b = [] then ''/'' else b)"

text \<open>\<open>fs.ValidPath\<close>.\<close>

definition valid_path :: "string \<Rightarrow> bool" where
  "valid_path p =
     (valid_utf8 p \<and>
      (p = ''.'' \<or>
       list_all (\<lambda>e. e \<noteq> [] \<and> e \<noteq> ''.'' \<and> e \<noteq> ''..'') (go_split slash p)))"

section \<open>Lemmas on strings\<close>

lemma has_prefix_iff: "has_prefix s p \<longleftrightarrow> (\<exists>t. s = p @ t)"
  by (induction s p rule: has_prefix.induct) auto

lemma has_prefix_append [simp]: "has_prefix (p @ t) p"
  by (auto simp: has_prefix_iff)

lemma has_prefix_refl [simp]: "has_prefix p p"
  by (auto simp: has_prefix_iff)

lemma trim_prefix_append [simp]: "trim_prefix (p @ t) p = t"
  by (simp add: trim_prefix_def)

lemma has_suffix_iff: "has_suffix s p \<longleftrightarrow> (\<exists>t. s = t @ p)"
proof -
  have "has_suffix s p \<longleftrightarrow> (\<exists>t. rev s = rev p @ t)"
    by (simp add: has_suffix_def has_prefix_iff)
  also have "\<dots> \<longleftrightarrow> (\<exists>t. s = t @ p)"
    by (metis rev_append rev_rev_ident)
  finally show ?thesis .
qed

lemma has_suffix_append [simp]: "has_suffix (t @ p) p"
  by (auto simp: has_suffix_iff)

lemma trim_suffix_append [simp]: "trim_suffix (t @ p) p = t"
  by (simp add: trim_suffix_def)

lemma go_split_ne [simp]: "go_split c s \<noteq> []"
  by (induction s) (auto split: list.splits)

lemma go_split_append: "go_split c (a @ c # b) = go_split c a @ go_split c b"
  by (induction a) (auto split: list.splits)

lemma go_split_free [simp]: "c \<notin> set s \<Longrightarrow> go_split c s = [s]"
  by (induction s) auto

lemma go_split_sep: "e \<in> set (go_split c s) \<Longrightarrow> c \<notin> set e"
  by (induction s arbitrary: e) (auto split: list.splits if_splits)

lemma go_join_Cons: "xs \<noteq> [] \<Longrightarrow> go_join sep (x # xs) = x @ sep @ go_join sep xs"
  by (cases xs) auto

lemma go_join_append:
  "xs \<noteq> [] \<Longrightarrow> ys \<noteq> [] \<Longrightarrow> go_join sep (xs @ ys) = go_join sep xs @ sep @ go_join sep ys"
proof (induction xs)
  case (Cons x xs)
  then show ?case by (cases xs) (auto simp: go_join_Cons)
qed simp

lemma go_join_split: "go_join [c] (go_split c s) = s"
proof (induction s)
  case (Cons x s)
  show ?case
  proof (cases "x = c")
    case True
    with Cons show ?thesis by (simp add: go_join_Cons)
  next
    case False
    obtain y ys where "go_split c s = y # ys" by (cases "go_split c s") auto
    with Cons False show ?thesis by (cases ys) auto
  qed
qed simp

lemma go_split_join:
  "cs \<noteq> [] \<Longrightarrow> \<forall>e \<in> set cs. c \<notin> set e \<Longrightarrow> go_split c (go_join [c] cs) = cs"
proof (induction cs)
  case (Cons e cs)
  then show ?case by (cases cs) (auto simp: go_split_append)
qed simp

section \<open>Names as component lists\<close>

text \<open>
  A good element is what \<open>fs.ValidPath\<close> accepts between slashes.  \<open>name_of\<close> writes a list
  of elements the way \<open>io/fs\<close> names a file: \<open>.\<close> for the empty list, else joined by slashes.
\<close>

definition good_elem :: "string \<Rightarrow> bool" where
  "good_elem e = (e \<noteq> [] \<and> e \<noteq> ''.'' \<and> e \<noteq> ''..'' \<and> slash \<notin> set e)"

definition good_elems :: "string list \<Rightarrow> bool" where
  "good_elems cs = list_all good_elem cs"

definition name_of :: "string list \<Rightarrow> string" where
  "name_of cs = (if cs = [] then ''.'' else go_join ''/'' cs)"

lemma good_elems_simps [simp]:
  "good_elems []"
  "good_elems (c # cs) = (good_elem c \<and> good_elems cs)"
  "good_elems (cs @ ds) = (good_elems cs \<and> good_elems ds)"
  by (auto simp: good_elems_def)

lemma good_elems_free: "good_elems cs \<Longrightarrow> \<forall>e \<in> set cs. slash \<notin> set e"
  by (auto simp: good_elems_def list_all_iff good_elem_def)

lemma go_split_name_of: "good_elems cs \<Longrightarrow> cs \<noteq> [] \<Longrightarrow> go_split slash (name_of cs) = cs"
  by (simp add: name_of_def go_split_join good_elems_free)

lemma not_good_dot [simp]: "\<not> good_elem ''.''" "\<not> good_elem ''..''" "\<not> good_elem []"
  by (auto simp: good_elem_def)

lemma name_of_Nil [simp]: "name_of [] = ''.''"
  by (simp add: name_of_def)

lemma name_of_single [simp]: "name_of [c] = c"
  by (simp add: name_of_def)

lemma name_of_dot [simp]: "good_elems cs \<Longrightarrow> (name_of cs = ''.'') = (cs = [])"
proof
  assume "good_elems cs" and "name_of cs = ''.''"
  show "cs = []"
  proof (rule ccontr)
    assume "cs \<noteq> []"
    with \<open>good_elems cs\<close> have "go_split slash (name_of cs) = cs" by (rule go_split_name_of)
    with \<open>name_of cs = ''.''\<close> have "cs = [''.'']" by simp
    with \<open>good_elems cs\<close> show False by simp
  qed
qed simp

lemma name_of_inj: "good_elems cs \<Longrightarrow> good_elems ds \<Longrightarrow> name_of cs = name_of ds \<Longrightarrow> cs = ds"
  by (metis go_split_name_of name_of_dot)

lemma name_of_append:
  "cs \<noteq> [] \<Longrightarrow> ds \<noteq> [] \<Longrightarrow> name_of (cs @ ds) = name_of cs @ ''/'' @ name_of ds"
  by (simp add: name_of_def go_join_append)

lemma name_of_Cons: "name_of (c # cs) = c @ (if cs = [] then [] else slash # name_of cs)"
  by (simp add: name_of_def go_join_Cons)

lemma name_of_ne [simp]: "good_elems cs \<Longrightarrow> name_of cs \<noteq> []"
  by (cases cs) (auto simp: name_of_Cons)

lemma valid_path_elems:
  "valid_path p \<longleftrightarrow> valid_utf8 p \<and> (\<exists>cs. good_elems cs \<and> p = name_of cs)"
proof -
  have *: "list_all (\<lambda>e. e \<noteq> [] \<and> e \<noteq> ''.'' \<and> e \<noteq> ''..'') (go_split slash p)
        \<longleftrightarrow> good_elems (go_split slash p)"
    using go_split_sep [of _ slash p] by (auto simp: good_elems_def good_elem_def list_all_iff)
  have "p = name_of (go_split slash p)"
    by (simp add: name_of_def go_join_split)
  then have "good_elems (go_split slash p) \<Longrightarrow> \<exists>cs. good_elems cs \<and> p = name_of cs"
    by blast
  moreover have "p = ''.'' \<Longrightarrow> \<exists>cs. good_elems cs \<and> p = name_of cs"
    by (rule exI [of _ "[]"]) simp
  moreover have "good_elems cs \<Longrightarrow> p = name_of cs \<Longrightarrow> p \<noteq> ''.'' \<Longrightarrow> good_elems (go_split slash p)" for cs
    by (cases "cs = []") (auto simp: go_split_name_of)
  ultimately show ?thesis
    unfolding valid_path_def * by blast
qed

lemma valid_path_cases:
  assumes "valid_path p"
  obtains "p = ''.''"
  | cs c where "good_elems cs" "good_elem c" "p = name_of (cs @ [c])"
proof -
  from assms obtain cs where cs: "good_elems cs" "p = name_of cs"
    by (auto simp: valid_path_elems)
  show thesis
  proof (cases cs rule: rev_cases)
    case Nil
    with cs that(1) show thesis by simp
  next
    case (snoc ds c)
    with cs that(2) [of ds c] show thesis by simp
  qed
qed

subsection \<open>Cleaning\<close>

lemma foldl_clean_good: "good_elems es \<Longrightarrow> foldl (clean_step r) st es = rev es @ st"
  by (induction es arbitrary: st) (auto simp: good_elem_def)

lemma clean_elems_good: "good_elems es \<Longrightarrow> clean_elems r es = es"
  by (simp add: clean_elems_def foldl_clean_good)

lemma foldl_clean_rooted:
  "good_elems st \<Longrightarrow> \<forall>e \<in> set es. slash \<notin> set e \<Longrightarrow> good_elems (foldl (clean_step True) st es)"
proof (induction es arbitrary: st)
  case (Cons e es)
  have "good_elems (clean_step True st e)"
    using Cons.prems by (cases st) (auto simp: good_elem_def)
  with Cons show ?case by simp
qed simp

lemma good_elems_rev [simp]: "good_elems (rev cs) = good_elems cs"
  by (simp add: good_elems_def list_all_iff)

lemma clean_elems_rooted: "\<forall>e \<in> set es. slash \<notin> set e \<Longrightarrow> good_elems (clean_elems True es)"
  by (simp add: clean_elems_def foldl_clean_rooted)

lemma path_clean_abs:
  "path_clean (slash # s) = slash # go_join ''/'' (clean_elems True (go_split slash s))"
proof -
  have "clean_elems True (go_split slash (slash # s)) = clean_elems True (go_split slash s)"
    by (simp add: clean_elems_def)
  then show ?thesis by (simp add: path_clean_def)
qed

lemma path_clean_abs_elems:
  obtains cs where "good_elems cs" "path_clean (slash # s) = slash # go_join ''/'' cs"
  using that clean_elems_rooted [of "go_split slash s"] path_clean_abs [of s] go_split_sep
  by blast

lemma path_clean_abs_fix:
  assumes "good_elems cs"
  shows "path_clean (slash # go_join ''/'' cs) = slash # go_join ''/'' cs"
proof (cases "cs = []")
  case True
  then show ?thesis by (simp add: path_clean_def clean_elems_def)
next
  case False
  with assms show ?thesis
    using go_split_name_of [OF assms False]
    by (simp add: path_clean_abs name_of_def clean_elems_good)
qed

lemma path_clean_abs_idem: "path_clean (path_clean (slash # s)) = path_clean (slash # s)"
  by (rule path_clean_abs_elems [of s]) (simp add: path_clean_abs_fix)

subsection \<open>Directories and last elements\<close>

lemma dropWhile_slash_free: "slash \<notin> set c \<Longrightarrow> dropWhile (\<lambda>x. x \<noteq> slash) c = []"
  by (induction c) auto

lemma dropWhile_not_slash:
  "slash \<notin> set c \<Longrightarrow> dropWhile (\<lambda>x. x \<noteq> slash) (rev c @ slash # r) = slash # r"
  by (subst dropWhile_append2) auto

lemma takeWhile_append2_slash:
  "slash \<notin> set c \<Longrightarrow> takeWhile (\<lambda>x. x \<noteq> slash) (rev c @ slash # r) = rev c"
  by (subst takeWhile_append2) auto

lemma name_of_hd:
  assumes "good_elems cs" "cs \<noteq> []"
  shows "\<not> has_prefix (name_of cs @ t) ''/''"
proof -
  obtain c cs' where cs: "cs = c # cs'" using assms(2) by (cases cs) auto
  then obtain x r where "c = x # r" "x \<noteq> slash"
    using assms(1) by (cases c) (auto simp: good_elem_def)
  with cs show ?thesis by (simp add: name_of_Cons)
qed

lemma path_dir_name [simp]:
  assumes "good_elems cs" "good_elem c"
  shows "path_dir (name_of (cs @ [c])) = name_of cs"
proof (cases "cs = []")
  case True
  with assms show ?thesis
    by (simp add: path_dir_def good_elem_def dropWhile_slash_free path_clean_def)
next
  case False
  have free: "slash \<notin> set c" using assms by (simp add: good_elem_def)
  let ?d = "name_of cs @ ''/''"
  have "name_of (cs @ [c]) = name_of cs @ slash # c"
    using False by (simp add: name_of_append)
  then have dir: "rev (dropWhile (\<lambda>x. x \<noteq> slash) (rev (name_of (cs @ [c])))) = ?d"
    using dropWhile_not_slash [OF free, of "rev (name_of cs)"] by simp
  have split: "go_split slash ?d = cs @ [[]]"
    using go_split_append [of slash "name_of cs" "[]"] go_split_name_of [OF assms(1) False]
    by simp
  have "clean_elems False (cs @ [[]]) = cs"
    using assms by (simp add: clean_elems_def foldl_clean_good)
  moreover have "go_join ''/'' cs \<noteq> []"
    using assms False name_of_ne [of cs] by (simp add: name_of_def)
  ultimately show ?thesis
    using False name_of_hd [OF assms(1) False, of "''/''"]
    unfolding path_dir_def dir path_clean_def split by (simp add: name_of_def Let_def)
qed

lemma path_dir_dot [simp]: "path_dir ''.'' = ''.''"
  by (simp add: path_dir_def path_clean_def)

lemma path_base_name [simp]:
  assumes "good_elems cs" "good_elem c"
  shows "path_base (name_of (cs @ [c])) = c"
proof -
  have free: "slash \<notin> set c" and ne: "c \<noteq> []" using assms by (auto simp: good_elem_def)
  obtain t where t: "rev (name_of (cs @ [c])) = rev c @ t" "t = [] \<or> (\<exists>r. t = slash # r)"
    by (cases "cs = []") (auto simp: name_of_append)
  obtain x r where "rev c = x # r" "x \<noteq> slash"
    using free ne by (metis list.exhaust list.set_intros(1) rev_is_Nil_conv set_rev)
  then have "dropWhile (\<lambda>c. c = slash) (rev c @ t) = rev c @ t" by simp
  moreover have "takeWhile (\<lambda>c. c \<noteq> slash) (rev c @ t) = rev c"
    using t(2) free by (auto simp: takeWhile_append2_slash)
  ultimately show ?thesis
    using t(1) ne name_of_ne [of "cs @ [c]"] assms by (simp add: path_base_def Let_def)
qed

subsection \<open>Names below a directory\<close>

lemma go_join_under:
  assumes "good_elems cs" "good_elems ds" "cs \<noteq> []"
  shows "has_prefix (name_of ds) (name_of cs @ ''/'') \<longleftrightarrow> (\<exists>es. es \<noteq> [] \<and> ds = cs @ es)"
proof
  assume "has_prefix (name_of ds) (name_of cs @ ''/'')"
  then obtain t where t: "name_of ds = name_of cs @ slash # t"
    by (auto simp: has_prefix_iff)
  have "ds \<noteq> []"
  proof
    assume "ds = []"
    with t have "name_of cs @ slash # t = ''.''" by simp
    then show False by (cases "name_of cs") auto
  qed
  then have "ds = go_split slash (name_of ds)"
    using assms by (simp add: go_split_name_of)
  also have "\<dots> = cs @ go_split slash t"
    using t assms by (simp add: go_split_append go_split_name_of)
  finally show "\<exists>es. es \<noteq> [] \<and> ds = cs @ es" by auto
next
  assume "\<exists>es. es \<noteq> [] \<and> ds = cs @ es"
  then show "has_prefix (name_of ds) (name_of cs @ ''/'')"
    using assms by (auto simp: name_of_append has_prefix_iff)
qed

subsection \<open>UTF-8 and slashes\<close>

lemma utf8_lead_slash [simp]: "b < 0x80 \<Longrightarrow> utf8_lead b = None"
  by (auto simp: utf8_lead_def)

lemma utf8_lead_lo: "utf8_lead b = Some (n, lo, hi) \<Longrightarrow> 0x80 \<le> lo"
  by (auto simp: utf8_lead_def split: if_splits)

lemma utf8_bytes_ascii: "c < 0x80 \<Longrightarrow> utf8_bytes (c # r) = utf8_bytes r"
  by simp

lemma utf8_bytes_bad: "\<not> c < 0x80 \<Longrightarrow> utf8_lead c = None \<Longrightarrow> \<not> utf8_bytes (c # r)"
  by simp

lemma utf8_bytes_multi:
  "\<not> c < 0x80 \<Longrightarrow> utf8_lead c = Some (n, lo, hi) \<Longrightarrow>
   utf8_bytes (c # r) =
     (case r of
        [] \<Rightarrow> False
      | b1 # r1 \<Rightarrow> lo \<le> b1 \<and> b1 \<le> hi \<and>
          (if n = 2 then utf8_bytes r1
           else case r1 of
             [] \<Rightarrow> False
           | b2 # r2 \<Rightarrow> utf8_cont b2 \<and>
               (if n = 3 then utf8_bytes r2
                else case r2 of [] \<Rightarrow> False | b3 # r3 \<Rightarrow> utf8_cont b3 \<and> utf8_bytes r3)))"
  by simp

lemma utf8_cont_ascii: "b < 0x80 \<Longrightarrow> \<not> utf8_cont b"
  by (simp add: utf8_cont_def)

declare utf8_bytes.simps(2) [simp del]

lemma utf8_bytes_append:
  assumes x: "x < 0x80"
  shows "utf8_bytes (a @ x # b) = (utf8_bytes a \<and> utf8_bytes b)"
proof (induction a rule: utf8_bytes.induct)
  case 1
  from x show ?case by (simp add: utf8_bytes_ascii)
next
  case (2 c r)
  consider "c < 0x80" | "\<not> c < 0x80" "utf8_lead c = None"
    | n lo hi where "\<not> c < 0x80" "utf8_lead c = Some (n, lo, hi)"
    by (metis not_None_eq prod_cases3)
  then show ?case
  proof cases
    case 1
    with 2 show ?thesis by (simp add: utf8_bytes_ascii)
  next
    case 2
    then show ?thesis by (simp add: utf8_bytes_bad)
  next
    case (3 n lo hi)
    have "\<not> lo \<le> x" using x utf8_lead_lo [OF 3(2)] by simp
    note unfold = utf8_bytes_multi [OF 3] utf8_cont_ascii [OF x] this
    note IH = "2.IH"(2-) [OF 3(1) 3(2) refl refl]
    show ?thesis
    proof (cases r)
      case Nil
      with unfold show ?thesis by simp
    next
      case r1: (Cons b1 r1)
      show ?thesis
      proof (cases "n = 2")
        case True
        with r1 unfold IH(1) show ?thesis by auto
      next
        case n2: False
        show ?thesis
        proof (cases r1)
          case Nil
          with r1 n2 unfold show ?thesis by simp
        next
          case r2: (Cons b2 r2)
          show ?thesis
          proof (cases "n = 3")
            case True
            with r1 r2 n2 unfold IH(2) show ?thesis by auto
          next
            case n3: False
            with r1 r2 n2 unfold IH(3) show ?thesis by (cases r2) auto
          qed
        qed
      qed
    qed
  qed
qed

lemma valid_utf8_slash: "valid_utf8 (a @ slash # b) = (valid_utf8 a \<and> valid_utf8 b)"
  using utf8_bytes_append [of "of_char slash" "map of_char a" "map of_char b"]
  by (simp add: valid_utf8_def)

lemma valid_utf8_name:
  assumes "cs \<noteq> []"
  shows "valid_utf8 (name_of cs) = (\<forall>c \<in> set cs. valid_utf8 c)"
  using assms
proof (induction cs)
  case (Cons c cs)
  then show ?case
    by (cases "cs = []") (auto simp: name_of_append [of "[c]", simplified] valid_utf8_slash)
qed simp

lemma valid_utf8_dot [simp]: "valid_utf8 ''.''"
  by (simp add: valid_utf8_def utf8_bytes_ascii)

lemma valid_path_name_of:
  "good_elems cs \<Longrightarrow> valid_path (name_of cs) = (\<forall>c \<in> set cs. valid_utf8 c)"
  by (cases "cs = []") (simp add: valid_path_def, auto simp: valid_path_elems valid_utf8_name)

lemma contains_nul_name_of: "contains_nul (name_of cs) = (\<exists>c \<in> set cs. contains_nul c)"
  by (induction cs) (auto simp: name_of_Cons contains_nul_def)

end
