(* ===== verification/Memory.thy ===== *)
theory Memory
  imports GoPath "HOL-Library.AList"
begin

unbundle bit_operations_syntax

text \<open>
  \<open>vfs/memory.go\<close>: the in-memory filesystem \<open>Memory\<close> and its open files
  \<open>memoryFile\<close>, one definition per Go function.

  A \<open>*node\<close> is an index into the heap \<open>m_heap\<close> (nodes are appended, never moved), and a
  \<open>*memoryFile\<close> is an index into \<open>m_files\<close>; several names never share a node, but
  several open files may, and a node outlives its name while it is open.  The Go map
  \<open>nodes\<close> is an association list: its order stands for Go's unspecified iteration order.
  \<open>time.Now()\<close> is an argument; the global counter \<open>nextInode\<close> is the field
  \<open>m_nextInode\<close>.  Every method holds the mutex from start to end, so it is one atomic step.
\<close>

section \<open>State\<close>

type_synonym byte = "8 word"
type_synonym time = int
type_synonym ptr = nat
type_synonym fd = nat

record node =
  n_data :: "byte list"
  n_mode :: filemode
  n_mtime :: time
  n_atime :: time
  n_id :: "64 word"
  n_refs :: int
  n_linked :: bool

text \<open>
  \<open>fs.FileInfo\<close>: what the methods of a file description return.  \<open>AccessTime\<close> and
  \<open>Inode\<close> are optional methods, which \<open>Memory\<close>'s \<open>fileInfo\<close> has.
\<close>

record fileInfo =
  fi_name :: string
  fi_size :: int
  fi_mode :: filemode
  fi_mtime :: time
  fi_atime :: "time option"
  fi_id :: "64 word option"

record memoryFile =
  f_node :: ptr
  f_name :: string
  f_pos :: int
  f_readable :: bool
  f_writable :: bool
  f_append :: bool
  f_closed :: bool
  f_entries :: "fileInfo list option"
  f_dirPos :: nat

record memory =
  m_nodes :: "(string \<times> ptr) list"
  m_limit :: int
  m_used :: int
  m_heap :: "node list"
  m_files :: "memoryFile list"
  m_nextInode :: "64 word"

definition the_node :: "memory \<Rightarrow> ptr \<Rightarrow> node" where
  "the_node m p = m_heap m ! p"

definition upd_node :: "ptr \<Rightarrow> (node \<Rightarrow> node) \<Rightarrow> memory \<Rightarrow> memory" where
  "upd_node p f m = m\<lparr>m_heap := (m_heap m)[p := f (m_heap m ! p)]\<rparr>"

definition the_file :: "memory \<Rightarrow> fd \<Rightarrow> memoryFile" where
  "the_file m h = m_files m ! h"

definition upd_file :: "fd \<Rightarrow> (memoryFile \<Rightarrow> memoryFile) \<Rightarrow> memory \<Rightarrow> memory" where
  "upd_file h f m = m\<lparr>m_files := (m_files m)[h := f (m_files m ! h)]\<rparr>"

text \<open>The node of an open file.\<close>

definition file_node :: "memory \<Rightarrow> fd \<Rightarrow> node" where
  "file_node m h = the_node m (f_node (the_file m h))"

definition node_len :: "node \<Rightarrow> int" where
  "node_len n = int (length (n_data n))"

definition max_nodes :: nat where
  "max_nodes = 10000"

lemma max_nodes_le_code [code_unfold]: "(max_nodes \<le> n) = (10000 \<le> int n)"
  by (simp add: max_nodes_def)

section \<open>The filesystem\<close>

text \<open>\<open>newNode\<close>: allocate a node, with the next inode number.\<close>

definition newNode :: "time \<Rightarrow> filemode \<Rightarrow> memory \<Rightarrow> ptr \<times> memory" where
  "newNode now md m =
     (let i = m_nextInode m + 1
      in (length (m_heap m),
          m\<lparr>m_heap := m_heap m @
               [\<lparr>n_data = [], n_mode = md, n_mtime = now, n_atime = now, n_id = i,
                 n_refs = 0, n_linked = True\<rparr>],
            m_nextInode := i\<rparr>))"

text \<open>\<open>NewMemory\<close>: \<open>counter\<close> is the current value of the global inode counter.\<close>

definition NewMemory :: "time \<Rightarrow> 64 word \<Rightarrow> int \<Rightarrow> memory" where
  "NewMemory now counter maxBytes =
     (let lim = (if maxBytes \<le> 0 then 67108864 else maxBytes);
          m = \<lparr>m_nodes = [], m_limit = lim, m_used = 0, m_heap = [], m_files = [],
               m_nextInode = counter\<rparr>;
          (p, m') = newNode now (ModeDir OR 0x1ED) m
      in m'\<lparr>m_nodes := [(''.'', p)]\<rparr>)"

definition valid :: "string \<Rightarrow> bool" where
  "valid name = (valid_path name \<and> \<not> contains_nul name)"

definition pathErr :: "string \<Rightarrow> string \<Rightarrow> goerr \<Rightarrow> goerr" where
  "pathErr op name e = PathError op name e"

definition mem_lookup :: "memory \<Rightarrow> string \<Rightarrow> ptr res" where
  "mem_lookup m name =
     (if \<not> valid name then Inl ErrInvalid
      else case map_of (m_nodes m) name of None \<Rightarrow> Inl ErrNotExist | Some p \<Rightarrow> Inr p)"

text \<open>\<open>parent\<close>: the error, if the parent of a name is not a directory of the filesystem.\<close>

definition mem_parent :: "memory \<Rightarrow> string \<Rightarrow> goerr option" where
  "mem_parent m name =
     (case mem_lookup m (path_dir name) of
        Inl e \<Rightarrow> Some e
      | Inr p \<Rightarrow> if mode_is_dir (n_mode (the_node m p)) then None else Some (Errno ENOTDIR))"

text \<open>The node \<open>OpenFile\<close> works on: the existing one, or a new one with its name.\<close>

definition open_node :: "time \<Rightarrow> string \<Rightarrow> oflag \<Rightarrow> filemode \<Rightarrow> memory \<Rightarrow> (ptr \<times> memory) res" where
  "open_node now name flag perm m =
     (case mem_lookup m name of
        Inl err \<Rightarrow>
          if \<not> errors_is err ErrNotExist \<or> \<not> has_flag flag O_CREATE
          then Inl (pathErr ''open'' name err)
          else (case mem_parent m name of
                  Some e \<Rightarrow> Inl (pathErr ''open'' name e)
                | None \<Rightarrow>
                    if max_nodes \<le> length (m_nodes m)
                    then Inl (pathErr ''open'' name (Errno ENOSPC))
                    else let (p, m') = newNode now (mode_perm perm) m
                         in Inr (p, m'\<lparr>m_nodes := AList.update name p (m_nodes m')\<rparr>))
      | Inr p \<Rightarrow>
          if has_flag flag O_CREATE \<and> has_flag flag O_EXCL
          then Inl (pathErr ''open'' name ErrExist)
          else Inr (p, m))"

definition mem_OpenFile ::
  "time \<Rightarrow> string \<Rightarrow> oflag \<Rightarrow> filemode \<Rightarrow> memory \<Rightarrow> fd res \<times> memory" where
  "mem_OpenFile now name flag perm m =
     (if \<not> valid name then (Inl (pathErr ''open'' name ErrInvalid), m)
      else case open_node now name flag perm m of
        Inl e \<Rightarrow> (Inl e, m)
      | Inr (p, m1) \<Rightarrow>
          let writable = has_flag flag (O_WRONLY OR O_RDWR);
              trunc = has_flag flag O_TRUNC
          in if mode_is_dir (n_mode (the_node m1 p)) \<and> (writable \<or> trunc)
             then (Inl (pathErr ''open'' name (Errno EISDIR)), m1)
             else if trunc \<and> \<not> writable
             then (Inl (pathErr ''open'' name ErrPermission), m1)
             else
               let m2 = (if trunc
                         then upd_node p (\<lambda>n. n\<lparr>n_data := [], n_mtime := now\<rparr>)
                                (m1\<lparr>m_used := i64 (m_used m1 - node_len (the_node m1 p))\<rparr>)
                         else m1);
                   m3 = upd_node p (\<lambda>n. n\<lparr>n_refs := n_refs n + 1\<rparr>) m2;
                   f = \<lparr>f_node = p, f_name = name, f_pos = 0,
                        f_readable = \<not> has_flag flag O_WRONLY, f_writable = writable,
                        f_append = has_flag flag O_APPEND, f_closed = False,
                        f_entries = None, f_dirPos = 0\<rparr>
               in (Inr (length (m_files m3)), m3\<lparr>m_files := m_files m3 @ [f]\<rparr>))"

definition mem_Open :: "time \<Rightarrow> string \<Rightarrow> memory \<Rightarrow> fd res \<times> memory" where
  "mem_Open now name m = mem_OpenFile now name O_RDONLY 0 m"

definition infoFor :: "string \<Rightarrow> node \<Rightarrow> fileInfo" where
  "infoFor name n =
     \<lparr>fi_name = path_base name, fi_size = node_len n, fi_mode = n_mode n,
      fi_mtime = n_mtime n, fi_atime = Some (n_atime n), fi_id = Some (n_id n)\<rparr>"

definition mem_Stat :: "string \<Rightarrow> memory \<Rightarrow> fileInfo res" where
  "mem_Stat name m =
     (case mem_lookup m name of
        Inl e \<Rightarrow> Inl (pathErr ''stat'' name e)
      | Inr p \<Rightarrow> Inr (infoFor name (the_node m p)))"

text \<open>\<open>readDir\<close>: the entries directly below a directory, sorted by name.\<close>

definition mem_readDir :: "memory \<Rightarrow> string \<Rightarrow> fileInfo list res" where
  "mem_readDir m name =
     (case mem_lookup m name of
        Inl e \<Rightarrow> Inl (pathErr ''readdir'' name e)
      | Inr p \<Rightarrow>
          if \<not> mode_is_dir (n_mode (the_node m p))
          then Inl (pathErr ''readdir'' name (Errno ENOTDIR))
          else Inr (sort_key fi_name
                 (map (\<lambda>(q, c). infoFor q (the_node m c))
                    (filter (\<lambda>(q, c). q \<noteq> name \<and> path_dir q = name) (m_nodes m)))))"

definition mem_ReadDir :: "string \<Rightarrow> memory \<Rightarrow> fileInfo list res" where
  "mem_ReadDir name m = mem_readDir m name"

definition mem_Mkdir :: "time \<Rightarrow> string \<Rightarrow> filemode \<Rightarrow> memory \<Rightarrow> goerr option \<times> memory" where
  "mem_Mkdir now name perm m =
     (if \<not> valid name then (Some (pathErr ''mkdir'' name ErrInvalid), m)
      else if map_of (m_nodes m) name \<noteq> None
      then (Some (pathErr ''mkdir'' name ErrExist), m)
      else case mem_parent m name of
        Some e \<Rightarrow> (Some (pathErr ''mkdir'' name e), m)
      | None \<Rightarrow>
          if max_nodes \<le> length (m_nodes m)
          then (Some (pathErr ''mkdir'' name (Errno ENOSPC)), m)
          else let (p, m') = newNode now (ModeDir OR mode_perm perm) m
               in (None, m'\<lparr>m_nodes := AList.update name p (m_nodes m')\<rparr>))"

text \<open>\<open>unlink\<close>: the node loses its name; its bytes go at once unless it is open.\<close>

definition unlink :: "ptr \<Rightarrow> memory \<Rightarrow> memory" where
  "unlink p m =
     (let m1 = upd_node p (\<lambda>n. n\<lparr>n_linked := False\<rparr>) m
      in if n_refs (the_node m1 p) = 0
         then upd_node p (\<lambda>n. n\<lparr>n_data := []\<rparr>)
                (m1\<lparr>m_used := i64 (m_used m1 - node_len (the_node m1 p))\<rparr>)
         else m1)"

text \<open>Whether some name lies directly below \<open>name\<close> (the loops of \<open>Remove\<close> and \<open>Rename\<close>).\<close>

definition has_child :: "memory \<Rightarrow> string \<Rightarrow> bool" where
  "has_child m name = list_ex (\<lambda>(q, c). path_dir q = name) (m_nodes m)"

definition mem_Remove :: "string \<Rightarrow> memory \<Rightarrow> goerr option \<times> memory" where
  "mem_Remove name m =
     (case mem_lookup m name of
        Inl e \<Rightarrow> (Some (pathErr ''remove'' name e), m)
      | Inr p \<Rightarrow>
          if name = ''.'' then (Some (pathErr ''remove'' name ErrPermission), m)
          else if mode_is_dir (n_mode (the_node m p)) \<and> has_child m name
          then (Some (pathErr ''remove'' name (Errno ENOTEMPTY)), m)
          else (None, unlink p (m\<lparr>m_nodes := AList.delete name (m_nodes m)\<rparr>)))"

text \<open>The loops of \<open>Rename\<close> over the name map: what moves, under its new names.\<close>

definition moves :: "string \<Rightarrow> string \<Rightarrow> bool" where
  "moves old p = (p = old \<or> has_prefix p (old @ ''/''))"

definition move_nodes :: "string \<Rightarrow> string \<Rightarrow> (string \<times> ptr) list \<Rightarrow> (string \<times> ptr) list" where
  "move_nodes old new ns =
     foldl (\<lambda>acc (p, c). AList.update p c acc)
       (filter (\<lambda>(p, c). \<not> moves old p) ns)
       (map (\<lambda>(p, c). (new @ trim_prefix p old, c)) (filter (\<lambda>(p, c). moves old p) ns))"

text \<open>The checks of \<open>Rename\<close> against an existing destination.\<close>

definition rename_clash :: "node \<Rightarrow> string \<Rightarrow> memory \<Rightarrow> goerr option" where
  "rename_clash n new m =
     (case map_of (m_nodes m) new of
        None \<Rightarrow> None
      | Some d \<Rightarrow>
          let dst = the_node m d
          in if mode_is_dir (n_mode n) \<and> \<not> mode_is_dir (n_mode dst)
             then Some (Errno ENOTDIR)
             else if \<not> mode_is_dir (n_mode n) \<and> mode_is_dir (n_mode dst)
             then Some (Errno EISDIR)
             else if mode_is_dir (n_mode dst) \<and> has_child m new
             then Some (Errno ENOTEMPTY)
             else None)"

definition mem_Rename :: "string \<Rightarrow> string \<Rightarrow> memory \<Rightarrow> goerr option \<times> memory" where
  "mem_Rename old new m =
     (case mem_lookup m old of
        Inl e \<Rightarrow> (Some (pathErr ''rename'' old e), m)
      | Inr p \<Rightarrow>
          if \<not> valid new then (Some (pathErr ''rename'' new ErrInvalid), m)
          else if old = ''.'' \<or> new = ''.'' then (Some (pathErr ''rename'' old ErrPermission), m)
          else if old = new then (None, m)
          else if has_prefix new (old @ ''/'') then (Some (pathErr ''rename'' new ErrInvalid), m)
          else (case mem_parent m new of
            Some e \<Rightarrow> (Some (pathErr ''rename'' new e), m)
          | None \<Rightarrow>
              (case rename_clash (the_node m p) new m of
                 Some e \<Rightarrow> (Some (pathErr ''rename'' new e), m)
               | None \<Rightarrow>
                   let m1 = (case map_of (m_nodes m) new of None \<Rightarrow> m | Some d \<Rightarrow> unlink d m)
                   in (None, m1\<lparr>m_nodes := move_nodes old new (m_nodes m1)\<rparr>))))"

definition mem_Chmod :: "string \<Rightarrow> filemode \<Rightarrow> memory \<Rightarrow> goerr option \<times> memory" where
  "mem_Chmod name perm m =
     (case mem_lookup m name of
        Inl e \<Rightarrow> (Some (pathErr ''chmod'' name e), m)
      | Inr p \<Rightarrow>
          (None, upd_node p (\<lambda>n. n\<lparr>n_mode := mode_type (n_mode n) OR mode_perm perm\<rparr>) m))"

definition mem_Chtimes :: "string \<Rightarrow> time \<Rightarrow> time \<Rightarrow> memory \<Rightarrow> goerr option \<times> memory" where
  "mem_Chtimes name atime mtime m =
     (case mem_lookup m name of
        Inl e \<Rightarrow> (Some (pathErr ''chtimes'' name e), m)
      | Inr p \<Rightarrow> (None, upd_node p (\<lambda>n. n\<lparr>n_atime := atime, n_mtime := mtime\<rparr>) m))"

section \<open>Open files\<close>

definition mf_Stat :: "fd \<Rightarrow> memory \<Rightarrow> fileInfo res" where
  "mf_Stat h m =
     (if f_closed (the_file m h) then Inl ErrClosed
      else Inr (infoFor (f_name (the_file m h)) (file_node m h)))"

definition mf_Close :: "fd \<Rightarrow> memory \<Rightarrow> goerr option \<times> memory" where
  "mf_Close h m =
     (if f_closed (the_file m h) then (Some ErrClosed, m)
      else
        let p = f_node (the_file m h);
            m1 = upd_file h (\<lambda>f. f\<lparr>f_closed := True\<rparr>) m;
            m2 = upd_node p (\<lambda>n. n\<lparr>n_refs := n_refs n - 1\<rparr>) m1
        in (None,
            if \<not> n_linked (the_node m2 p) \<and> n_refs (the_node m2 p) = 0
            then upd_node p (\<lambda>n. n\<lparr>n_data := []\<rparr>)
                   (m2\<lparr>m_used := i64 (m_used m2 - node_len (the_node m2 p))\<rparr>)
            else m2))"

text \<open>
  \<open>readAt\<close> into a buffer of \<open>len\<close> bytes: the bytes copied (their number is the count Go
  returns) and the error, which may come with bytes.
\<close>

definition mf_readAt :: "fd \<Rightarrow> nat \<Rightarrow> int \<Rightarrow> memory \<Rightarrow> byte list \<times> goerr option" where
  "mf_readAt h len off m =
     (let f = the_file m h; d = n_data (file_node m h)
      in if f_closed f then ([], Some ErrClosed)
         else if \<not> f_readable f then ([], Some ErrPermission)
         else if mode_is_dir (n_mode (file_node m h)) then ([], Some (Errno EISDIR))
         else if off < 0 then ([], Some ErrInvalid)
         else if len = 0 then ([], None)
         else if int (length d) \<le> off then ([], Some EOF)
         else let bs = take len (drop (nat off) d)
              in if length bs < len then (bs, Some EOF) else (bs, None))"

definition mf_Read :: "fd \<Rightarrow> nat \<Rightarrow> memory \<Rightarrow> (byte list \<times> goerr option) \<times> memory" where
  "mf_Read h len m =
     (let (bs, e) = mf_readAt h len (f_pos (the_file m h)) m
      in ((bs, e), upd_file h (\<lambda>f. f\<lparr>f_pos := i64 (f_pos f + int (length bs))\<rparr>) m))"

definition mf_ReadAt :: "fd \<Rightarrow> nat \<Rightarrow> int \<Rightarrow> memory \<Rightarrow> byte list \<times> goerr option" where
  "mf_ReadAt h len off m = mf_readAt h len off m"

definition mf_resize :: "time \<Rightarrow> fd \<Rightarrow> int \<Rightarrow> memory \<Rightarrow> goerr option \<times> memory" where
  "mf_resize now h sz m =
     (let d = n_data (file_node m h); delta = i64 (sz - int (length d))
      in if sz < 0 then (Some ErrInvalid, m)
         else if m_limit m < sz then (Some (Errno ENOSPC), m)
         else if i64 (m_limit m - m_used m) < delta then (Some (Errno ENOSPC), m)
         else
           let d' = (if 0 < delta then d @ replicate (nat delta) 0
                     else if delta < 0 then take (nat sz) d
                     else d)
           in (None,
               upd_node (f_node (the_file m h)) (\<lambda>n. n\<lparr>n_data := d', n_mtime := now\<rparr>)
                 (m\<lparr>m_used := i64 (m_used m + delta)\<rparr>)))"

text \<open>Go's \<open>copy(data[off:], p)\<close>: as many bytes of \<open>p\<close> as fit, and the new contents.\<close>

definition copy_into :: "byte list \<Rightarrow> nat \<Rightarrow> byte list \<Rightarrow> byte list" where
  "copy_into d off p = take off d @ take (length d - off) p @ drop (off + length p) d"

definition mf_writeAt ::
  "time \<Rightarrow> fd \<Rightarrow> byte list \<Rightarrow> int \<Rightarrow> memory \<Rightarrow> (int \<times> goerr option) \<times> memory" where
  "mf_writeAt now h p off m =
     (let f = the_file m h
      in if f_closed f then ((0, Some ErrClosed), m)
         else if \<not> f_writable f then ((0, Some ErrPermission), m)
         else if off < 0 then ((0, Some ErrInvalid), m)
         else if i64 (m_limit m - int (length p)) < off then ((0, Some (Errno ENOSPC)), m)
         else if p = [] then ((0, None), m)
         else
           let end = i64 (off + int (length p));
               (e, m1) = (if node_len (file_node m h) < end then mf_resize now h end m
                          else (None, m))
           in case e of
                Some err \<Rightarrow> ((0, Some err), m1)
              | None \<Rightarrow>
                  let d = n_data (file_node m1 h)
                  in ((int (min (length d - nat off) (length p)), None),
                      upd_node (f_node f)
                        (\<lambda>n. n\<lparr>n_data := copy_into d (nat off) p, n_mtime := now\<rparr>) m1))"

definition mf_Write ::
  "time \<Rightarrow> fd \<Rightarrow> byte list \<Rightarrow> memory \<Rightarrow> (int \<times> goerr option) \<times> memory" where
  "mf_Write now h p m =
     (let m0 = (if f_append (the_file m h)
                then upd_file h (\<lambda>f. f\<lparr>f_pos := node_len (file_node m h)\<rparr>) m
                else m);
          ((n, e), m1) = mf_writeAt now h p (f_pos (the_file m0 h)) m0
      in ((n, e), upd_file h (\<lambda>f. f\<lparr>f_pos := i64 (f_pos f + n)\<rparr>) m1))"

definition mf_WriteAt ::
  "time \<Rightarrow> fd \<Rightarrow> byte list \<Rightarrow> int \<Rightarrow> memory \<Rightarrow> (int \<times> goerr option) \<times> memory" where
  "mf_WriteAt now h p off m =
     (if f_closed (the_file m h) then ((0, Some ErrClosed), m)
      else if f_append (the_file m h) then ((0, Some ErrInvalid), m)
      else mf_writeAt now h p off m)"

text \<open>\<open>whence\<close>: 0 is \<open>io.SeekStart\<close>, 1 is \<open>io.SeekCurrent\<close>, 2 is \<open>io.SeekEnd\<close>.\<close>

definition mf_Seek :: "fd \<Rightarrow> int \<Rightarrow> int \<Rightarrow> memory \<Rightarrow> int res \<times> memory" where
  "mf_Seek h off whence m =
     (if f_closed (the_file m h) then (Inl ErrClosed, m)
      else
        let base = (if whence = 0 then Some 0
                    else if whence = 1 then Some (f_pos (the_file m h))
                    else if whence = 2 then Some (node_len (file_node m h))
                    else None)
        in case base of
             None \<Rightarrow> (Inl ErrInvalid, m)
           | Some b \<Rightarrow>
               if off < i64 (- b) \<or> i64 (m_limit m - b) < off then (Inl ErrInvalid, m)
               else
                 let pos = i64 (b + off)
                 in (Inr pos,
                     upd_file h (\<lambda>f. if pos = 0
                       then f\<lparr>f_pos := pos, f_dirPos := 0, f_entries := None\<rparr>
                       else f\<lparr>f_pos := pos\<rparr>) m))"

definition mf_Truncate :: "time \<Rightarrow> fd \<Rightarrow> int \<Rightarrow> memory \<Rightarrow> goerr option \<times> memory" where
  "mf_Truncate now h sz m =
     (if f_closed (the_file m h) then (Some ErrClosed, m)
      else if \<not> f_writable (the_file m h) then (Some ErrPermission, m)
      else mf_resize now h sz m)"

definition mf_Chtimes :: "fd \<Rightarrow> time \<Rightarrow> time \<Rightarrow> memory \<Rightarrow> goerr option \<times> memory" where
  "mf_Chtimes h a mt m =
     (if f_closed (the_file m h) then (Some ErrClosed, m)
      else (None, upd_node (f_node (the_file m h)) (\<lambda>n. n\<lparr>n_atime := a, n_mtime := mt\<rparr>) m))"

text \<open>The first name under which \<open>ReadDir\<close> finds the node of its handle.\<close>

definition name_of_node :: "memory \<Rightarrow> ptr \<Rightarrow> string option" where
  "name_of_node m p = map_option fst (find (\<lambda>(q, c). c = p) (m_nodes m))"

definition mf_ReadDir :: "fd \<Rightarrow> int \<Rightarrow> memory \<Rightarrow> fileInfo list res \<times> memory" where
  "mf_ReadDir h n m =
     (let f = the_file m h
      in if f_closed f then (Inl ErrClosed, m)
         else
           case (case f_entries f of
                   Some es \<Rightarrow> Inr es
                 | None \<Rightarrow>
                     (case name_of_node m (f_node f) of
                        None \<Rightarrow> Inl ErrNotExist
                      | Some name \<Rightarrow> mem_readDir m name))
           of Inl e \<Rightarrow> (Inl e, m)
            | Inr es \<Rightarrow>
                let m1 = upd_file h (\<lambda>f. f\<lparr>f_entries := Some es\<rparr>) m
                in if f_dirPos f = length es \<and> 0 < n then (Inl EOF, m1)
                   else
                     let end = (if 0 < n \<and> n < int (length es) - int (f_dirPos f)
                                then f_dirPos f + nat n else length es)
                     in (Inr (take (end - f_dirPos f) (drop (f_dirPos f) es)),
                         upd_file h (\<lambda>f. f\<lparr>f_dirPos := end\<rparr>) m1))"

end
