(* ===== verification/MemoryInv.thy ===== *)
theory MemoryInv
  imports Memory
begin

text \<open>
  The invariant of the in-memory filesystem and the proof that every operation of
  \<open>Memory\<close> and \<open>memoryFile\<close> keeps it.  Its parts:
  \<open>names_inv\<close> (every name is valid, names a linked node, and no node has two names),
  \<open>tree_inv\<close> (the root and the parent of every name are directories),
  \<open>refs_inv\<close> (reference counts are the numbers of open files, and nothing unreachable holds
  bytes), \<open>files_inv\<close> (positions stay inside the budget, no directory is open for
  writing) and \<open>quota_inv\<close> (the counter is the number of bytes held, within the limit).
\<close>

section \<open>The invariant\<close>

definition node_at :: "memory \<Rightarrow> string \<Rightarrow> node option" where
  "node_at m p = map_option (the_node m) (map_of (m_nodes m) p)"

definition is_dir_at :: "memory \<Rightarrow> string \<Rightarrow> bool" where
  "is_dir_at m p = (case node_at m p of None \<Rightarrow> False | Some n \<Rightarrow> mode_is_dir (n_mode n))"

definition open_refs :: "memory \<Rightarrow> ptr \<Rightarrow> nat" where
  "open_refs m c = length (filter (\<lambda>f. f_node f = c \<and> \<not> f_closed f) (m_files m))"

definition names_inv :: "memory \<Rightarrow> bool" where
  "names_inv m =
     (distinct (map fst (m_nodes m)) \<and> distinct (map snd (m_nodes m)) \<and>
      length (m_nodes m) \<le> max_nodes \<and>
      (\<forall>p \<in> set (map fst (m_nodes m)). valid p) \<and>
      (\<forall>c \<in> set (map snd (m_nodes m)). c < length (m_heap m)) \<and>
      (\<forall>c < length (m_heap m). n_linked (the_node m c) = (c \<in> set (map snd (m_nodes m)))))"

definition tree_inv :: "memory \<Rightarrow> bool" where
  "tree_inv m =
     (is_dir_at m ''.'' \<and>
      (\<forall>p. node_at m p \<noteq> None \<longrightarrow> is_dir_at m (path_dir p)))"

definition refs_inv :: "memory \<Rightarrow> bool" where
  "refs_inv m =
     ((\<forall>f \<in> set (m_files m). f_node f < length (m_heap m)) \<and>
      (\<forall>c < length (m_heap m). n_refs (the_node m c) = int (open_refs m c)) \<and>
      (\<forall>c < length (m_heap m).
          \<not> n_linked (the_node m c) \<and> n_refs (the_node m c) = 0 \<longrightarrow> n_data (the_node m c) = []) \<and>
      (\<forall>c < length (m_heap m). mode_is_dir (n_mode (the_node m c)) \<longrightarrow> n_data (the_node m c) = []))"

definition file_ok :: "memory \<Rightarrow> memoryFile \<Rightarrow> bool" where
  "file_ok m f =
     (0 \<le> f_pos f \<and> f_pos f \<le> m_limit m \<and>
      (f_writable f \<longrightarrow> \<not> mode_is_dir (n_mode (the_node m (f_node f)))) \<and>
      (case f_entries f of None \<Rightarrow> f_dirPos f = 0 | Some es \<Rightarrow> f_dirPos f \<le> length es))"

definition files_inv :: "memory \<Rightarrow> bool" where
  "files_inv m = (\<forall>f \<in> set (m_files m). file_ok m f)"

definition quota_inv :: "memory \<Rightarrow> bool" where
  "quota_inv m =
     (m_used m = sum_list (map node_len (m_heap m)) \<and> m_used m \<le> m_limit m \<and>
      0 < m_limit m \<and> m_limit m \<le> max_int64)"

definition mem_inv :: "memory \<Rightarrow> bool" where
  "mem_inv m = (names_inv m \<and> tree_inv m \<and> refs_inv m \<and> files_inv m \<and> quota_inv m)"

section \<open>Generic facts\<close>

lemma sum_list_update_int:
  fixes f :: "'a \<Rightarrow> int"
  shows "i < length xs \<Longrightarrow> sum_list (map f (xs[i := x])) = sum_list (map f xs) - f (xs ! i) + f x"
proof (induction xs arbitrary: i)
  case (Cons y ys)
  then show ?case by (cases i) auto
qed simp

lemma node_len_nonneg [simp]: "0 \<le> node_len n"
  by (simp add: node_len_def)

lemma member_le_sum_list_int:
  fixes f :: "'a \<Rightarrow> int"
  assumes "x \<in> set xs" "\<And>y. 0 \<le> f y"
  shows "f x \<le> sum_list (map f xs)"
  using assms(1)
proof (induction xs)
  case (Cons y ys)
  have "0 \<le> sum_list (map f ys)" by (rule sum_list_nonneg) (auto simp: assms(2))
  with Cons show ?case using assms(2) [of y] by auto
qed simp

lemma the_node_upd_node:
  "p < length (m_heap m) \<Longrightarrow>
   the_node (upd_node p f m) c = (if c = p then f (the_node m p) else the_node m c)"
  by (simp add: the_node_def upd_node_def)

lemma upd_node_simps [simp]:
  "m_nodes (upd_node p f m) = m_nodes m"
  "m_limit (upd_node p f m) = m_limit m"
  "m_used (upd_node p f m) = m_used m"
  "m_files (upd_node p f m) = m_files m"
  "m_nextInode (upd_node p f m) = m_nextInode m"
  "length (m_heap (upd_node p f m)) = length (m_heap m)"
  by (simp_all add: upd_node_def)

lemma upd_file_simps [simp]:
  "m_nodes (upd_file h f m) = m_nodes m"
  "m_limit (upd_file h f m) = m_limit m"
  "m_used (upd_file h f m) = m_used m"
  "m_heap (upd_file h f m) = m_heap m"
  "m_nextInode (upd_file h f m) = m_nextInode m"
  "length (m_files (upd_file h f m)) = length (m_files m)"
  "the_node (upd_file h f m) = the_node m"
  by (simp_all add: upd_file_def the_node_def fun_eq_iff)

lemma the_file_upd_file:
  "h < length (m_files m) \<Longrightarrow>
   the_file (upd_file h f m) k = (if k = h then f (the_file m h) else the_file m k)"
  by (simp add: the_file_def upd_file_def)

lemma set_upd_file:
  "g \<in> set (m_files (upd_file h f m)) \<Longrightarrow> h < length (m_files m) \<Longrightarrow>
   g = f (the_file m h) \<or> g \<in> set (m_files m)"
  unfolding upd_file_def the_file_def using set_update_subset_insert by fastforce

lemma quota_upd_node:
  "p < length (m_heap m) \<Longrightarrow>
   sum_list (map node_len (m_heap (upd_node p f m))) =
     sum_list (map node_len (m_heap m)) - node_len (the_node m p) + node_len (f (the_node m p))"
  by (simp add: upd_node_def the_node_def sum_list_update_int)

section \<open>Consequences\<close>

lemma mem_inv_parts [mem_inv_dests]:
  assumes "mem_inv m"
  shows "names_inv m" "tree_inv m" "refs_inv m" "files_inv m" "quota_inv m"
  using assms by (simp_all add: mem_inv_def)

lemma lookup_map_of:
  "mem_lookup m name = Inr p \<longleftrightarrow> valid name \<and> map_of (m_nodes m) name = Some p"
  by (auto simp: mem_lookup_def split: option.splits)

lemma named_ptr:
  assumes "names_inv m" "map_of (m_nodes m) name = Some p"
  shows "p < length (m_heap m)" "n_linked (the_node m p)" "valid name"
proof -
  from assms(2) have "(name, p) \<in> set (m_nodes m)" by (rule map_of_SomeD)
  then have "name \<in> set (map fst (m_nodes m))" "p \<in> set (map snd (m_nodes m))"
    by force+
  with assms(1) show "p < length (m_heap m)" "n_linked (the_node m p)" "valid name"
    by (auto simp: names_inv_def)
qed

lemma named_inj:
  assumes "names_inv m" "map_of (m_nodes m) a = Some p" "map_of (m_nodes m) b = Some p"
  shows "a = b"
proof -
  from assms(2,3) have "(a, p) \<in> set (m_nodes m)" "(b, p) \<in> set (m_nodes m)"
    by (auto dest: map_of_SomeD)
  moreover from assms(1) have "inj_on snd (set (m_nodes m))"
    by (simp add: names_inv_def distinct_map)
  ultimately show ?thesis by (metis inj_on_def prod.inject snd_conv)
qed

lemma is_dir_at_iff:
  "is_dir_at m p \<longleftrightarrow>
     (\<exists>c. map_of (m_nodes m) p = Some c \<and> mode_is_dir (n_mode (the_node m c)))"
  by (auto simp: is_dir_at_def node_at_def split: option.splits)

lemma node_at_iff: "node_at m p = Some n \<longleftrightarrow> (\<exists>c. map_of (m_nodes m) p = Some c \<and> n = the_node m c)"
  by (auto simp: node_at_def)

lemma mem_parent_None:
  "mem_parent m name = None \<longleftrightarrow> valid (path_dir name) \<and> is_dir_at m (path_dir name)"
  by (auto simp: mem_parent_def mem_lookup_def is_dir_at_iff split: option.splits)

lemma file_in_heap:
  "refs_inv m \<Longrightarrow> h < length (m_files m) \<Longrightarrow> f_node (the_file m h) < length (m_heap m)"
  by (simp add: refs_inv_def the_file_def)

lemma node_len_le_used:
  assumes "quota_inv m" "p < length (m_heap m)"
  shows "node_len (the_node m p) \<le> m_used m"
  using assms member_le_sum_list_int [of "the_node m p" "m_heap m" node_len]
  by (simp add: quota_inv_def the_node_def)

lemma used_nonneg: "quota_inv m \<Longrightarrow> 0 \<le> m_used m"
  by (auto simp: quota_inv_def intro!: sum_list_nonneg)

section \<open>Elementary state changes\<close>

text \<open>Changing one node, its name and its open files staying as they are.\<close>

lemma names_inv_upd_node:
  assumes "names_inv m" "p < length (m_heap m)" "n_linked (g (the_node m p)) = n_linked (the_node m p)"
  shows "names_inv (upd_node p g m)"
  using assms by (auto simp: names_inv_def the_node_upd_node)

lemma is_dir_at_upd_node:
  assumes "p < length (m_heap m)"
    and "mode_is_dir (n_mode (g (the_node m p))) = mode_is_dir (n_mode (the_node m p))"
  shows "is_dir_at (upd_node p g m) = is_dir_at m"
  using assms by (auto simp: fun_eq_iff is_dir_at_iff the_node_upd_node)

lemma node_at_None_upd_node [simp]: "node_at (upd_node p g m) q = None \<longleftrightarrow> node_at m q = None"
  by (simp add: node_at_def)

lemma tree_inv_upd_node:
  assumes "tree_inv m" "p < length (m_heap m)"
    and "mode_is_dir (n_mode (g (the_node m p))) = mode_is_dir (n_mode (the_node m p))"
  shows "tree_inv (upd_node p g m)"
  using assms by (simp add: tree_inv_def is_dir_at_upd_node)

lemma open_refs_upd_node [simp]: "open_refs (upd_node p g m) = open_refs m"
  by (simp add: open_refs_def fun_eq_iff)

lemma refs_inv_upd_node:
  assumes "refs_inv m" "p < length (m_heap m)"
    and "n_linked (g (the_node m p)) = n_linked (the_node m p)"
    and "n_refs (g (the_node m p)) = n_refs (the_node m p)"
    and "mode_is_dir (n_mode (g (the_node m p))) = mode_is_dir (n_mode (the_node m p))"
    and "n_data (the_node m p) = [] \<Longrightarrow> \<not> n_linked (the_node m p) \<and> n_refs (the_node m p) = 0
           \<or> mode_is_dir (n_mode (the_node m p)) \<Longrightarrow> n_data (g (the_node m p)) = []"
  shows "refs_inv (upd_node p g m)"
  using assms by (auto simp: refs_inv_def the_node_upd_node)

lemma file_ok_upd_node:
  assumes "file_ok m f" "p < length (m_heap m)"
    and "mode_is_dir (n_mode (g (the_node m p))) = mode_is_dir (n_mode (the_node m p))"
  shows "file_ok (upd_node p g m) f"
  using assms by (auto simp: file_ok_def the_node_upd_node)

lemma files_inv_upd_node:
  assumes "files_inv m" "p < length (m_heap m)"
    and "mode_is_dir (n_mode (g (the_node m p))) = mode_is_dir (n_mode (the_node m p))"
  shows "files_inv (upd_node p g m)"
  using assms by (simp add: files_inv_def file_ok_upd_node)

lemma the_node_cong: "m_heap m' = m_heap m \<Longrightarrow> the_node m' = the_node m"
  by (simp add: the_node_def fun_eq_iff)

lemma the_node_other [simp]:
  "the_node (m\<lparr>m_used := u\<rparr>) = the_node m"
  "the_node (m\<lparr>m_nodes := ns\<rparr>) = the_node m"
  "the_node (m\<lparr>m_files := fs\<rparr>) = the_node m"
  by (rule the_node_cong, simp)+

lemma the_file_cong: "m_files m' = m_files m \<Longrightarrow> the_file m' = the_file m"
  by (simp add: the_file_def fun_eq_iff)

lemma the_file_other [simp]:
  "the_file (m\<lparr>m_used := u\<rparr>) = the_file m"
  "the_file (m\<lparr>m_nodes := ns\<rparr>) = the_file m"
  "the_file (upd_node p g m) = the_file m"
  by (rule the_file_cong, simp)+

lemma used_irrelevant [simp]:
  "names_inv (m\<lparr>m_used := u\<rparr>) = names_inv m"
  "tree_inv (m\<lparr>m_used := u\<rparr>) = tree_inv m"
  "refs_inv (m\<lparr>m_used := u\<rparr>) = refs_inv m"
  "file_ok (m\<lparr>m_used := u\<rparr>) f = file_ok m f"
  "files_inv (m\<lparr>m_used := u\<rparr>) = files_inv m"
  "upd_node p g (m\<lparr>m_used := u\<rparr>) = (upd_node p g m)\<lparr>m_used := u\<rparr>"
  by (simp_all add: names_inv_def tree_inv_def is_dir_at_def node_at_def
      refs_inv_def open_refs_def file_ok_def files_inv_def upd_node_def)

lemma mem_inv_set_data:
  assumes inv: "mem_inv m" and p: "p < length (m_heap m)"
    and same: "n_linked (g (the_node m p)) = n_linked (the_node m p)"
      "n_refs (g (the_node m p)) = n_refs (the_node m p)"
      "mode_is_dir (n_mode (g (the_node m p))) = mode_is_dir (n_mode (the_node m p))"
    and empty: "\<not> n_linked (the_node m p) \<and> n_refs (the_node m p) = 0
           \<or> mode_is_dir (n_mode (the_node m p)) \<Longrightarrow> n_data (g (the_node m p)) = []"
    and used: "u = m_used m - node_len (the_node m p) + node_len (g (the_node m p))" "u \<le> m_limit m"
  shows "mem_inv (upd_node p g (m\<lparr>m_used := u\<rparr>))"
proof -
  note parts = mem_inv_parts [OF inv]
  have "quota_inv ((upd_node p g m)\<lparr>m_used := u\<rparr>)"
    using parts(5) used by (simp add: quota_inv_def quota_upd_node [OF p])
  with parts p same empty show ?thesis
    by (simp add: mem_inv_def names_inv_upd_node tree_inv_upd_node refs_inv_upd_node
        files_inv_upd_node)
qed

lemma mem_inv_upd_node:
  assumes inv: "mem_inv m" and p: "p < length (m_heap m)"
    and same: "n_linked (g (the_node m p)) = n_linked (the_node m p)"
      "n_refs (g (the_node m p)) = n_refs (the_node m p)"
      "mode_is_dir (n_mode (g (the_node m p))) = mode_is_dir (n_mode (the_node m p))"
      "n_data (g (the_node m p)) = n_data (the_node m p)"
  shows "mem_inv (upd_node p g m)"
proof -
  have "mem_inv (upd_node p g (m\<lparr>m_used := m_used m\<rparr>))"
  proof (rule mem_inv_set_data [where g = g, OF inv p same(1-3)])
    assume "\<not> n_linked (the_node m p) \<and> n_refs (the_node m p) = 0
           \<or> mode_is_dir (n_mode (the_node m p))"
    with inv p have "n_data (the_node m p) = []" by (auto simp: mem_inv_def refs_inv_def)
    with same show "n_data (g (the_node m p)) = []" by simp
  next
    show "m_used m = m_used m - node_len (the_node m p) + node_len (g (the_node m p))"
      using same(4) by (simp add: node_len_def)
    show "m_used m \<le> m_limit m" using inv by (simp add: mem_inv_def quota_inv_def)
  qed
  then show ?thesis by simp
qed

text \<open>Changing the position or the listing of an open file.\<close>

lemma filter_length_update:
  "i < length xs \<Longrightarrow> P x = P (xs ! i) \<Longrightarrow> length (filter P (xs[i := x])) = length (filter P xs)"
proof (induction xs arbitrary: i)
  case (Cons y ys)
  then show ?case by (cases i) auto
qed simp

lemma filter_length_flip:
  "i < length xs \<Longrightarrow> P (xs ! i) \<Longrightarrow> \<not> P x \<Longrightarrow>
   length (filter P xs) = Suc (length (filter P (xs[i := x])))"
proof (induction xs arbitrary: i)
  case (Cons y ys)
  then show ?case by (cases i) auto
qed simp

lemma open_refs_upd_file:
  assumes "h < length (m_files m)"
    and "f_node (g (the_file m h)) = f_node (the_file m h)"
    and "f_closed (g (the_file m h)) = f_closed (the_file m h)"
  shows "open_refs (upd_file h g m) = open_refs m"
  using assms by (auto simp: open_refs_def upd_file_def the_file_def fun_eq_iff
      intro: filter_length_update)

lemma file_ok_upd_file [simp]: "file_ok (upd_file h g m) f = file_ok m f"
  by (simp add: file_ok_def)

lemma mem_inv_upd_file:
  assumes inv: "mem_inv m" and h: "h < length (m_files m)"
    and same: "f_node (g (the_file m h)) = f_node (the_file m h)"
      "f_closed (g (the_file m h)) = f_closed (the_file m h)"
    and ok: "file_ok m (g (the_file m h))"
  shows "mem_inv (upd_file h g m)"
proof -
  note parts = mem_inv_parts [OF inv]
  have "names_inv (upd_file h g m)" "tree_inv (upd_file h g m)" "quota_inv (upd_file h g m)"
    using parts by (simp_all add: names_inv_def tree_inv_def is_dir_at_def node_at_def quota_inv_def)
  moreover have "refs_inv (upd_file h g m)"
    unfolding refs_inv_def open_refs_upd_file [where g = g, OF h same]
  proof (intro conjI)
    show "\<forall>f \<in> set (m_files (upd_file h g m)). f_node f < length (m_heap (upd_file h g m))"
    proof
      fix f assume "f \<in> set (m_files (upd_file h g m))"
      then consider "f = g (the_file m h)" | "f \<in> set (m_files m)"
        using set_upd_file [OF _ h] by blast
      then show "f_node f < length (m_heap (upd_file h g m))"
        using same(1) file_in_heap [OF parts(3) h] parts(3) by cases (auto simp: refs_inv_def)
    qed
  qed (use parts(3) in \<open>simp_all add: refs_inv_def\<close>)
  moreover have "files_inv (upd_file h g m)"
    unfolding files_inv_def
  proof
    fix f assume "f \<in> set (m_files (upd_file h g m))"
    then have "f = g (the_file m h) \<or> f \<in> set (m_files m)" by (rule set_upd_file [OF _ h])
    with ok parts(4) show "file_ok (upd_file h g m) f" by (auto simp: files_inv_def)
  qed
  ultimately show ?thesis by (simp add: mem_inv_def)
qed

section \<open>Creating nodes and opening files\<close>

lemma alist_update_new: "k \<notin> fst ` set al \<Longrightarrow> AList.update k v al = al @ [(k, v)]"
  by (induction al) auto

lemma newNode_result:
  assumes "newNode now md m = (p, m')"
  shows "p = length (m_heap m)" "m_nodes m' = m_nodes m" "m_limit m' = m_limit m"
    "m_used m' = m_used m" "m_files m' = m_files m"
    "length (m_heap m') = Suc (length (m_heap m))"
    "\<And>c. c < length (m_heap m) \<Longrightarrow> the_node m' c = the_node m c"
    "n_mode (the_node m' p) = md" "n_data (the_node m' p) = []"
    "n_refs (the_node m' p) = 0" "n_linked (the_node m' p)"
    "sum_list (map node_len (m_heap m')) = sum_list (map node_len (m_heap m))"
  using assms by (auto simp: newNode_def Let_def the_node_def nth_append node_len_def)

lemma map_of_snoc: "k \<notin> fst ` set al \<Longrightarrow> map_of (al @ [(k, v)]) = (map_of al)(k \<mapsto> v)"
  by (induction al) (auto simp: fun_eq_iff)

lemma node_at_link_new:
  assumes names: "names_inv m" and new: "newNode now md m = (p, m')"
    and name: "map_of (m_nodes m) name = None"
  shows "node_at (m'\<lparr>m_nodes := AList.update name p (m_nodes m')\<rparr>) q
    = (if q = name then Some (the_node m' p) else node_at m q)"
proof -
  note nn = newNode_result [OF new]
  have "map_of (m_nodes m) q = Some c \<Longrightarrow> the_node m' c = the_node m c" for c
    using named_ptr(1) [OF names] nn(7) by blast
  then show ?thesis
    using nn(2) by (auto simp: node_at_def update_conv' map_option_case split: option.splits)
qed

lemma mem_inv_link_new:
  assumes inv: "mem_inv m" and new: "newNode now md m = (p, m')"
    and name: "valid name" "map_of (m_nodes m) name = None"
    and parent: "is_dir_at m (path_dir name)" and room: "length (m_nodes m) < max_nodes"
  shows "mem_inv (m'\<lparr>m_nodes := AList.update name p (m_nodes m')\<rparr>)" (is "mem_inv ?m")
proof -
  note parts = mem_inv_parts [OF inv] and nn = newNode_result [OF new]
  have fresh: "name \<notin> fst ` set (m_nodes m)"
    using name(2) by (simp add: map_of_eq_None_iff)
  have nodes: "m_nodes ?m = m_nodes m @ [(name, p)]"
    using nn(2) alist_update_new [OF fresh] by simp
  have old: "c \<in> set (map snd (m_nodes m)) \<Longrightarrow> c < length (m_heap m)" for c
    using parts(1) by (auto simp: names_inv_def)
  have pnew: "p \<notin> set (map snd (m_nodes m))"
    using old nn(1) by blast
  have names: "names_inv ?m"
    unfolding names_inv_def nodes the_node_other
  proof (intro conjI)
    show "\<forall>c<length (m_heap ?m). n_linked (the_node m' c)
            = (c \<in> set (map snd (m_nodes m @ [(name, p)])))"
      using parts(1) nn pnew by (auto simp: names_inv_def less_Suc_eq)
    show "\<forall>c\<in>set (map snd (m_nodes m @ [(name, p)])). c < length (m_heap ?m)"
    proof
      fix c assume "c \<in> set (map snd (m_nodes m @ [(name, p)]))"
      then have "c \<in> set (map snd (m_nodes m)) \<or> c = length (m_heap m)" using nn(1) by auto
      with old nn(6) show "c < length (m_heap ?m)" by (metis less_Suc_eq memory.select_convs(4)
            memory.surjective memory.update_convs(1))
    qed
  qed (use parts(1) fresh pnew name room in \<open>auto simp: names_inv_def\<close>)
  have at: "node_at ?m q = (if q = name then Some (the_node m' p) else node_at m q)" for q
    by (rule node_at_link_new [OF parts(1) new name(2)])
  have dir: "is_dir_at m q \<Longrightarrow> is_dir_at ?m q" for q
    using name(2) unfolding is_dir_at_def at by (auto simp: node_at_def)
  have "tree_inv ?m"
    unfolding tree_inv_def using parts(2) dir parent at
    by (auto simp: tree_inv_def)
  moreover have "open_refs ?m c = open_refs m c" for c
    using nn(5) by (simp add: open_refs_def)
  moreover have "open_refs m p = 0"
    using parts(3) nn(1) by (auto simp: open_refs_def refs_inv_def filter_empty_conv)
  ultimately have "tree_inv ?m" and "refs_inv ?m"
    using parts(3) nn by (auto simp: refs_inv_def less_Suc_eq)
  moreover have "files_inv ?m"
    using parts(3,4) nn by (auto simp: files_inv_def file_ok_def refs_inv_def)
  moreover have "quota_inv ?m"
    using parts(5) nn by (simp add: quota_inv_def)
  ultimately show ?thesis using names by (simp add: mem_inv_def)
qed

lemma mem_inv_add_file:
  assumes inv: "mem_inv m" and p: "p < length (m_heap m)"
    and f: "f_node f = p" "\<not> f_closed f" "file_ok m f"
  shows "mem_inv ((upd_node p (\<lambda>n. n\<lparr>n_refs := n_refs n + 1\<rparr>) m)
           \<lparr>m_files := m_files m @ [f]\<rparr>)" (is "mem_inv ?m")
proof -
  let ?u = "upd_node p (\<lambda>n. n\<lparr>n_refs := n_refs n + 1\<rparr>) m"
  note parts = mem_inv_parts [OF inv]
  have "names_inv ?u" by (rule names_inv_upd_node [OF parts(1) p]) simp
  then have "names_inv ?m" by (simp add: names_inv_def)
  moreover have "tree_inv ?u" by (rule tree_inv_upd_node [OF parts(2) p]) simp
  then have "tree_inv ?m" by (simp add: tree_inv_def is_dir_at_def node_at_def)
  moreover have "open_refs ?m c = (if c = p then Suc (open_refs m c) else open_refs m c)" for c
    using f by (simp add: open_refs_def)
  then have "refs_inv ?m"
    using parts(3) p f by (auto simp: refs_inv_def the_node_upd_node)
  moreover have "files_inv ?u" by (rule files_inv_upd_node [OF parts(4) p]) simp
  moreover have "file_ok ?u f" by (rule file_ok_upd_node [OF f(3) p]) simp
  moreover have "file_ok ?m g = file_ok ?u g" for g
    by (simp add: file_ok_def)
  ultimately show ?thesis
    using parts(5) quota_upd_node [OF p, of "\<lambda>n. n\<lparr>n_refs := n_refs n + 1\<rparr>"]
    by (simp add: mem_inv_def files_inv_def quota_inv_def node_len_def)
qed

lemma open_node_inv:
  assumes inv: "mem_inv m" and op: "open_node now name flag perm m = Inr (p, m1)"
  shows "mem_inv m1 \<and> p < length (m_heap m1) \<and> map_of (m_nodes m1) name = Some p"
proof (cases "mem_lookup m name")
  case (Inl e)
  with op have new: "errors_is e ErrNotExist" "mem_parent m name = None"
      "length (m_nodes m) < max_nodes"
      "newNode now (mode_perm perm) m = (p, fst (m1, m1)\<lparr>m_nodes := m_nodes m\<rparr>)"
      "m1 = (snd (newNode now (mode_perm perm) m))\<lparr>m_nodes := AList.update name p (m_nodes m)\<rparr>"
    by (auto simp: open_node_def newNode_def Let_def split: if_splits option.splits)
  have fresh: "valid name" "map_of (m_nodes m) name = None"
    using Inl new(1) by (auto simp: mem_lookup_def split: if_splits option.splits)
  have m1: "m1 = (m1\<lparr>m_nodes := m_nodes m\<rparr>)\<lparr>m_nodes := AList.update name p (m_nodes m)\<rparr>"
    using new(5) by simp
  have "mem_inv ((m1\<lparr>m_nodes := m_nodes m\<rparr>)\<lparr>m_nodes := AList.update name p (m_nodes m)\<rparr>)"
    using mem_inv_link_new [OF inv _ fresh _ new(3), of now "mode_perm perm" p
        "m1\<lparr>m_nodes := m_nodes m\<rparr>"] new(2,4)
    by (simp add: mem_parent_None)
  with m1 have "mem_inv m1" by simp
  moreover have "map_of (m_nodes m1) name = Some p"
    using new(5) by (simp add: update_conv')
  ultimately show ?thesis
    using named_ptr(1) mem_inv_parts(1) by blast
next
  case (Inr q)
  with op have "m1 = m" "q = p" by (auto simp: open_node_def split: if_splits)
  with Inr inv show ?thesis
    using named_ptr(1) mem_inv_parts(1) by (auto simp: lookup_map_of)
qed

section \<open>Dropping names and closing files\<close>

lemma unlink_simps [simp]:
  "m_nodes (unlink d m) = m_nodes m"
  "m_limit (unlink d m) = m_limit m"
  "m_files (unlink d m) = m_files m"
  "m_nextInode (unlink d m) = m_nextInode m"
  "length (m_heap (unlink d m)) = length (m_heap m)"
  by (simp_all add: unlink_def Let_def upd_node_def)

lemma the_node_unlink:
  assumes "d < length (m_heap m)"
  shows "the_node (unlink d m) c =
    (if c = d then (the_node m d)\<lparr>n_linked := False,
                      n_data := if n_refs (the_node m d) = 0 then [] else n_data (the_node m d)\<rparr>
     else the_node m c)"
  using assms by (auto simp: unlink_def Let_def the_node_upd_node)

lemma unlink_nodes_commute: "unlink d (m\<lparr>m_nodes := ns\<rparr>) = (unlink d m)\<lparr>m_nodes := ns\<rparr>"
  by (simp add: unlink_def Let_def upd_node_def the_node_def)

lemma quota_inv_unlink:
  assumes "quota_inv m" "d < length (m_heap m)"
  shows "quota_inv (unlink d m)"
proof -
  let ?n = "the_node m d"
  have le: "node_len ?n \<le> m_used m" by (rule node_len_le_used [OF assms])
  have lim: "m_used m \<le> max_int64" "m_used m \<le> m_limit m" using assms(1) by (auto simp: quota_inv_def)
  have wrap: "i64 (m_used m - node_len ?n) = m_used m - node_len ?n"
    using le lim node_len_nonneg [of ?n] by (intro i64_bounded; linarith)
  show ?thesis
    using assms wrap le lim node_len_nonneg [of ?n]
    by (auto simp: quota_inv_def unlink_def Let_def quota_upd_node the_node_upd_node node_len_def)
qed

lemma refs_inv_unlink:
  assumes "refs_inv m" "d < length (m_heap m)"
  shows "refs_inv (unlink d m)"
  using assms by (auto simp: refs_inv_def the_node_unlink open_refs_def)

lemma files_inv_unlink:
  assumes "files_inv m" "d < length (m_heap m)"
  shows "files_inv (unlink d m)"
  using assms by (auto simp: files_inv_def file_ok_def the_node_unlink)

lemma nodes_irrelevant [simp]:
  "refs_inv (m\<lparr>m_nodes := ns\<rparr>) = refs_inv m"
  "files_inv (m\<lparr>m_nodes := ns\<rparr>) = files_inv m"
  "quota_inv (m\<lparr>m_nodes := ns\<rparr>) = quota_inv m"
  by (simp_all add: refs_inv_def open_refs_def files_inv_def file_ok_def quota_inv_def)

lemma mem_inv_rename_nodes:
  assumes inv: "mem_inv m"
    and ns: "distinct (map fst ns)" "distinct (map snd ns)" "length ns \<le> max_nodes"
      "\<forall>p \<in> set (map fst ns). valid p" "set (map snd ns) = set (map snd (m_nodes m))"
    and tree: "tree_inv (m\<lparr>m_nodes := ns\<rparr>)"
  shows "mem_inv (m\<lparr>m_nodes := ns\<rparr>)"
proof -
  note parts = mem_inv_parts [OF inv]
  have "names_inv (m\<lparr>m_nodes := ns\<rparr>)"
    using parts(1) ns by (simp add: names_inv_def)
  with parts tree show ?thesis by (simp add: mem_inv_def)
qed

lemma mem_inv_drop_node:
  assumes inv: "mem_inv m" and d: "d \<in> set (map snd (m_nodes m))"
    and ns: "distinct (map fst ns)" "distinct (map snd ns)" "length ns \<le> max_nodes"
      "\<forall>p \<in> set (map fst ns). valid p" "set (map snd ns) = set (map snd (m_nodes m)) - {d}"
    and tree: "tree_inv (m\<lparr>m_nodes := ns\<rparr>)"
  shows "mem_inv ((unlink d m)\<lparr>m_nodes := ns\<rparr>)" (is "mem_inv ?m")
proof -
  note parts = mem_inv_parts [OF inv]
  have dl: "d < length (m_heap m)" using parts(1) d by (auto simp: names_inv_def)
  have "names_inv ?m"
    unfolding names_inv_def
  proof (intro conjI)
    show "\<forall>c<length (m_heap ?m). n_linked (the_node ?m c) = (c \<in> set (map snd (m_nodes ?m)))"
      using parts(1) ns(5) dl by (auto simp: names_inv_def the_node_unlink)
    show "\<forall>c\<in>set (map snd (m_nodes ?m)). c < length (m_heap ?m)"
      using parts(1) ns(5) by (auto simp: names_inv_def)
  qed (use ns in auto)
  moreover have "node_at ?m q = node_at (m\<lparr>m_nodes := ns\<rparr>) q" for q
  proof (cases "map_of ns q")
    case (Some c)
    then have "c \<in> set (map snd ns)" by (force dest: map_of_SomeD)
    then have "c \<noteq> d" using ns(5) by blast
    with Some dl show ?thesis by (simp add: node_at_def the_node_unlink)
  qed (simp add: node_at_def)
  then have "tree_inv ?m"
    using tree by (simp add: tree_inv_def is_dir_at_def)
  ultimately show ?thesis
    using parts dl by (simp add: mem_inv_def quota_inv_unlink refs_inv_unlink files_inv_unlink)
qed

lemma open_refs_close:
  assumes "h < length (m_files m)" "\<not> f_closed (the_file m h)"
  shows "open_refs m c =
    (if c = f_node (the_file m h) then Suc (open_refs (upd_file h (\<lambda>f. f\<lparr>f_closed := True\<rparr>) m) c)
     else open_refs (upd_file h (\<lambda>f. f\<lparr>f_closed := True\<rparr>) m) c)"
proof (cases "c = f_node (the_file m h)")
  case True
  then show ?thesis
    using assms filter_length_flip [OF assms(1),
        of "\<lambda>f. f_node f = c \<and> \<not> f_closed f" "(the_file m h)\<lparr>f_closed := True\<rparr>"]
    by (simp add: open_refs_def upd_file_def the_file_def)
next
  case False
  then show ?thesis
    using assms filter_length_update [OF assms(1),
        of "\<lambda>f. f_node f = c \<and> \<not> f_closed f" "(the_file m h)\<lparr>f_closed := True\<rparr>"]
    by (simp add: open_refs_def upd_file_def the_file_def)
qed

text \<open>
  Closing one file takes one reference away; \<open>release\<close> names the state after the counter has
  been decremented and before an unreachable node's bytes are dropped.
\<close>

lemma close_release:
  assumes inv: "mem_inv m" and h: "h < length (m_files m)" "\<not> f_closed (the_file m h)"
  defines "p \<equiv> f_node (the_file m h)"
  defines "m2 \<equiv> upd_node p (\<lambda>n. n\<lparr>n_refs := n_refs n - 1\<rparr>)
                  (upd_file h (\<lambda>f. f\<lparr>f_closed := True\<rparr>) m)"
  shows "p < length (m_heap m)" "names_inv m2" "tree_inv m2" "files_inv m2" "quota_inv m2"
    "\<forall>f \<in> set (m_files m2). f_node f < length (m_heap m2)"
    "\<forall>c < length (m_heap m2). n_refs (the_node m2 c) = int (open_refs m2 c)"
    "\<forall>c < length (m_heap m2). c \<noteq> p \<longrightarrow> the_node m2 c = the_node m c"
    "the_node m2 p = (the_node m p)\<lparr>n_refs := n_refs (the_node m p) - 1\<rparr>"
proof -
  note parts = mem_inv_parts [OF inv]
  let ?u = "upd_file h (\<lambda>f. f\<lparr>f_closed := True\<rparr>) m"
  show p: "p < length (m_heap m)" unfolding p_def by (rule file_in_heap [OF parts(3) h(1)])
  then have pu: "p < length (m_heap ?u)" by simp
  have u: "names_inv ?u" "tree_inv ?u" "quota_inv ?u"
    using parts by (simp_all add: names_inv_def tree_inv_def is_dir_at_def node_at_def quota_inv_def)
  have hf: "the_file m h \<in> set (m_files m)" using h(1) by (simp add: the_file_def)
  have "file_ok m ((the_file m h)\<lparr>f_closed := True\<rparr>)"
    using parts(4) hf by (auto simp: files_inv_def file_ok_def split: option.splits)
  then have fu: "files_inv ?u"
    unfolding files_inv_def using parts(4) set_upd_file [OF _ h(1)]
    by (fastforce simp: files_inv_def)
  show "names_inv m2" "tree_inv m2" "files_inv m2"
    unfolding m2_def
    using names_inv_upd_node [OF u(1) pu] tree_inv_upd_node [OF u(2) pu]
      files_inv_upd_node [OF fu pu] by simp_all
  show "quota_inv m2"
    using u(3) quota_upd_node [OF pu, of "\<lambda>n. n\<lparr>n_refs := n_refs n - 1\<rparr>"]
    by (simp add: m2_def quota_inv_def node_len_def)
  show "\<forall>f \<in> set (m_files m2). f_node f < length (m_heap m2)"
  proof
    fix f assume "f \<in> set (m_files m2)"
    then have "f = (the_file m h)\<lparr>f_closed := True\<rparr> \<or> f \<in> set (m_files m)"
      unfolding m2_def using set_upd_file [OF _ h(1)] by simp
    then show "f_node f < length (m_heap m2)"
      using parts(3) p by (auto simp: refs_inv_def m2_def p_def)
  qed
  show "\<forall>c < length (m_heap m2). c \<noteq> p \<longrightarrow> the_node m2 c = the_node m c"
    and node: "the_node m2 p = (the_node m p)\<lparr>n_refs := n_refs (the_node m p) - 1\<rparr>"
    by (simp_all add: m2_def the_node_upd_node [OF pu])
  show "\<forall>c < length (m_heap m2). n_refs (the_node m2 c) = int (open_refs m2 c)"
  proof (intro allI impI)
    fix c assume "c < length (m_heap m2)"
    then have "n_refs (the_node m c) = int (open_refs m c)"
      using parts(3) by (simp add: m2_def refs_inv_def)
    moreover have "open_refs m2 c = open_refs ?u c" by (simp add: m2_def)
    ultimately show "n_refs (the_node m2 c) = int (open_refs m2 c)"
      using open_refs_close [OF h, of c] node
      by (cases "c = p") (simp_all add: m2_def p_def the_node_upd_node [OF pu [unfolded p_def]])
  qed
qed

end
