(* ===== verification/MemoryRename.thy ===== *)
theory MemoryRename
  imports MemoryInv
begin

text \<open>
  Removing and renaming.  \<open>move_nodes\<close>, the two loops of \<open>Rename\<close> over the name map, is
  shown to compute the abstract renaming \<open>rename_map\<close> of a name space: what was at or below
  the old name is at the same place below the new one, and nothing else changes.  With it,
  \<open>Remove\<close> and \<open>Rename\<close> keep the invariant.
\<close>

section \<open>Names below a name\<close>

definition path_tail :: "string \<Rightarrow> bool" where
  "path_tail t = (t = [] \<or> (\<exists>r. t = slash # r))"

lemma moves_iff: "moves old p \<longleftrightarrow> (\<exists>t. p = old @ t \<and> path_tail t)"
  by (auto simp: moves_def path_tail_def has_prefix_iff)

lemma moves_self [simp]: "moves p p"
  by (simp add: moves_def)

lemma moves_append [simp]: "moves old (old @ t) = path_tail t"
  by (auto simp: moves_iff)

lemma moves_name_of:
  assumes "good_elems cs" "good_elems ds" "cs \<noteq> []"
  shows "moves (name_of cs) (name_of ds) \<longleftrightarrow> (\<exists>es. ds = cs @ es)"
proof
  assume "moves (name_of cs) (name_of ds)"
  then consider "name_of ds = name_of cs" | "has_prefix (name_of ds) (name_of cs @ ''/'')"
    by (auto simp: moves_def)
  then show "\<exists>es. ds = cs @ es"
    by cases (use assms name_of_inj go_join_under [OF assms] in blast)+
next
  assume "\<exists>es. ds = cs @ es"
  then obtain es where es: "ds = cs @ es" by blast
  then have "es = [] \<or> has_prefix (name_of ds) (name_of cs @ ''/'')"
    using go_join_under [OF assms] by blast
  then show "moves (name_of cs) (name_of ds)"
    using es by (auto simp: moves_def)
qed

text \<open>The tail of a name below \<open>cs\<close>, and the name it becomes below another directory.\<close>

lemma name_of_tail:
  assumes "cs \<noteq> []"
  obtains t where "path_tail t" "\<And>ds. ds \<noteq> [] \<Longrightarrow> name_of (ds @ es) = name_of ds @ t"
proof (cases "es = []")
  case True
  show thesis by (rule that [of "[]"]) (simp_all add: True path_tail_def)
next
  case False
  show thesis by (rule that [of "slash # name_of es"]) (simp_all add: False path_tail_def name_of_append)
qed

lemma valid_elems:
  assumes "valid p"
  obtains cs where "good_elems cs" "p = name_of cs"
  using assms by (auto simp: valid_def valid_path_elems)

lemma valid_name_of:
  "good_elems cs \<Longrightarrow> valid (name_of cs) = (\<forall>c \<in> set cs. valid_utf8 c \<and> \<not> contains_nul c)"
  by (auto simp: valid_def valid_path_name_of contains_nul_name_of)

lemma valid_path_dir:
  assumes "valid p"
  shows "valid (path_dir p)"
proof -
  from assms obtain cs where cs: "good_elems cs" "p = name_of cs" by (rule valid_elems)
  show ?thesis
  proof (cases cs rule: rev_cases)
    case Nil
    with cs assms show ?thesis by simp
  next
    case (snoc ds c)
    with cs assms show ?thesis by (simp add: valid_name_of)
  qed
qed

section \<open>The renamed name space\<close>

definition rename_map :: "string \<Rightarrow> string \<Rightarrow> (string \<Rightarrow> 'a option) \<Rightarrow> string \<Rightarrow> 'a option" where
  "rename_map old new f q =
     (if moves new q then f (old @ trim_prefix q new)
      else if moves old q then None else f q)"

lemma map_of_moved_in:
  "path_tail t \<Longrightarrow>
   map_of (map (\<lambda>(p, c). (new @ trim_prefix p old, c)) (filter (\<lambda>(p, c). moves old p) ns)) (new @ t)
     = map_of ns (old @ t)"
  by (induction ns) (auto simp: moves_iff)

lemma map_of_moved_out:
  "\<not> moves new q \<Longrightarrow>
   map_of (map (\<lambda>(p, c). (new @ trim_prefix p old, c)) (filter (\<lambda>(p, c). moves old p) ns)) q = None"
  by (induction ns) (auto simp: moves_iff)

lemma map_of_stay:
  "map_of (filter (\<lambda>(p, c). \<not> moves old p) ns) q = (if moves old q then None else map_of ns q)"
  by (induction ns) auto

lemma map_of_foldl_update:
  "distinct (map fst xs) \<Longrightarrow>
   map_of (foldl (\<lambda>acc (p, c). AList.update p c acc) acc xs) = map_of acc ++ map_of xs"
proof (induction xs arbitrary: acc)
  case (Cons x xs)
  obtain p c where x: "x = (p, c)" by (cases x)
  with Cons.prems have "p \<notin> dom (map_of xs)" by (simp add: dom_map_of_conv_image_fst)
  with Cons x show ?case by (auto simp: update_conv' map_add_def fun_eq_iff split: option.splits)
qed simp

lemma distinct_foldl_update:
  "distinct (map fst acc) \<Longrightarrow>
   distinct (map fst (foldl (\<lambda>acc (p, c). AList.update p c acc) acc xs))"
  by (induction xs arbitrary: acc) (auto simp: distinct_update)

lemma distinct_moved:
  "distinct (map fst ns) \<Longrightarrow>
   distinct (map fst (map (\<lambda>(p, c). (new @ trim_prefix p old, c)) (filter (\<lambda>(p, c). moves old p) ns)))"
proof (induction ns)
  case (Cons x ns)
  obtain p c where x: "x = (p, c)" by (cases x)
  show ?case
  proof (cases "moves old p")
    case True
    then obtain t where t: "p = old @ t" "path_tail t" by (auto simp: moves_iff)
    have "map_of ns (old @ t) = None"
      using Cons.prems x t by (simp add: map_of_eq_None_iff)
    then have "map_of (map (\<lambda>(p, c). (new @ trim_prefix p old, c)) (filter (\<lambda>(p, c). moves old p) ns))
        (new @ t) = None"
      by (simp only: map_of_moved_in [OF t(2)])
    with Cons x t show ?thesis by (simp add: map_of_eq_None_iff image_image)
  next
    case False
    with Cons x show ?thesis by simp
  qed
qed simp

lemma distinct_move_nodes:
  assumes "distinct (map fst ns)"
  shows "distinct (map fst (move_nodes old new ns))"
  unfolding move_nodes_def
  by (rule distinct_foldl_update) (use assms in \<open>simp add: distinct_map_filter\<close>)

theorem map_of_move_nodes:
  assumes dist: "distinct (map fst ns)" and old: "map_of ns old \<noteq> None"
    and free: "\<And>q. has_prefix q (new @ ''/'') \<Longrightarrow> map_of ns q = None"
  shows "map_of (move_nodes old new ns) = rename_map old new (map_of ns)"
proof
  fix q
  let ?moved = "map (\<lambda>(p, c). (new @ trim_prefix p old, c)) (filter (\<lambda>(p, c). moves old p) ns)"
  have res: "map_of (move_nodes old new ns) q
      = (case map_of ?moved q of None \<Rightarrow> (if moves old q then None else map_of ns q) | Some c \<Rightarrow> Some c)"
    unfolding move_nodes_def map_of_foldl_update [OF distinct_moved [OF dist]]
    by (auto simp: map_add_def map_of_stay split: option.split)
  show "map_of (move_nodes old new ns) q = rename_map old new (map_of ns) q"
  proof (cases "moves new q")
    case True
    then obtain t where t: "q = new @ t" "path_tail t" by (auto simp: moves_iff)
    have "map_of ?moved q = map_of ns (old @ t)"
      unfolding t(1) by (rule map_of_moved_in [OF t(2)])
    moreover have "map_of ns (old @ t) = None \<Longrightarrow> map_of ns q = None"
      using t old free by (auto simp: path_tail_def has_prefix_iff)
    ultimately show ?thesis
      using True t res by (auto simp: rename_map_def split: option.splits)
  next
    case False
    with map_of_moved_out [OF False, of old ns] show ?thesis by (simp add: res rename_map_def)
  qed
qed

section \<open>Ancestors\<close>

lemma ancestors_are_dirs:
  assumes tree: "tree_inv m" and good: "good_elems (cs @ es)" and ne: "es \<noteq> []"
    and ex: "node_at m (name_of (cs @ es)) \<noteq> None"
  shows "is_dir_at m (name_of cs) \<and> node_at m (name_of (cs @ [hd es])) \<noteq> None"
  using ne good ex
proof (induction es rule: rev_induct)
  case (snoc x xs)
  have "is_dir_at m (path_dir (name_of ((cs @ xs) @ [x])))"
    using tree snoc.prems by (simp add: tree_inv_def)
  then have dir: "is_dir_at m (name_of (cs @ xs))"
    using snoc.prems by (subst (asm) path_dir_name) simp_all
  show ?case
  proof (cases "xs = []")
    case True
    with dir snoc.prems show ?thesis by simp
  next
    case False
    moreover have "node_at m (name_of (cs @ xs)) \<noteq> None"
      using dir by (auto simp: is_dir_at_def split: option.splits)
    ultimately show ?thesis using snoc by simp
  qed
qed simp

lemma has_child_iff:
  assumes "names_inv m"
  shows "has_child m name \<longleftrightarrow> (\<exists>q. node_at m q \<noteq> None \<and> path_dir q = name)"
proof
  assume "has_child m name"
  then obtain q c where "(q, c) \<in> set (m_nodes m)" "path_dir q = name"
    by (auto simp: has_child_def list_ex_iff)
  then show "\<exists>q. node_at m q \<noteq> None \<and> path_dir q = name"
    by (force simp: node_at_def dest: weak_map_of_SomeI)
next
  assume "\<exists>q. node_at m q \<noteq> None \<and> path_dir q = name"
  then show "has_child m name"
    by (force simp: node_at_def has_child_def list_ex_iff dest: map_of_SomeD)
qed

text \<open>A name with nothing directly below it, or that is no directory, has nothing below it.\<close>

lemma nothing_below:
  assumes inv: "names_inv m" "tree_inv m" and new: "valid new" "new \<noteq> ''.''"
    and leaf: "\<not> is_dir_at m new \<or> \<not> has_child m new"
    and q: "has_prefix q (new @ ''/'')"
  shows "map_of (m_nodes m) q = None"
proof (rule ccontr)
  assume "map_of (m_nodes m) q \<noteq> None"
  then obtain c where c: "map_of (m_nodes m) q = Some c" by auto
  then have "valid q" by (rule named_ptr(3) [OF inv(1)])
  then obtain ds where ds: "good_elems ds" "q = name_of ds" by (rule valid_elems)
  from new(1) obtain cs where cs: "good_elems cs" "new = name_of cs" by (rule valid_elems)
  with new(2) have ne: "cs \<noteq> []" by auto
  with q cs ds obtain es where es: "es \<noteq> []" "ds = cs @ es"
    using go_join_under [OF cs(1) ds(1) ne] by auto
  have "node_at m (name_of (cs @ es)) \<noteq> None"
    using c ds es by (simp add: node_at_def)
  with es ds have "is_dir_at m new" "node_at m (name_of (cs @ [hd es])) \<noteq> None"
    using ancestors_are_dirs [OF inv(2)] cs(2) by auto
  moreover have "path_dir (name_of (cs @ [hd es])) = new"
    using ds(1) es cs by (cases es) auto
  ultimately show False using leaf has_child_iff [OF inv(1)] by blast
qed

section \<open>Replacing the name map\<close>

text \<open>The list facts of \<open>names_inv\<close>, from the map the association list stands for.\<close>

lemma ptrs_ran: "distinct (map fst al) \<Longrightarrow> set (map snd al) = ran (map_of al)"
  by (simp add: ran_distinct)

lemma distinct_ptrs:
  assumes "distinct (map fst al)"
    and "\<And>a b c. map_of al a = Some c \<Longrightarrow> map_of al b = Some c \<Longrightarrow> a = b"
  shows "distinct (map snd al)"
proof -
  have "inj_on snd (set al)"
  proof (rule inj_onI)
    fix x y assume "x \<in> set al" "y \<in> set al" "snd x = snd y"
    then obtain a b c where xy: "x = (a, c)" "y = (b, c)" "(a, c) \<in> set al" "(b, c) \<in> set al"
      by (metis prod.collapse)
    then have "map_of al a = Some c" "map_of al b = Some c"
      using assms(1) by simp_all
    with xy show "x = y" using assms(2) by blast
  qed
  with assms(1) show ?thesis by (simp add: distinct_map)
qed

lemma length_by_ptrs:
  assumes "distinct (map snd al)" "distinct (map snd bl)" "set (map snd al) \<subseteq> set (map snd bl)"
  shows "length al \<le> length bl"
proof -
  have "length al = card (set (map snd al))" "length bl = card (set (map snd bl))"
    using assms(1,2) distinct_card by fastforce+
  with assms(3) show ?thesis by (metis List.finite_set card_mono)
qed

lemma names_dist: "names_inv m \<Longrightarrow> distinct (map fst (m_nodes m))"
  by (simp add: names_inv_def)

lemma node_at_nodes: "node_at (m\<lparr>m_nodes := ns\<rparr>) q = map_option (the_node m) (map_of ns q)"
  by (simp add: node_at_def)

text \<open>A name map that loses one node \<open>d\<close> and keeps every other one.\<close>

lemma mem_inv_drop_map:
  assumes inv: "mem_inv m" and d: "map_of (m_nodes m) name = Some d"
    and dist: "distinct (map fst ns)"
    and inj: "\<And>a b c. map_of ns a = Some c \<Longrightarrow> map_of ns b = Some c \<Longrightarrow> a = b"
    and ran: "ran (map_of ns) = ran (map_of (m_nodes m)) - {d}"
    and val: "\<And>p. map_of ns p \<noteq> None \<Longrightarrow> valid p"
    and tree: "tree_inv (m\<lparr>m_nodes := ns\<rparr>)"
  shows "mem_inv ((unlink d m)\<lparr>m_nodes := ns\<rparr>)"
proof (rule mem_inv_drop_node [OF inv _ dist])
  note names = mem_inv_parts(1) [OF inv]
  have "d \<in> ran (map_of (m_nodes m))" using d by (auto intro: ranI)
  then show "d \<in> set (map snd (m_nodes m))" using ptrs_ran [OF names_dist [OF names]] by simp
  show snd: "distinct (map snd ns)" by (rule distinct_ptrs [OF dist inj])
  show ptrs: "set (map snd ns) = set (map snd (m_nodes m)) - {d}"
    unfolding ptrs_ran [OF dist] ptrs_ran [OF names_dist [OF names]] by (rule ran)
  show "length ns \<le> max_nodes"
    using length_by_ptrs [OF snd, of "m_nodes m"] ptrs names by (auto simp: names_inv_def)
  show "\<forall>p \<in> set (map fst ns). valid p"
    using val by (metis map_of_eq_None_iff set_map)
qed (rule tree)

lemma mem_inv_same_map:
  assumes inv: "mem_inv m" and dist: "distinct (map fst ns)"
    and inj: "\<And>a b c. map_of ns a = Some c \<Longrightarrow> map_of ns b = Some c \<Longrightarrow> a = b"
    and ran: "ran (map_of ns) = ran (map_of (m_nodes m))"
    and val: "\<And>p. map_of ns p \<noteq> None \<Longrightarrow> valid p"
    and tree: "tree_inv (m\<lparr>m_nodes := ns\<rparr>)"
  shows "mem_inv (m\<lparr>m_nodes := ns\<rparr>)"
proof (rule mem_inv_rename_nodes [OF inv dist])
  note names = mem_inv_parts(1) [OF inv]
  show snd: "distinct (map snd ns)" by (rule distinct_ptrs [OF dist inj])
  show ptrs: "set (map snd ns) = set (map snd (m_nodes m))"
    unfolding ptrs_ran [OF dist] ptrs_ran [OF names_dist [OF names]] by (rule ran)
  show "length ns \<le> max_nodes"
    using length_by_ptrs [OF snd, of "m_nodes m"] ptrs names by (auto simp: names_inv_def)
  show "\<forall>p \<in> set (map fst ns). valid p"
    using val by (metis map_of_eq_None_iff set_map)
qed (rule tree)

section \<open>Remove\<close>

lemma map_of_delete: "map_of (AList.delete k al) = (map_of al)(k := None)"
  by (rule delete_conv')

lemma ran_forget:
  assumes "f k = Some c" "\<And>b. f b = Some c \<Longrightarrow> b = k"
  shows "ran (f(k := None)) = ran f - {c}"
proof (intro equalityI subsetI)
  fix x assume "x \<in> ran (f(k := None))"
  then obtain b where "b \<noteq> k" "f b = Some x" by (auto simp: ran_def split: if_splits)
  with assms(2) show "x \<in> ran f - {c}" by (auto simp: ran_def)
next
  fix x assume "x \<in> ran f - {c}"
  then obtain b where "f b = Some x" "x \<noteq> c" by (auto simp: ran_def)
  with assms(1) have "(f(k := None)) b = Some x" by auto
  then show "x \<in> ran (f(k := None))" by (rule ranI)
qed

lemma Remove_inv:
  assumes inv: "mem_inv m"
  shows "mem_inv (snd (mem_Remove name m))"
proof (cases "fst (mem_Remove name m)")
  case (Some e)
  then have "snd (mem_Remove name m) = m"
    by (auto simp: mem_Remove_def split: sum.splits if_splits)
  with inv show ?thesis by simp
next
  case None
  then obtain p where p: "valid name" "map_of (m_nodes m) name = Some p" "name \<noteq> ''.''"
      "\<not> (mode_is_dir (n_mode (the_node m p)) \<and> has_child m name)"
    and res: "snd (mem_Remove name m) = (unlink p m)\<lparr>m_nodes := AList.delete name (m_nodes m)\<rparr>"
    by (auto simp: mem_Remove_def lookup_map_of unlink_nodes_commute split: sum.splits if_splits)
  note names = mem_inv_parts(1) [OF inv] and tree = mem_inv_parts(2) [OF inv]
  let ?ns = "AList.delete name (m_nodes m)"
  have leaf: "node_at m q = None" if "path_dir q = name" for q
  proof (rule ccontr)
    assume "node_at m q \<noteq> None"
    with that tree have "is_dir_at m name" "has_child m name"
      using has_child_iff [OF names] by (auto simp: tree_inv_def)
    with p show False by (auto simp: is_dir_at_iff)
  qed
  have at: "node_at (m\<lparr>m_nodes := ?ns\<rparr>) q = (if q = name then None else node_at m q)" for q
    by (simp add: node_at_def map_of_delete)
  have "tree_inv (m\<lparr>m_nodes := ?ns\<rparr>)"
    using tree leaf p(3) unfolding tree_inv_def is_dir_at_def at by auto
  then have "mem_inv ((unlink p m)\<lparr>m_nodes := ?ns\<rparr>)"
  proof (rule mem_inv_drop_map [OF inv p(2), rotated 4])
    show "distinct (map fst ?ns)" by (rule distinct_delete [OF names_dist [OF names]])
    show "ran (map_of ?ns) = ran (map_of (m_nodes m)) - {p}"
      unfolding map_of_delete by (rule ran_forget [where f = "map_of (m_nodes m)", OF p(2)]) (rule named_inj [OF names _ p(2)])
    show "a = b" if "map_of ?ns a = Some c" "map_of ?ns b = Some c" for a b c
      using that named_inj [OF names, of a c b] by (simp add: map_of_delete split: if_splits)
    show "valid q" if "map_of ?ns q \<noteq> None" for q
      using that named_ptr(3) [OF names, of q] by (auto simp: map_of_delete split: if_splits)
  qed
  with res show ?thesis by simp
qed

section \<open>Rename\<close>

lemma rename_map_inj:
  assumes inj: "\<And>a b c. f a = Some c \<Longrightarrow> f b = Some c \<Longrightarrow> a = b"
    and a: "rename_map old new f a = Some c" and b: "rename_map old new f b = Some c"
  shows "a = b"
proof -
  have *: "\<exists>a'. f a' = Some c \<and> (if moves old a' then a = new @ trim_prefix a' old else a' = a)"
    if "rename_map old new f a = Some c" for a
    using that by (auto simp: rename_map_def moves_iff split: if_splits)
  from * [OF a] * [OF b] show ?thesis using inj by (metis (full_types))
qed

lemma rename_map_ran:
  assumes inj: "\<And>a b c. f a = Some c \<Longrightarrow> f b = Some c \<Longrightarrow> a = b"
    and free: "\<And>q. has_prefix q (new @ ''/'') \<Longrightarrow> f q = None" and new: "\<not> moves old new"
  shows "ran (rename_map old new f) = ran f - set_option (f new)"
proof (intro equalityI subsetI)
  fix x assume "x \<in> ran (rename_map old new f)"
  then obtain q where q: "rename_map old new f q = Some x" by (auto simp: ran_def)
  have "\<exists>b. f b = Some x \<and> b \<noteq> new"
  proof (cases "moves new q")
    case True
    then obtain t where t: "q = new @ t" "path_tail t" by (auto simp: moves_iff)
    with q True have "f (old @ t) = Some x" by (simp add: rename_map_def)
    moreover have "old @ t \<noteq> new" using new t(2) by (metis moves_append)
    ultimately show ?thesis by blast
  next
    case False
    with q have "f q = Some x" "q \<noteq> new" by (auto simp: rename_map_def split: if_splits)
    then show ?thesis by blast
  qed
  then obtain b where b: "f b = Some x" "b \<noteq> new" by blast
  with inj have "f new \<noteq> Some x" by blast
  with b show "x \<in> ran f - set_option (f new)" by (auto simp: ran_def)
next
  fix x assume "x \<in> ran f - set_option (f new)"
  then obtain b where b: "f b = Some x" "f new \<noteq> Some x" by (auto simp: ran_def)
  then have "\<not> moves new b" using free [of b] by (auto simp: moves_def)
  show "x \<in> ran (rename_map old new f)"
  proof (cases "moves old b")
    case True
    then obtain t where "b = old @ t" "path_tail t" by (auto simp: moves_iff)
    with b have "rename_map old new f (new @ t) = Some x" by (simp add: rename_map_def)
    then show ?thesis by (rule ranI)
  next
    case False
    with b \<open>\<not> moves new b\<close> have "rename_map old new f b = Some x" by (simp add: rename_map_def)
    then show ?thesis by (rule ranI)
  qed
qed

lemma swap_elems:
  assumes good: "good_elems cs" "good_elems ns" "cs \<noteq> []" "ns \<noteq> []"
    and t: "path_tail t" and val: "valid (name_of cs @ t)"
  obtains es where "good_elems es" "name_of cs @ t = name_of (cs @ es)"
    "name_of ns @ t = name_of (ns @ es)"
proof -
  from val obtain ds where ds: "good_elems ds" "name_of cs @ t = name_of ds" by (rule valid_elems)
  have "moves (name_of cs) (name_of ds)" using t ds(2) by (metis moves_append)
  then obtain es where es: "ds = cs @ es" using moves_name_of [OF good(1) ds(1) good(3)] by auto
  obtain u where u: "\<And>ds. ds \<noteq> [] \<Longrightarrow> name_of (ds @ es) = name_of ds @ u"
    using name_of_tail [OF good(3), of es] by metis
  then have "u = t" using ds(2) es good(3) by simp
  with u good(3,4) ds es that [of es] show thesis by simp
qed

lemma rename_map_valid:
  assumes old: "valid old" "old \<noteq> ''.''" and new: "valid new" "new \<noteq> ''.''"
    and val: "\<And>q. f q \<noteq> None \<Longrightarrow> valid q" and q: "rename_map old new f q \<noteq> None"
  shows "valid q"
proof (cases "moves new q")
  case True
  then obtain t where t: "q = new @ t" "path_tail t" by (auto simp: moves_iff)
  with q have vt: "valid (old @ t)" using val by (simp add: rename_map_def)
  from old(1) obtain cs where cs: "good_elems cs" "old = name_of cs" by (rule valid_elems)
  from new(1) obtain ns where ns: "good_elems ns" "new = name_of ns" by (rule valid_elems)
  have ne: "cs \<noteq> []" "ns \<noteq> []" using old(2) new(2) cs ns by auto
  obtain es where es: "good_elems es" "name_of cs @ t = name_of (cs @ es)"
      "name_of ns @ t = name_of (ns @ es)"
    using swap_elems [OF cs(1) ns(1) ne t(2)] vt cs(2) by metis
  have "\<forall>c \<in> set (cs @ es). valid_utf8 c \<and> \<not> contains_nul c"
    using vt es(1,2) cs valid_name_of [of "cs @ es"] by simp
  moreover have "\<forall>c \<in> set ns. valid_utf8 c \<and> \<not> contains_nul c"
    using new(1) ns valid_name_of by simp
  ultimately show ?thesis
    using t(1) es ns valid_name_of [of "ns @ es"] by auto
next
  case False
  with q val show ?thesis by (simp add: rename_map_def split: if_splits)
qed

text \<open>The tree condition after the name map has been renamed.\<close>

lemma rename_tree:
  assumes names: "names_inv m" and tree: "tree_inv m"
    and old: "valid old" "old \<noteq> ''.''" and new: "valid new" "new \<noteq> ''.''"
    and out: "\<not> moves old new" and parent: "is_dir_at m (path_dir new)"
    and at: "\<And>q. node_at m' q = rename_map old new (node_at m) q"
  shows "tree_inv m'"
proof -
  from old(1) obtain cs where cs: "good_elems cs" "old = name_of cs" by (rule valid_elems)
  from new(1) obtain ns where ns: "good_elems ns" "new = name_of ns" by (rule valid_elems)
  have ne: "cs \<noteq> []" "ns \<noteq> []" using old(2) new(2) cs ns by auto
  then obtain ns' x where ns': "ns = ns' @ [x]" by (metis rev_exhaust)
  have no: "\<not> (\<exists>es. ns = cs @ es)"
    using out moves_name_of [OF cs(1) ns(1) ne(1)] cs(2) ns(2) by simp
  have val: "valid q" if "node_at m q \<noteq> None" for q
    using that named_ptr(3) [OF names] by (auto simp: node_at_def)
  have keep: "is_dir_at m' (name_of ds) = is_dir_at m (name_of ds)"
    if "good_elems ds" "\<not> (\<exists>es. ds = ns @ es)" "\<not> (\<exists>es. ds = cs @ es)" for ds
    using that moves_name_of [OF cs(1) that(1) ne(1)] moves_name_of [OF ns(1) that(1) ne(2)]
      cs(2) ns(2) by (simp add: is_dir_at_def at rename_map_def)
  have moved: "node_at m' (name_of (ns @ es)) = node_at m (name_of (cs @ es))" for es
  proof -
    obtain t where t: "path_tail t" "\<And>ds. ds \<noteq> [] \<Longrightarrow> name_of (ds @ es) = name_of ds @ t"
      using name_of_tail [OF ne(1), of es] by metis
    then show ?thesis using ne cs(2) ns(2) by (simp add: at rename_map_def)
  qed
  have root: "is_dir_at m' ''.''"
    using keep [of "[]"] ne tree by (simp add: tree_inv_def)
  moreover have "is_dir_at m' (path_dir p)" if p: "node_at m' p \<noteq> None" for p
  proof -
    have "valid p"
      using rename_map_valid [OF old new val] p at by simp
    then obtain ds where ds: "good_elems ds" "p = name_of ds" by (rule valid_elems)
    show ?thesis
    proof (cases "\<exists>es. ds = ns @ es")
      case True
      then obtain es where es: "ds = ns @ es" by blast
      show ?thesis
      proof (cases es rule: rev_cases)
        case Nil
        then have "path_dir p = name_of ns'" using es ds ns' by simp
        moreover have "is_dir_at m (name_of ns')" using parent ns ns' by simp
        moreover have "\<not> (\<exists>es. ns' = cs @ es)" using no ns' by auto
        ultimately show ?thesis using keep [of ns'] ns(1) ns' by simp
      next
        case (snoc fs y)
        then have dir: "path_dir p = name_of (ns @ fs)"
          using es ds path_dir_name [of "ns @ fs" y] by simp
        have "node_at m (name_of ((cs @ fs) @ [y])) \<noteq> None"
          using p moved [of es] ds es snoc by simp
        then have "is_dir_at m (path_dir (name_of ((cs @ fs) @ [y])))"
          using tree by (simp add: tree_inv_def)
        then have "is_dir_at m (name_of (cs @ fs))"
          using cs(1) ds(1) es snoc by (subst (asm) path_dir_name) simp_all
        then show ?thesis using dir moved [of fs] by (simp add: is_dir_at_def)
      qed
    next
      case False
      then have "\<not> moves new p" using moves_name_of [OF ns(1) ds(1) ne(2)] ds(2) ns(2) by simp
      then have q: "node_at m p \<noteq> None" "\<not> moves old p"
        using p at by (auto simp: rename_map_def split: if_splits)
      then have nc: "\<not> (\<exists>es. ds = cs @ es)"
        using moves_name_of [OF cs(1) ds(1) ne(1)] ds(2) cs(2) by simp
      from q(1) tree have par: "is_dir_at m (path_dir p)" by (simp add: tree_inv_def)
      show ?thesis
      proof (cases ds rule: rev_cases)
        case Nil
        with ds root show ?thesis by simp
      next
        case (snoc fs y)
        then have "path_dir p = name_of fs" "good_elems fs" using ds by simp_all
        moreover have "\<not> (\<exists>es. fs = ns @ es)" "\<not> (\<exists>es. fs = cs @ es)"
          using False nc snoc by auto
        ultimately show ?thesis using keep [of fs] par by simp
      qed
    qed
  qed
  ultimately show ?thesis by (simp add: tree_inv_def)
qed

text \<open>What a successful \<open>Rename\<close> between two different names has checked, and its result.\<close>

lemma Rename_success:
  assumes "fst (mem_Rename old new m) = None" "old \<noteq> new"
  obtains p where "valid old" "valid new" "old \<noteq> ''.''" "new \<noteq> ''.''"
    "map_of (m_nodes m) old = Some p" "\<not> moves old new" "is_dir_at m (path_dir new)"
    "rename_clash (the_node m p) new m = None"
    "snd (mem_Rename old new m) =
       (case map_of (m_nodes m) new of None \<Rightarrow> m | Some d \<Rightarrow> unlink d m)
         \<lparr>m_nodes := move_nodes old new (m_nodes m)\<rparr>"
proof -
  obtain p where p: "mem_lookup m old = Inr p"
    using assms(1) by (auto simp: mem_Rename_def split: sum.splits)
  have "valid new" "old \<noteq> ''.''" "new \<noteq> ''.''" "\<not> has_prefix new (old @ ''/'')"
      "mem_parent m new = None" "rename_clash (the_node m p) new m = None"
    using assms p by (auto simp: mem_Rename_def split: if_splits option.splits)
  moreover from this have "snd (mem_Rename old new m) =
       (case map_of (m_nodes m) new of None \<Rightarrow> m | Some d \<Rightarrow> unlink d m)
         \<lparr>m_nodes := move_nodes old new (m_nodes m)\<rparr>"
    using assms(2) p by (auto simp: mem_Rename_def Let_def split: option.splits)
  ultimately show thesis
    using p assms(2) by (intro that [of p]) (auto simp: lookup_map_of mem_parent_None moves_def)
qed

lemma rename_clash_leaf:
  "rename_clash n new m = None \<Longrightarrow> \<not> is_dir_at m new \<or> \<not> has_child m new"
  by (auto simp: rename_clash_def is_dir_at_iff Let_def split: if_splits option.splits)

lemma Rename_inv:
  assumes inv: "mem_inv m"
  shows "mem_inv (snd (mem_Rename old new m))"
proof (cases "fst (mem_Rename old new m) = None \<and> old \<noteq> new")
  case False
  then have "snd (mem_Rename old new m) = m"
    by (auto simp: mem_Rename_def Let_def split: sum.splits option.splits if_splits)
  with inv show ?thesis by simp
next
  case True
  then obtain p where r: "valid old" "valid new" "old \<noteq> ''.''" "new \<noteq> ''.''"
      "map_of (m_nodes m) old = Some p" "\<not> moves old new" "is_dir_at m (path_dir new)"
      "rename_clash (the_node m p) new m = None"
    and res: "snd (mem_Rename old new m) =
       (case map_of (m_nodes m) new of None \<Rightarrow> m | Some d \<Rightarrow> unlink d m)
         \<lparr>m_nodes := move_nodes old new (m_nodes m)\<rparr>"
    by (auto elim: Rename_success)
  let ?f = "map_of (m_nodes m)" and ?ns = "move_nodes old new (m_nodes m)"
  note names = mem_inv_parts(1) [OF inv] and tree = mem_inv_parts(2) [OF inv]
  note free = nothing_below [OF names tree r(2,4) rename_clash_leaf [OF r(8)]]
  have f': "map_of ?ns = rename_map old new ?f"
    using map_of_move_nodes [OF names_dist [OF names]] r(5) free by blast
  have dist: "distinct (map fst ?ns)" by (rule distinct_move_nodes [OF names_dist [OF names]])
  have inj: "a = b" if "map_of ?ns a = Some c" "map_of ?ns b = Some c" for a b c
    using rename_map_inj [of ?f] named_inj [OF names] that unfolding f' by blast
  have val: "valid q" if "map_of ?ns q \<noteq> None" for q
    using rename_map_valid [of old new ?f q] r(1-4) named_ptr(3) [OF names] that
    unfolding f' by blast
  have at: "node_at (m\<lparr>m_nodes := ?ns\<rparr>) q = rename_map old new (node_at m) q" for q
    by (simp add: node_at_def f' rename_map_def)
  have tree': "tree_inv (m\<lparr>m_nodes := ?ns\<rparr>)"
    by (rule rename_tree [OF names tree r(1,3,2,4,6,7) at])
  have ran: "ran (map_of ?ns) = ran ?f - set_option (?f new)"
    unfolding f' using rename_map_ran [of ?f new old] named_inj [OF names] free r(6) by blast
  show ?thesis
  proof (cases "?f new")
    case None
    with ran have "ran (map_of ?ns) = ran ?f" by simp
    then have "mem_inv (m\<lparr>m_nodes := ?ns\<rparr>)"
      using mem_inv_same_map [OF inv dist] inj val tree' by blast
    with res None show ?thesis by simp
  next
    case (Some d)
    with ran have "ran (map_of ?ns) = ran ?f - {d}" by simp
    then have "mem_inv ((unlink d m)\<lparr>m_nodes := ?ns\<rparr>)"
      using mem_inv_drop_map [OF inv Some dist] inj val tree' by blast
    with res Some show ?thesis by simp
  qed
qed

text \<open>The functional behaviour of a successful \<open>Rename\<close>, node by node.\<close>

lemma Rename_node_at:
  assumes inv: "mem_inv m" and ok: "fst (mem_Rename old new m) = None" "old \<noteq> new"
  shows "node_at (snd (mem_Rename old new m)) q = rename_map old new (node_at m) q"
proof -
  obtain p where r: "valid old" "valid new" "old \<noteq> ''.''" "new \<noteq> ''.''"
      "map_of (m_nodes m) old = Some p" "\<not> moves old new"
      "rename_clash (the_node m p) new m = None"
    and res: "snd (mem_Rename old new m) =
       (case map_of (m_nodes m) new of None \<Rightarrow> m | Some d \<Rightarrow> unlink d m)
         \<lparr>m_nodes := move_nodes old new (m_nodes m)\<rparr>"
    using ok by (auto elim: Rename_success)
  let ?f = "map_of (m_nodes m)"
  note names = mem_inv_parts(1) [OF inv] and tree = mem_inv_parts(2) [OF inv]
  note free = nothing_below [OF names tree r(2,4) rename_clash_leaf [OF r(7)]]
  have f': "map_of (move_nodes old new (m_nodes m)) = rename_map old new ?f"
    using map_of_move_nodes [OF names_dist [OF names]] r(5) free by blast
  have "?f new \<noteq> Some c" if "rename_map old new ?f q = Some c" for c
  proof
    assume "?f new = Some c"
    moreover have "c \<in> ran (rename_map old new ?f)" using that by (rule ranI)
    ultimately show False
      using rename_map_ran [of ?f new old] named_inj [OF names] free r(6) by auto
  qed
  then have "the_node (case ?f new of None \<Rightarrow> m | Some d \<Rightarrow> unlink d m) c = the_node m c"
    if "rename_map old new ?f q = Some c" for c
    using that named_ptr(1) [OF names] by (auto simp: the_node_unlink split: option.splits)
  then have "node_at (snd (mem_Rename old new m)) q = map_option (the_node m) (rename_map old new ?f q)"
    unfolding res by (cases "rename_map old new ?f q") (simp_all add: node_at_def f')
  also have "\<dots> = rename_map old new (node_at m) q"
    by (simp add: node_at_def rename_map_def)
  finally show ?thesis .
qed

end
