(* ===== verification/MemorySteps.thy ===== *)
theory MemorySteps
  imports MemoryRename
begin

text \<open>
  Every operation of \<open>Memory\<close> and \<open>memoryFile\<close> keeps the invariant, and so does every
  sequence of them: \<open>mem_step\<close> is one operation of the filesystem or of one of its open
  files, \<open>mem_reach\<close> the states they lead to from \<open>NewMemory\<close>.
\<close>

section \<open>Opening\<close>

lemma quota_wrap_drop:
  assumes "quota_inv m" "p < length (m_heap m)"
  shows "i64 (m_used m - node_len (the_node m p)) = m_used m - node_len (the_node m p)"
  using node_len_le_used [OF assms] node_len_nonneg [of "the_node m p"] assms(1)
  by (intro i64_bounded; unfold quota_inv_def; linarith)

lemma truncate_inv:
  assumes inv: "mem_inv m" and p: "p < length (m_heap m)"
  shows "mem_inv (upd_node p (\<lambda>n. n\<lparr>n_data := [], n_mtime := now\<rparr>)
           (m\<lparr>m_used := i64 (m_used m - node_len (the_node m p))\<rparr>))"
proof -
  note q = mem_inv_parts(5) [OF inv]
  show ?thesis
    unfolding quota_wrap_drop [OF q p]
    by (rule mem_inv_set_data [OF inv p])
      (use q node_len_nonneg [of "the_node m p"] in \<open>auto simp: node_len_def quota_inv_def\<close>)
qed

lemma OpenFile_inv:
  assumes inv: "mem_inv m"
  shows "mem_inv (snd (mem_OpenFile now name flag perm m))"
proof (cases "valid name \<and> (\<exists>r. open_node now name flag perm m = Inr r)")
  case False
  then show ?thesis using inv by (auto simp: mem_OpenFile_def split: sum.splits)
next
  case True
  then obtain p m1 where op: "valid name" "open_node now name flag perm m = Inr (p, m1)" by auto
  from open_node_inv [OF inv op(2)] have m1: "mem_inv m1" "p < length (m_heap m1)" by simp_all
  define w where "w = has_flag flag (O_WRONLY OR O_RDWR)"
  define t where "t = has_flag flag O_TRUNC"
  define m2 where "m2 = (if t then upd_node p (\<lambda>n. n\<lparr>n_data := [], n_mtime := now\<rparr>)
      (m1\<lparr>m_used := i64 (m_used m1 - node_len (the_node m1 p))\<rparr>) else m1)"
  define f where "f = \<lparr>f_node = p, f_name = name, f_pos = 0,
      f_readable = \<not> has_flag flag O_WRONLY, f_writable = w,
      f_append = has_flag flag O_APPEND, f_closed = False, f_entries = None, f_dirPos = 0\<rparr>"
  have m2: "mem_inv m2" "p < length (m_heap m2)"
    using m1 truncate_inv [OF m1] by (simp_all add: m2_def)
  have mode: "n_mode (the_node m2 p) = n_mode (the_node m1 p)"
    using m1(2) by (simp add: m2_def the_node_upd_node)
  have res: "snd (mem_OpenFile now name flag perm m) =
      (if mode_is_dir (n_mode (the_node m1 p)) \<and> (w \<or> t) \<or> t \<and> \<not> w then m1
       else (upd_node p (\<lambda>n. n\<lparr>n_refs := n_refs n + 1\<rparr>) m2)\<lparr>m_files := m_files m2 @ [f]\<rparr>)"
    using op by (simp add: mem_OpenFile_def Let_def w_def t_def m2_def f_def)
  show ?thesis
  proof (cases "mode_is_dir (n_mode (the_node m1 p)) \<and> (w \<or> t) \<or> t \<and> \<not> w")
    case True
    with res m1 show ?thesis by simp
  next
    case False
    have "0 \<le> m_limit m2" using mem_inv_parts(5) [OF m2(1)] by (simp add: quota_inv_def)
    then have "file_ok m2 f" using False mode by (auto simp: file_ok_def f_def)
    then show ?thesis
      unfolding res using False mem_inv_add_file [OF m2, of f] by (auto simp: f_def)
  qed
qed

lemma Mkdir_inv:
  assumes inv: "mem_inv m"
  shows "mem_inv (snd (mem_Mkdir now name perm m))"
proof (cases "valid name \<and> map_of (m_nodes m) name = None \<and> mem_parent m name = None
    \<and> length (m_nodes m) < max_nodes")
  case True
  obtain p m' where new: "newNode now (ModeDir OR mode_perm perm) m = (p, m')" by fastforce
  have "mem_inv (m'\<lparr>m_nodes := AList.update name p (m_nodes m')\<rparr>)"
    using mem_inv_link_new [OF inv new] True by (simp add: mem_parent_None)
  then show ?thesis using True new by (simp add: mem_Mkdir_def)
next
  case False
  then show ?thesis using inv by (auto simp: mem_Mkdir_def split: option.splits)
qed

section \<open>Metadata\<close>

lemma Chmod_inv:
  assumes inv: "mem_inv m"
  shows "mem_inv (snd (mem_Chmod name perm m))"
proof (cases "mem_lookup m name")
  case (Inr p)
  then have "p < length (m_heap m)"
    using named_ptr(1) [OF mem_inv_parts(1) [OF inv]] by (auto simp: lookup_map_of)
  then show ?thesis using Inr by (auto simp: mem_Chmod_def intro!: mem_inv_upd_node [OF inv])
qed (simp add: mem_Chmod_def inv)

lemma Chtimes_inv:
  assumes inv: "mem_inv m"
  shows "mem_inv (snd (mem_Chtimes name a t m))"
proof (cases "mem_lookup m name")
  case (Inr p)
  then have "p < length (m_heap m)"
    using named_ptr(1) [OF mem_inv_parts(1) [OF inv]] by (auto simp: lookup_map_of)
  then show ?thesis using Inr by (auto simp: mem_Chtimes_def intro!: mem_inv_upd_node [OF inv])
qed (simp add: mem_Chtimes_def inv)

lemma fChtimes_inv:
  assumes inv: "mem_inv m" and h: "h < length (m_files m)"
  shows "mem_inv (snd (mf_Chtimes h a t m))"
  using file_in_heap [OF mem_inv_parts(3) [OF inv] h] inv
  by (auto simp: mf_Chtimes_def intro!: mem_inv_upd_node)

section \<open>Closing\<close>

lemma Close_inv:
  assumes inv: "mem_inv m" and h: "h < length (m_files m)"
  shows "mem_inv (snd (mf_Close h m))"
proof (cases "f_closed (the_file m h)")
  case True
  with inv show ?thesis by (simp add: mf_Close_def)
next
  case False
  define p where "p = f_node (the_file m h)"
  define m2 where "m2 = upd_node p (\<lambda>n. n\<lparr>n_refs := n_refs n - 1\<rparr>)
                          (upd_file h (\<lambda>f. f\<lparr>f_closed := True\<rparr>) m)"
  note r = close_release [OF inv h False, folded p_def, folded m2_def]
  have res: "snd (mf_Close h m) =
      (if \<not> n_linked (the_node m2 p) \<and> n_refs (the_node m2 p) = 0
       then upd_node p (\<lambda>n. n\<lparr>n_data := []\<rparr>)
              (m2\<lparr>m_used := i64 (m_used m2 - node_len (the_node m2 p))\<rparr>)
       else m2)"
    using False by (simp add: mf_Close_def Let_def p_def m2_def)
  have p2: "p < length (m_heap m2)" using r(1) by (simp add: m2_def)
  have others: "\<forall>c < length (m_heap m2). c \<noteq> p \<and> \<not> n_linked (the_node m2 c) \<and> n_refs (the_node m2 c) = 0
          \<longrightarrow> n_data (the_node m2 c) = []"
    and dirs: "\<forall>c < length (m_heap m2). mode_is_dir (n_mode (the_node m2 c)) \<longrightarrow> n_data (the_node m2 c) = []"
    using mem_inv_parts(3) [OF inv] r(8,9) by (auto simp: refs_inv_def m2_def the_node_upd_node)
  show ?thesis
  proof (cases "\<not> n_linked (the_node m2 p) \<and> n_refs (the_node m2 p) = 0")
    case False
    then have "refs_inv m2" using r(6,7) others dirs by (auto simp: refs_inv_def)
    then show ?thesis using r(2-5) False unfolding res by (auto simp: mem_inv_def)
  next
    case True
    let ?g = "\<lambda>n. n\<lparr>n_data := []\<rparr>"
    have "refs_inv (upd_node p ?g m2)"
      using r(6,7) others dirs p2 by (auto simp: refs_inv_def the_node_upd_node)
    moreover have "quota_inv ((upd_node p ?g m2)\<lparr>m_used := m_used m2 - node_len (the_node m2 p)\<rparr>)"
      using r(5) node_len_nonneg [of "the_node m2 p"] quota_upd_node [OF p2, of ?g]
      by (auto simp: quota_inv_def node_len_def)
    ultimately show ?thesis
      using True r(2-4) p2 names_inv_upd_node [OF r(2) p2] tree_inv_upd_node [OF r(3) p2]
        files_inv_upd_node [OF r(4) p2]
      unfolding res quota_wrap_drop [OF r(5) p2] by (simp add: mem_inv_def)
  qed
qed

section \<open>Resizing and writing\<close>

text \<open>An open writable file is reachable and no directory.\<close>

lemma open_file_facts:
  assumes inv: "mem_inv m" and h: "h < length (m_files m)"
  shows "f_node (the_file m h) < length (m_heap m)"
    "0 \<le> f_pos (the_file m h)" "f_pos (the_file m h) \<le> m_limit m"
    "file_ok m (the_file m h)"
    "f_writable (the_file m h) \<Longrightarrow> \<not> mode_is_dir (n_mode (file_node m h))"
    "\<not> f_closed (the_file m h) \<Longrightarrow> n_refs (file_node m h) \<noteq> 0"
    "node_len (file_node m h) \<le> m_used m"
proof -
  note parts = mem_inv_parts [OF inv]
  let ?p = "f_node (the_file m h)"
  have hf: "the_file m h \<in> set (m_files m)" using h by (simp add: the_file_def)
  show p: "?p < length (m_heap m)" by (rule file_in_heap [OF parts(3) h])
  show ok: "file_ok m (the_file m h)" using parts(4) hf by (simp add: files_inv_def)
  then show "0 \<le> f_pos (the_file m h)" "f_pos (the_file m h) \<le> m_limit m"
    "f_writable (the_file m h) \<Longrightarrow> \<not> mode_is_dir (n_mode (file_node m h))"
    by (simp_all add: file_ok_def file_node_def)
  show "node_len (file_node m h) \<le> m_used m"
    unfolding file_node_def by (rule node_len_le_used [OF parts(5) p])
  assume "\<not> f_closed (the_file m h)"
  then have "filter (\<lambda>f. f_node f = ?p \<and> \<not> f_closed f) (m_files m) \<noteq> []"
    using hf by (auto simp: filter_empty_conv)
  then show "n_refs (file_node m h) \<noteq> 0"
    using parts(3) p by (simp add: refs_inv_def file_node_def open_refs_def)
qed

text \<open>The contents after a resize: cut, or extended with zero bytes.\<close>

definition resized :: "byte list \<Rightarrow> nat \<Rightarrow> byte list" where
  "resized d n = take n d @ replicate (n - length d) 0"

lemma length_resized [simp]: "length (resized d n) = n"
  by (simp add: resized_def)

text \<open>
  \<open>resize\<close> without wrap-around: under the quota invariant none of its 64-bit operations
  overflows, and it fails exactly when the size is negative or the budget would be exceeded.
\<close>

lemma resize_eq:
  assumes inv: "mem_inv m" and h: "h < length (m_files m)"
  shows "mf_resize now h sz m =
    (if sz < 0 then (Some ErrInvalid, m)
     else if m_limit m < sz \<or> m_limit m - m_used m < sz - node_len (file_node m h)
     then (Some (Errno ENOSPC), m)
     else (None,
       upd_node (f_node (the_file m h))
         (\<lambda>n. n\<lparr>n_data := resized (n_data (file_node m h)) (nat sz), n_mtime := now\<rparr>)
         (m\<lparr>m_used := m_used m + (sz - node_len (file_node m h))\<rparr>)))"
proof (cases "sz < 0 \<or> m_limit m < sz")
  case True
  then show ?thesis by (auto simp: mf_resize_def Let_def)
next
  case False
  note q = mem_inv_parts(5) [OF inv]
  let ?d = "n_data (file_node m h)"
  have lens: "0 \<le> node_len (file_node m h)" "node_len (file_node m h) \<le> m_used m"
      "m_used m \<le> m_limit m" "m_limit m \<le> max_int64" "0 \<le> m_used m"
    using open_file_facts(7) [OF inv h] q used_nonneg [OF q] by (simp_all add: quota_inv_def)
  have w1: "i64 (sz - int (length ?d)) = sz - node_len (file_node m h)"
    using False lens unfolding node_len_def by (intro i64_bounded_neg; linarith)
  have w2: "i64 (m_limit m - m_used m) = m_limit m - m_used m"
    using lens by (intro i64_bounded; linarith)
  have w3: "m_limit m - m_used m \<ge> sz - node_len (file_node m h) \<Longrightarrow>
      i64 (m_used m + (sz - node_len (file_node m h))) = m_used m + (sz - node_len (file_node m h))"
    using False lens by (intro i64_bounded; linarith)
  have d: "(if 0 < sz - node_len (file_node m h)
       then ?d @ replicate (nat (sz - node_len (file_node m h))) 0
       else if sz - node_len (file_node m h) < 0 then take (nat sz) ?d else ?d)
       = resized ?d (nat sz)"
  proof -
    consider "node_len (file_node m h) < sz" | "sz < node_len (file_node m h)"
      | "sz = node_len (file_node m h)" by linarith
    then show ?thesis
      by cases (auto simp: resized_def node_len_def nat_diff_distrib)
  qed
  show ?thesis
    unfolding mf_resize_def Let_def w1 w2 d using False w3 by auto
qed

lemma resize_inv:
  assumes inv: "mem_inv m" and h: "h < length (m_files m)"
    and ok: "f_writable (the_file m h)" "\<not> f_closed (the_file m h)"
  shows "mem_inv (snd (mf_resize now h sz m))"
proof -
  note o = open_file_facts [OF inv h]
  have lens: "0 \<le> sz \<Longrightarrow> node_len (n\<lparr>n_data := resized d (nat sz), n_mtime := now\<rparr>) = sz" for n d
    by (simp add: node_len_def)
  have "mem_inv (upd_node (f_node (the_file m h))
         (\<lambda>n. n\<lparr>n_data := resized (n_data (file_node m h)) (nat sz), n_mtime := now\<rparr>)
         (m\<lparr>m_used := m_used m + (sz - node_len (file_node m h))\<rparr>))"
    if "0 \<le> sz" "\<not> m_limit m - m_used m < sz - node_len (file_node m h)"
    by (rule mem_inv_set_data [OF inv o(1)])
      (use o(5,6) ok that lens in \<open>auto simp: file_node_def\<close>)
  then show ?thesis using inv by (auto simp: resize_eq [OF inv h])
qed

lemma Truncate_inv:
  assumes inv: "mem_inv m" and h: "h < length (m_files m)"
  shows "mem_inv (snd (mf_Truncate now h sz m))"
  using inv h by (simp add: mf_Truncate_def resize_inv)

lemma copy_into_length [simp]:
  "length (copy_into d off p) = length d"
  by (auto simp: copy_into_def min_def)

lemma resize_frame:
  "m_files (snd (mf_resize now h sz m)) = m_files m"
  "m_nodes (snd (mf_resize now h sz m)) = m_nodes m"
  "length (m_heap (snd (mf_resize now h sz m))) = length (m_heap m)"
  "m_limit (snd (mf_resize now h sz m)) = m_limit m"
  by (auto simp: mf_resize_def Let_def)

text \<open>What a write of \<open>p\<close> at offset \<open>off\<close> makes of the contents.\<close>

definition write_bytes :: "byte list \<Rightarrow> nat \<Rightarrow> byte list \<Rightarrow> byte list" where
  "write_bytes d off p =
     take off (d @ replicate (off - length d) 0) @ p @ drop (off + length p) d"

lemma copy_into_resized:
  "off + length p \<le> length d \<Longrightarrow> copy_into d off p = write_bytes d off p"
  "length d < off + length p \<Longrightarrow>
     copy_into (resized d (off + length p)) off p = write_bytes d off p"
  by (auto simp: copy_into_def write_bytes_def resized_def min_def)

lemma length_write_bytes [simp]:
  "length (write_bytes d off p) = max (length d) (off + length p)"
  by (auto simp: write_bytes_def max_def min_def)

lemma upd_node_twice:
  "p < length (m_heap m) \<Longrightarrow> upd_node p f (upd_node p g m) = upd_node p (\<lambda>n. f (g n)) m"
  by (simp add: upd_node_def)

lemma upd_node_cong:
  "p < length (m_heap m) \<Longrightarrow> f (the_node m p) = g (the_node m p) \<Longrightarrow> upd_node p f m = upd_node p g m"
  by (simp add: upd_node_def the_node_def)

text \<open>A Go slice has at most \<open>max_int64\<close> bytes.\<close>

definition go_slice :: "byte list \<Rightarrow> bool" where
  "go_slice p = (int (length p) \<le> max_int64)"

text \<open>
  \<open>writeAt\<close> without wrap-around: all or nothing.  Either it fails and changes nothing, or it
  writes every byte, fills a gap with zeros, and charges the growth to the budget.
\<close>

lemma writeAt_eq:
  assumes inv: "mem_inv m" and h: "h < length (m_files m)" and p: "go_slice p"
  shows "mf_writeAt now h p off m =
    (if f_closed (the_file m h) then ((0, Some ErrClosed), m)
     else if \<not> f_writable (the_file m h) then ((0, Some ErrPermission), m)
     else if off < 0 then ((0, Some ErrInvalid), m)
     else if m_limit m < off + int (length p) then ((0, Some (Errno ENOSPC)), m)
     else if p = [] then ((0, None), m)
     else if m_limit m - m_used m < off + int (length p) - node_len (file_node m h)
     then ((0, Some (Errno ENOSPC)), m)
     else ((int (length p), None),
       upd_node (f_node (the_file m h))
         (\<lambda>n. n\<lparr>n_data := write_bytes (n_data (file_node m h)) (nat off) p, n_mtime := now\<rparr>)
         (m\<lparr>m_used := m_used m + max 0 (off + int (length p) - node_len (file_node m h))\<rparr>)))"
proof (cases "f_closed (the_file m h) \<or> \<not> f_writable (the_file m h) \<or> off < 0")
  case True
  then show ?thesis by (auto simp: mf_writeAt_def Let_def)
next
  case False
  note q = mem_inv_parts(5) [OF inv] and o = open_file_facts [OF inv h]
  let ?d = "n_data (file_node m h)" and ?P = "f_node (the_file m h)"
  have lim: "0 < m_limit m" "m_limit m \<le> max_int64" "m_used m \<le> m_limit m"
    using q by (simp_all add: quota_inv_def)
  have w1: "i64 (m_limit m - int (length p)) = m_limit m - int (length p)"
    using p lim unfolding go_slice_def by (intro i64_bounded_neg; linarith)
  show ?thesis
  proof (cases "m_limit m < off + int (length p) \<or> p = []")
    case True
    then show ?thesis using False by (auto simp: mf_writeAt_def w1)
  next
    case room: False
    have w2: "i64 (off + int (length p)) = off + int (length p)"
      using room False lim by (intro i64_bounded; linarith)
    show ?thesis
    proof (cases "node_len (file_node m h) < off + int (length p)")
      case grow: True
      show ?thesis
      proof (cases "m_limit m - m_used m < off + int (length p) - node_len (file_node m h)")
        case True
        then show ?thesis
          using False room grow by (simp add: mf_writeAt_def w1 w2 Let_def resize_eq [OF inv h])
      next
        case fit: False
        define m1 where "m1 = upd_node ?P
           (\<lambda>n. n\<lparr>n_data := resized ?d (nat (off + int (length p))), n_mtime := now\<rparr>)
           (m\<lparr>m_used := m_used m + (off + int (length p) - node_len (file_node m h))\<rparr>)"
        have r: "mf_resize now h (off + int (length p)) m = (None, m1)"
          using False room fit by (simp add: resize_eq [OF inv h] m1_def)
        have len: "nat (off + int (length p)) = nat off + length p" "length ?d < nat off + length p"
          using False grow by (auto simp: node_len_def nat_add_distrib)
        have f1: "the_file m1 h = the_file m h" by (simp add: m1_def)
        have d1: "n_data (file_node m1 h) = resized ?d (nat off + length p)"
          using o(1) unfolding file_node_def f1 by (simp add: m1_def the_node_upd_node len file_node_def)
        have upd: "upd_node ?P (\<lambda>n. n\<lparr>n_data := copy_into (n_data (file_node m1 h)) (nat off) p, n_mtime := now\<rparr>) m1
          = upd_node ?P (\<lambda>n. n\<lparr>n_data := write_bytes ?d (nat off) p, n_mtime := now\<rparr>)
              (m\<lparr>m_used := m_used m + (off + int (length p) - node_len (file_node m h))\<rparr>)"
          using o(1) unfolding d1 copy_into_resized(2) [OF len(2)] by (simp add: m1_def upd_node_twice)
        show ?thesis
          using False room grow fit upd d1
          by (simp add: mf_writeAt_def w1 w2 r Let_def)
      qed
    next
      case stay: False
      moreover have "int (nat off) = off" using False by simp
      ultimately have len: "nat off + length p \<le> length ?d" unfolding node_len_def by linarith
      then have n: "min (length ?d - nat off) (length p) = length p" by simp
      from stay room False lim copy_into_resized(1) [OF len] show ?thesis
        by (simp add: mf_writeAt_def w1 w2 Let_def n max_def)
    qed
  qed
qed

lemma writeAt_inv:
  assumes inv: "mem_inv m" and h: "h < length (m_files m)" and p: "go_slice p"
  shows "mem_inv (snd (mf_writeAt now h p off m))"
proof -
  note o = open_file_facts [OF inv h]
  let ?d = "n_data (file_node m h)"
  have "mem_inv (upd_node (f_node (the_file m h))
         (\<lambda>n. n\<lparr>n_data := write_bytes ?d (nat off) p, n_mtime := now\<rparr>)
         (m\<lparr>m_used := m_used m + max 0 (off + int (length p) - node_len (file_node m h))\<rparr>))"
    if "0 \<le> off" "\<not> f_closed (the_file m h)" "f_writable (the_file m h)"
      "\<not> m_limit m - m_used m < off + int (length p) - node_len (file_node m h)"
    by (rule mem_inv_set_data [OF inv o(1)])
      (use o(5,6) that mem_inv_parts(5) [OF inv] in \<open>auto simp: file_node_def node_len_def quota_inv_def\<close>)
  then show ?thesis using inv by (auto simp: writeAt_eq [OF inv h p])
qed

lemma writeAt_frame:
  "m_files (snd (mf_writeAt now h p off m)) = m_files m"
  "m_limit (snd (mf_writeAt now h p off m)) = m_limit m"
  by (auto simp: mf_writeAt_def Let_def resize_frame split: option.splits prod.splits)
    (metis resize_frame(1,4) snd_conv)+

section \<open>Positions and listings\<close>

lemma writeAt_count:
  assumes "mem_inv m" "h < length (m_files m)" "go_slice p"
    and "mf_writeAt now h p off m = ((n, e), m')"
  shows "n = 0 \<or> n = int (length p) \<and> 0 \<le> off \<and> off + int (length p) \<le> m_limit m"
  using assms(4) unfolding writeAt_eq [OF assms(1-3)] by (auto split: if_splits)

lemma set_pos_inv:
  assumes inv: "mem_inv m" and h: "h < length (m_files m)" and pos: "0 \<le> x" "x \<le> m_limit m"
  shows "mem_inv (upd_file h (\<lambda>f. f\<lparr>f_pos := x\<rparr>) m)"
  by (rule mem_inv_upd_file [OF inv h])
    (use open_file_facts(4) [OF inv h] pos in \<open>auto simp: file_ok_def split: option.splits\<close>)

lemma upd_file_cong:
  "h < length (m_files m) \<Longrightarrow> f (the_file m h) = g (the_file m h) \<Longrightarrow> upd_file h f m = upd_file h g m"
  by (simp add: upd_file_def the_file_def)

lemma add_pos_inv:
  assumes inv: "mem_inv m" and h: "h < length (m_files m)"
    and n: "0 \<le> n" "f_pos (the_file m h) + n \<le> m_limit m"
  shows "mem_inv (upd_file h (\<lambda>f. f\<lparr>f_pos := i64 (f_pos f + n)\<rparr>) m)"
proof -
  note o = open_file_facts [OF inv h]
  have "m_limit m \<le> max_int64" using mem_inv_parts(5) [OF inv] by (simp add: quota_inv_def)
  then have "i64 (f_pos (the_file m h) + n) = f_pos (the_file m h) + n"
    using o(2) n by (intro i64_bounded; linarith)
  then have "upd_file h (\<lambda>f. f\<lparr>f_pos := i64 (f_pos f + n)\<rparr>) m
      = upd_file h (\<lambda>f. f\<lparr>f_pos := f_pos (the_file m h) + n\<rparr>) m"
    by (intro upd_file_cong [OF h]) simp
  then show ?thesis using set_pos_inv [OF inv h] o(2) n by simp
qed

lemma readAt_fits:
  assumes "mf_readAt h len off m = (bs, e)" "bs \<noteq> []"
  shows "0 \<le> off \<and> off + int (length bs) \<le> node_len (file_node m h)"
  using assms by (auto simp: mf_readAt_def Let_def node_len_def split: if_splits)

lemma Read_inv:
  assumes inv: "mem_inv m" and h: "h < length (m_files m)"
  shows "mem_inv (snd (mf_Read h len m))"
proof -
  note o = open_file_facts [OF inv h]
  obtain bs e where r: "mf_readAt h len (f_pos (the_file m h)) m = (bs, e)" by fastforce
  have "f_pos (the_file m h) + int (length bs) \<le> m_limit m"
    using readAt_fits [OF r] o(3,7) mem_inv_parts(5) [OF inv]
    by (cases "bs = []") (auto simp: quota_inv_def)
  then show ?thesis using add_pos_inv [OF inv h, of "int (length bs)"] by (simp add: mf_Read_def r)
qed

lemma Write_inv:
  assumes inv: "mem_inv m" and h: "h < length (m_files m)" and p: "go_slice p"
  shows "mem_inv (snd (mf_Write now h p m))"
proof -
  note o = open_file_facts [OF inv h]
  define m0 where "m0 = (if f_append (the_file m h)
      then upd_file h (\<lambda>f. f\<lparr>f_pos := node_len (file_node m h)\<rparr>) m else m)"
  have m0: "mem_inv m0" "h < length (m_files m0)" "m_limit m0 = m_limit m"
    using set_pos_inv [OF inv h, of "node_len (file_node m h)"] inv h o(7) mem_inv_parts(5) [OF inv]
    by (auto simp: m0_def quota_inv_def)
  obtain n e m1 where w: "mf_writeAt now h p (f_pos (the_file m0 h)) m0 = ((n, e), m1)"
    by (metis prod.collapse)
  have m1: "mem_inv m1" "m_files m1 = m_files m0" "m_limit m1 = m_limit m0"
    using writeAt_inv [OF m0(1,2) p, of now "f_pos (the_file m0 h)"]
      writeAt_frame [of now h p "f_pos (the_file m0 h)" m0] w by simp_all
  have f1: "the_file m1 h = the_file m0 h" using m1(2) by (simp add: the_file_def)
  have "0 \<le> n" "f_pos (the_file m1 h) + n \<le> m_limit m1"
    using writeAt_count [OF m0(1,2) p w] open_file_facts(3) [OF m0(1,2)] m1(3) f1 by auto
  then have "mem_inv (upd_file h (\<lambda>f. f\<lparr>f_pos := i64 (f_pos f + n)\<rparr>) m1)"
    using add_pos_inv [OF m1(1), of h n] m0(2) m1(2) by simp
  then show ?thesis by (simp add: mf_Write_def m0_def [symmetric] w)
qed

lemma WriteAt_inv:
  assumes inv: "mem_inv m" and h: "h < length (m_files m)" and p: "go_slice p"
  shows "mem_inv (snd (mf_WriteAt now h p off m))"
  using writeAt_inv [OF inv h p] inv by (simp add: mf_WriteAt_def)

text \<open>
  \<open>Seek\<close> without wrap-around: the new position is the base plus the offset, refused outside
  the file budget.
\<close>

definition seek_base :: "fd \<Rightarrow> int \<Rightarrow> memory \<Rightarrow> int option" where
  "seek_base h whence m =
     (if whence = 0 then Some 0
      else if whence = 1 then Some (f_pos (the_file m h))
      else if whence = 2 then Some (node_len (file_node m h))
      else None)"

lemma seek_base_range:
  assumes inv: "mem_inv m" and h: "h < length (m_files m)" and b: "seek_base h whence m = Some b"
  shows "0 \<le> b" "b \<le> m_limit m"
  using b open_file_facts [OF inv h] mem_inv_parts(5) [OF inv]
  by (auto simp: seek_base_def quota_inv_def split: if_splits)

lemma Seek_eq:
  assumes inv: "mem_inv m" and h: "h < length (m_files m)"
  shows "mf_Seek h off whence m =
    (if f_closed (the_file m h) then (Inl ErrClosed, m)
     else case seek_base h whence m of
       None \<Rightarrow> (Inl ErrInvalid, m)
     | Some b \<Rightarrow>
         if b + off < 0 \<or> m_limit m < b + off then (Inl ErrInvalid, m)
         else (Inr (b + off),
               upd_file h (\<lambda>f. if b + off = 0
                 then f\<lparr>f_pos := b + off, f_dirPos := 0, f_entries := None\<rparr>
                 else f\<lparr>f_pos := b + off\<rparr>) m))"
proof (cases "seek_base h whence m")
  case None
  then show ?thesis by (simp add: mf_Seek_def seek_base_def split: if_splits)
next
  case (Some b)
  note r = seek_base_range [OF inv h Some]
  have lim: "m_limit m \<le> max_int64" using mem_inv_parts(5) [OF inv] by (simp add: quota_inv_def)
  have w1: "i64 (- b) = - b" using r lim by (intro i64_bounded_neg; linarith)
  have w2: "i64 (m_limit m - b) = m_limit m - b" using r lim by (intro i64_bounded; linarith)
  have w3: "i64 (b + off) = b + off" if "0 \<le> b + off" "b + off \<le> m_limit m"
    using that lim by (intro i64_bounded; linarith)
  have "(off < - b \<or> m_limit m - b < off) = (b + off < 0 \<or> m_limit m < b + off)" by linarith
  then show ?thesis
    using Some w3 unfolding mf_Seek_def seek_base_def [symmetric]
    by (simp add: w1 w2 Let_def not_less split: if_splits)
qed

lemma Seek_inv:
  assumes inv: "mem_inv m" and h: "h < length (m_files m)"
  shows "mem_inv (snd (mf_Seek h off whence m))"
proof -
  have "mem_inv (upd_file h (\<lambda>f. if x = 0 then f\<lparr>f_pos := x, f_dirPos := 0, f_entries := None\<rparr>
                 else f\<lparr>f_pos := x\<rparr>) m)" if "0 \<le> x" "x \<le> m_limit m" for x
    by (rule mem_inv_upd_file [OF inv h])
      (use open_file_facts(4) [OF inv h] that in \<open>auto simp: file_ok_def split: option.splits\<close>)
  then show ?thesis using inv by (simp add: Seek_eq [OF inv h] not_less split: option.splits)
qed

lemma ReadDir_inv:
  assumes inv: "mem_inv m" and h: "h < length (m_files m)"
  shows "mem_inv (snd (mf_ReadDir h n m))"
proof -
  note ok = open_file_facts(4) [OF inv h]
  have pos: "f_dirPos (the_file m h) \<le> length es" if "f_entries (the_file m h) \<in> {None, Some es}" for es
    using ok that by (auto simp: file_ok_def)
  have "mem_inv (upd_file h (\<lambda>f. f\<lparr>f_entries := Some es, f_dirPos := d\<rparr>) m)" if "d \<le> length es" for es d
    by (rule mem_inv_upd_file [OF inv h]) (use ok that in \<open>auto simp: file_ok_def\<close>)
  then have both: "mem_inv (upd_file h (\<lambda>f. f\<lparr>f_dirPos := d\<rparr>) (upd_file h (\<lambda>f. f\<lparr>f_entries := Some es\<rparr>) m))"
    if "d \<le> length es" for es d
    using that h by (simp add: upd_file_def)
  have one: "mem_inv (upd_file h (\<lambda>f. f\<lparr>f_entries := Some es\<rparr>) m)"
    if "f_entries (the_file m h) \<in> {None, Some es}" for es
    by (rule mem_inv_upd_file [OF inv h]) (use ok pos [OF that] in \<open>auto simp: file_ok_def\<close>)
  show ?thesis
    using inv one both
    by (auto simp: mf_ReadDir_def Let_def split: option.splits sum.splits)
qed

section \<open>Reachable states\<close>

text \<open>
  One call on an open file, and one call on the filesystem or on one of its files.  The calls
  that only read (\<open>Stat\<close>, \<open>ReadAt\<close>, \<open>Memory.ReadDir\<close>) have no state to return.
\<close>

inductive file_step :: "memory \<Rightarrow> memory \<Rightarrow> bool" where
  close: "h < length (m_files m) \<Longrightarrow> file_step m (snd (mf_Close h m))"
| read: "h < length (m_files m) \<Longrightarrow> file_step m (snd (mf_Read h len m))"
| write_seq: "h < length (m_files m) \<Longrightarrow> go_slice p \<Longrightarrow> file_step m (snd (mf_Write now h p m))"
| write_at: "h < length (m_files m) \<Longrightarrow> go_slice p \<Longrightarrow> file_step m (snd (mf_WriteAt now h p off m))"
| seek: "h < length (m_files m) \<Longrightarrow> file_step m (snd (mf_Seek h off whence m))"
| truncate: "h < length (m_files m) \<Longrightarrow> file_step m (snd (mf_Truncate now h sz m))"
| file_chtimes: "h < length (m_files m) \<Longrightarrow> file_step m (snd (mf_Chtimes h a t m))"
| read_dir: "h < length (m_files m) \<Longrightarrow> file_step m (snd (mf_ReadDir h n m))"

inductive mem_step :: "memory \<Rightarrow> memory \<Rightarrow> bool" where
  open_file: "mem_step m (snd (mem_OpenFile now name flag perm m))"
| mkdir: "mem_step m (snd (mem_Mkdir now name perm m))"
| remove: "mem_step m (snd (mem_Remove name m))"
| rename: "mem_step m (snd (mem_Rename old new m))"
| chmod: "mem_step m (snd (mem_Chmod name perm m))"
| chtimes: "mem_step m (snd (mem_Chtimes name a t m))"
| on_file: "file_step m m' \<Longrightarrow> mem_step m m'"

lemmas step_inv_lemmas = OpenFile_inv Mkdir_inv Remove_inv Rename_inv Chmod_inv Chtimes_inv
  Close_inv Read_inv Write_inv WriteAt_inv Seek_inv Truncate_inv fChtimes_inv ReadDir_inv

lemma file_step_inv: "file_step m m' \<Longrightarrow> mem_inv m \<Longrightarrow> mem_inv m'"
  by (induction rule: file_step.induct) (simp_all add: step_inv_lemmas)

lemma mem_step_inv: "mem_step m m' \<Longrightarrow> mem_inv m \<Longrightarrow> mem_inv m'"
  by (induction rule: mem_step.induct) (simp_all add: step_inv_lemmas file_step_inv)

lemma NewMemory_inv:
  assumes "maxBytes \<le> max_int64"
  shows "mem_inv (NewMemory now counter maxBytes)"
proof -
  define m where "m = NewMemory now counter maxBytes"
  have m: "m_nodes m = [(''.'', 0)]" "m_files m = []" "m_used m = 0"
      "m_limit m = (if maxBytes \<le> 0 then 67108864 else maxBytes)" "length (m_heap m) = 1"
      "the_node m 0 = \<lparr>n_data = [], n_mode = ModeDir OR 0x1ED, n_mtime = now, n_atime = now,
         n_id = counter + 1, n_refs = 0, n_linked = True\<rparr>"
    by (simp_all add: m_def NewMemory_def newNode_def Let_def the_node_def)
  have "valid ''.''" by (simp add: valid_def valid_path_def contains_nul_def)
  then have "names_inv m" using m by (simp add: names_inv_def max_nodes_def)
  moreover have "tree_inv m" using m by (simp add: tree_inv_def is_dir_at_def node_at_def)
  moreover have "refs_inv m" "files_inv m"
    using m by (simp_all add: refs_inv_def open_refs_def files_inv_def)
  moreover have "quota_inv m"
  proof -
    obtain n where "m_heap m = [n]" using m(5) by (metis One_nat_def length_0_conv length_Suc_conv)
    moreover from this m(6) have "n_data n = []" by (simp add: the_node_def)
    ultimately show ?thesis using m assms by (simp add: quota_inv_def node_len_def max_int64_def)
  qed
  ultimately show ?thesis by (simp add: mem_inv_def m_def)
qed

inductive mem_reach :: "memory \<Rightarrow> bool" where
  new: "maxBytes \<le> max_int64 \<Longrightarrow> mem_reach (NewMemory now counter maxBytes)"
| step: "mem_reach m \<Longrightarrow> mem_step m m' \<Longrightarrow> mem_reach m'"

lemma mem_reach_inv: "mem_reach m \<Longrightarrow> mem_inv m"
  by (induction rule: mem_reach.induct) (auto intro: NewMemory_inv mem_step_inv)

end
