(* ===== verification/MemorySpec.thy ===== *)
theory MemorySpec
  imports MemorySteps
begin

unbundle bit_operations_syntax

text \<open>
  What a writable filesystem promises, apart from inodes, handles and byte accounting: a map
  from names to entries, and \<open>spec_mkdir\<close>, \<open>spec_remove\<close>, \<open>spec_rename\<close> and
  \<open>spec_open\<close> over it, errors included.  \<open>Memory\<close> is shown to implement it
  (\<open>abs_fs\<close> is the abstraction), and the locale \<open>write_fs\<close> states the contract of
  \<open>vfs.WriteFS\<close> that clients such as the namespace rely on.
\<close>

section \<open>The abstract filesystem\<close>

datatype entry = DirE | FileE "byte list"

type_synonym afs = "string \<Rightarrow> entry option"

definition wf_afs :: "afs \<Rightarrow> bool" where
  "wf_afs a = (finite (dom a) \<and> a ''.'' = Some DirE \<and>
     (\<forall>p. a p \<noteq> None \<longrightarrow> valid p \<and> a (path_dir p) = Some DirE))"

definition spec_parent :: "afs \<Rightarrow> string \<Rightarrow> goerr option" where
  "spec_parent a name =
     (case a (path_dir name) of
        None \<Rightarrow> Some ErrNotExist
      | Some DirE \<Rightarrow> None
      | Some (FileE d) \<Rightarrow> Some (Errno ENOTDIR))"

definition spec_full :: "afs \<Rightarrow> bool" where
  "spec_full a = (max_nodes \<le> card (dom a))"

definition spec_has_child :: "afs \<Rightarrow> string \<Rightarrow> bool" where
  "spec_has_child a name = (\<exists>q. a q \<noteq> None \<and> path_dir q = name)"

definition spec_mkdir :: "string \<Rightarrow> afs \<Rightarrow> goerr option \<times> afs" where
  "spec_mkdir name a =
     (if \<not> valid name then (Some (pathErr ''mkdir'' name ErrInvalid), a)
      else if a name \<noteq> None then (Some (pathErr ''mkdir'' name ErrExist), a)
      else case spec_parent a name of
        Some e \<Rightarrow> (Some (pathErr ''mkdir'' name e), a)
      | None \<Rightarrow>
          if spec_full a then (Some (pathErr ''mkdir'' name (Errno ENOSPC)), a)
          else (None, a(name \<mapsto> DirE)))"

definition spec_remove :: "string \<Rightarrow> afs \<Rightarrow> goerr option \<times> afs" where
  "spec_remove name a =
     (if \<not> valid name then (Some (pathErr ''remove'' name ErrInvalid), a)
      else if a name = None then (Some (pathErr ''remove'' name ErrNotExist), a)
      else if name = ''.'' then (Some (pathErr ''remove'' name ErrPermission), a)
      else if a name = Some DirE \<and> spec_has_child a name
      then (Some (pathErr ''remove'' name (Errno ENOTEMPTY)), a)
      else (None, a(name := None)))"

definition spec_clash :: "afs \<Rightarrow> string \<Rightarrow> string \<Rightarrow> goerr option" where
  "spec_clash a old new =
     (case (a old, a new) of
        (Some DirE, Some (FileE d)) \<Rightarrow> Some (Errno ENOTDIR)
      | (Some (FileE d), Some DirE) \<Rightarrow> Some (Errno EISDIR)
      | (Some DirE, Some DirE) \<Rightarrow> if spec_has_child a new then Some (Errno ENOTEMPTY) else None
      | _ \<Rightarrow> None)"

definition spec_rename :: "string \<Rightarrow> string \<Rightarrow> afs \<Rightarrow> goerr option \<times> afs" where
  "spec_rename old new a =
     (if \<not> valid old then (Some (pathErr ''rename'' old ErrInvalid), a)
      else if a old = None then (Some (pathErr ''rename'' old ErrNotExist), a)
      else if \<not> valid new then (Some (pathErr ''rename'' new ErrInvalid), a)
      else if old = ''.'' \<or> new = ''.'' then (Some (pathErr ''rename'' old ErrPermission), a)
      else if old = new then (None, a)
      else if moves old new then (Some (pathErr ''rename'' new ErrInvalid), a)
      else case spec_parent a new of
        Some e \<Rightarrow> (Some (pathErr ''rename'' new e), a)
      | None \<Rightarrow>
          (case spec_clash a old new of
             Some e \<Rightarrow> (Some (pathErr ''rename'' new e), a)
           | None \<Rightarrow> (None, rename_map old new a)))"

text \<open>Opening: the entry \<open>OpenFile\<close> finds or makes, then the checks of its flags.\<close>

definition spec_find :: "string \<Rightarrow> oflag \<Rightarrow> afs \<Rightarrow> afs res" where
  "spec_find name flag a =
     (case a name of
        None \<Rightarrow>
          if \<not> has_flag flag O_CREATE then Inl ErrNotExist
          else (case spec_parent a name of
                  Some e \<Rightarrow> Inl e
                | None \<Rightarrow> if spec_full a then Inl (Errno ENOSPC) else Inr (a(name \<mapsto> FileE [])))
      | Some e \<Rightarrow>
          if has_flag flag O_CREATE \<and> has_flag flag O_EXCL then Inl ErrExist else Inr a)"

definition spec_open :: "string \<Rightarrow> oflag \<Rightarrow> afs \<Rightarrow> goerr option \<times> afs" where
  "spec_open name flag a =
     (if \<not> valid name then (Some (pathErr ''open'' name ErrInvalid), a)
      else case spec_find name flag a of
        Inl e \<Rightarrow> (Some (pathErr ''open'' name e), a)
      | Inr b \<Rightarrow>
          let writable = has_flag flag (O_WRONLY OR O_RDWR); trunc = has_flag flag O_TRUNC
          in if b name = Some DirE \<and> (writable \<or> trunc)
             then (Some (pathErr ''open'' name (Errno EISDIR)), b)
             else if trunc \<and> \<not> writable then (Some (pathErr ''open'' name ErrPermission), b)
             else (None, if trunc then b(name \<mapsto> FileE []) else b))"

section \<open>The contract of a writable filesystem\<close>

text \<open>
  The mutating half of \<open>vfs.WriteFS\<close>: on states that satisfy \<open>inv\<close> every call answers and
  changes the entries as the specification does, and keeps \<open>inv\<close>.
\<close>

locale write_fs =
  fixes inv :: "'s \<Rightarrow> bool"
    and abs :: "'s \<Rightarrow> afs"
    and mkdir :: "string \<Rightarrow> filemode \<Rightarrow> 's \<Rightarrow> goerr option \<times> 's"
    and remove :: "string \<Rightarrow> 's \<Rightarrow> goerr option \<times> 's"
    and rename :: "string \<Rightarrow> string \<Rightarrow> 's \<Rightarrow> goerr option \<times> 's"
  assumes wf: "inv s \<Longrightarrow> wf_afs (abs s)"
    and mkdir_inv: "inv s \<Longrightarrow> inv (snd (mkdir n p s))"
    and remove_inv: "inv s \<Longrightarrow> inv (snd (remove n s))"
    and rename_inv: "inv s \<Longrightarrow> inv (snd (rename a b s))"
    and mkdir_spec: "inv s \<Longrightarrow> map_prod id abs (mkdir n p s) = spec_mkdir n (abs s)"
    and remove_spec: "inv s \<Longrightarrow> map_prod id abs (remove n s) = spec_remove n (abs s)"
    and rename_spec: "inv s \<Longrightarrow> map_prod id abs (rename a b s) = spec_rename a b (abs s)"
begin

text \<open>A call that fails changes no entry.\<close>

lemma failed_mkdir: "inv s \<Longrightarrow> fst (mkdir n p s) = Some e \<Longrightarrow> abs (snd (mkdir n p s)) = abs s"
  using mkdir_spec [of s n p]
  by (cases "mkdir n p s") (auto simp: spec_mkdir_def split: if_splits option.splits)

lemma failed_remove: "inv s \<Longrightarrow> fst (remove n s) = Some e \<Longrightarrow> abs (snd (remove n s)) = abs s"
  using remove_spec [of s n] by (cases "remove n s") (auto simp: spec_remove_def split: if_splits)

lemma failed_rename: "inv s \<Longrightarrow> fst (rename a b s) = Some e \<Longrightarrow> abs (snd (rename a b s)) = abs s"
  using rename_spec [of s a b]
  by (cases "rename a b s") (auto simp: spec_rename_def split: if_splits option.splits)

end

section \<open>Memory implements the contract\<close>

definition entry_of :: "node \<Rightarrow> entry" where
  "entry_of n = (if mode_is_dir (n_mode n) then DirE else FileE (n_data n))"

definition abs_fs :: "memory \<Rightarrow> afs" where
  "abs_fs m p = map_option entry_of (node_at m p)"

lemma abs_fs_None [simp]: "abs_fs m p = None \<longleftrightarrow> map_of (m_nodes m) p = None"
  by (simp add: abs_fs_def node_at_def)

lemma abs_fs_absent: "map_of (m_nodes m) p = None \<Longrightarrow> abs_fs m p = None"
  by simp

lemma abs_fs_Some: "map_of (m_nodes m) p = Some c \<Longrightarrow> abs_fs m p = Some (entry_of (the_node m c))"
  by (simp add: abs_fs_def node_at_def)

lemma entry_of_DirE [simp]: "entry_of n = DirE \<longleftrightarrow> mode_is_dir (n_mode n)"
  by (simp add: entry_of_def)

lemma abs_fs_DirE: "abs_fs m p = Some DirE \<longleftrightarrow> is_dir_at m p"
  by (auto simp: abs_fs_def is_dir_at_def entry_of_def split: option.splits)

lemma spec_parent_abs: "valid name \<Longrightarrow> spec_parent (abs_fs m) name = mem_parent m name"
  using valid_path_dir [of name]
  by (auto simp: spec_parent_def mem_parent_def mem_lookup_def abs_fs_def node_at_def entry_of_def
      split: option.splits entry.splits if_splits)

lemma dom_abs_fs: "dom (abs_fs m) = dom (map_of (m_nodes m))"
  by (simp add: dom_def)

lemma spec_full_abs: "names_inv m \<Longrightarrow> spec_full (abs_fs m) = (max_nodes \<le> length (m_nodes m))"
proof -
  assume names: "names_inv m"
  have "dom (abs_fs m) = set (map fst (m_nodes m))"
    by (simp add: dom_abs_fs dom_map_of_conv_image_fst)
  then have "card (dom (abs_fs m)) = length (m_nodes m)"
    using distinct_card [OF names_dist [OF names]] by simp
  then show ?thesis by (simp add: spec_full_def)
qed

lemma spec_has_child_abs: "names_inv m \<Longrightarrow> spec_has_child (abs_fs m) name = has_child m name"
  by (auto simp: spec_has_child_def has_child_iff node_at_def)

lemma abs_fs_wf:
  assumes "mem_inv m"
  shows "wf_afs (abs_fs m)"
  unfolding wf_afs_def
proof (intro conjI allI impI)
  note parts = mem_inv_parts [OF assms]
  show "finite (dom (abs_fs m))" by (simp add: dom_abs_fs finite_dom_map_of)
  show "abs_fs m ''.'' = Some DirE" using parts(2) by (simp add: abs_fs_DirE tree_inv_def)
  fix p assume "abs_fs m p \<noteq> None"
  then show "valid p" "abs_fs m (path_dir p) = Some DirE"
    using parts(1,2) named_ptr(3) [OF parts(1), of p]
    by (auto simp: abs_fs_DirE tree_inv_def node_at_def)
qed

lemma abs_fs_link_new:
  assumes "names_inv m" "newNode now md m = (p, m')" "map_of (m_nodes m) name = None"
  shows "abs_fs (m'\<lparr>m_nodes := AList.update name p (m_nodes m')\<rparr>) =
    (abs_fs m)(name \<mapsto> if mode_is_dir md then DirE else FileE [])"
  using newNode_result(8,9) [OF assms(2)]
  by (simp add: fun_eq_iff abs_fs_def node_at_link_new [OF assms] entry_of_def)

lemma Mkdir_refines:
  assumes inv: "mem_inv m"
  shows "map_prod id abs_fs (mem_Mkdir now name perm m) = spec_mkdir name (abs_fs m)"
proof (cases "valid name \<and> map_of (m_nodes m) name = None \<and> mem_parent m name = None
    \<and> length (m_nodes m) < max_nodes")
  case True
  note names = mem_inv_parts(1) [OF inv]
  obtain p m' where new: "newNode now (ModeDir OR mode_perm perm) m = (p, m')" by fastforce
  show ?thesis
    using True new abs_fs_link_new [OF names new]
    by (simp add: mem_Mkdir_def spec_mkdir_def spec_parent_abs spec_full_abs [OF names])
next
  case False
  then show ?thesis
    using spec_full_abs [OF mem_inv_parts(1) [OF inv]]
    by (auto simp: mem_Mkdir_def spec_mkdir_def spec_parent_abs split: option.splits)
qed

lemma abs_fs_unlink:
  assumes "names_inv m" "\<And>q. map_of ns q \<noteq> Some d" "d < length (m_heap m)"
  shows "abs_fs ((unlink d m)\<lparr>m_nodes := ns\<rparr>) = abs_fs (m\<lparr>m_nodes := ns\<rparr>)"
proof
  fix q
  show "abs_fs ((unlink d m)\<lparr>m_nodes := ns\<rparr>) q = abs_fs (m\<lparr>m_nodes := ns\<rparr>) q"
    using assms(2) [of q] assms(3)
    by (cases "map_of ns q") (auto simp: abs_fs_def node_at_def the_node_unlink)
qed

lemma Remove_refines:
  assumes inv: "mem_inv m"
  shows "map_prod id abs_fs (mem_Remove name m) = spec_remove name (abs_fs m)"
proof (cases "mem_lookup m name")
  case (Inl e)
  then show ?thesis
    by (auto simp: mem_Remove_def spec_remove_def mem_lookup_def split: if_splits option.splits)
next
  case (Inr p)
  note names = mem_inv_parts(1) [OF inv]
  from Inr have p: "valid name" "map_of (m_nodes m) name = Some p" by (simp_all add: lookup_map_of)
  have out: "map_of (AList.delete name (m_nodes m)) q \<noteq> Some p" for q
    using named_inj [OF names p(2), of q] by (auto simp: map_of_delete)
  have "abs_fs (m\<lparr>m_nodes := AList.delete name (m_nodes m)\<rparr>) = (abs_fs m)(name := None)"
    by (simp add: fun_eq_iff abs_fs_def node_at_def map_of_delete)
  then have "abs_fs ((unlink p m)\<lparr>m_nodes := AList.delete name (m_nodes m)\<rparr>) = (abs_fs m)(name := None)"
    using abs_fs_unlink [OF names out named_ptr(1) [OF names p(2)]] by simp
  then show ?thesis
    using p Inr spec_has_child_abs [OF names, of name]
    by (simp add: mem_Remove_def spec_remove_def unlink_nodes_commute abs_fs_Some)
qed

lemma spec_clash_abs:
  assumes "names_inv m" "map_of (m_nodes m) old = Some p"
  shows "spec_clash (abs_fs m) old new = rename_clash (the_node m p) new m"
  using assms spec_has_child_abs [OF assms(1), of new]
  by (auto simp: spec_clash_def rename_clash_def abs_fs_def node_at_def entry_of_def Let_def
      split: option.splits entry.splits if_splits)

lemma Rename_refines:
  assumes inv: "mem_inv m"
  shows "map_prod id abs_fs (mem_Rename old new m) = spec_rename old new (abs_fs m)"
proof -
  note names = mem_inv_parts(1) [OF inv]
  have err: "fst (mem_Rename old new m) = fst (spec_rename old new (abs_fs m))"
    using spec_clash_abs [OF names, of old _ new]
    by (auto simp: mem_Rename_def spec_rename_def mem_lookup_def spec_parent_abs moves_def Let_def
        split: option.splits)
  have "abs_fs (snd (mem_Rename old new m)) = snd (spec_rename old new (abs_fs m))"
  proof (cases "fst (mem_Rename old new m) = None \<and> old \<noteq> new")
    case True
    then have "node_at (snd (mem_Rename old new m)) = rename_map old new (node_at m)"
      using Rename_node_at [OF inv] by blast
    then have "abs_fs (snd (mem_Rename old new m)) = rename_map old new (abs_fs m)"
      by (simp add: fun_eq_iff abs_fs_def rename_map_def)
    moreover have "snd (spec_rename old new (abs_fs m)) = rename_map old new (abs_fs m)"
      using True err by (auto simp: spec_rename_def split: if_splits option.splits)
    ultimately show ?thesis by simp
  next
    case False
    then have "snd (mem_Rename old new m) = m"
      by (auto simp: mem_Rename_def Let_def split: sum.splits option.splits if_splits)
    moreover have "snd (spec_rename old new (abs_fs m)) = abs_fs m"
      using False err by (auto simp: spec_rename_def split: if_splits option.splits)
    ultimately show ?thesis by simp
  qed
  with err show ?thesis by (cases "mem_Rename old new m"; cases "spec_rename old new (abs_fs m)") simp
qed

interpretation mem: write_fs mem_inv abs_fs "mem_Mkdir now" mem_Remove mem_Rename for now
  by unfold_locales
    (simp_all add: abs_fs_wf Mkdir_inv Remove_inv Rename_inv Mkdir_refines Remove_refines Rename_refines)

end
