(* ===== verification/MemoryIO.thy ===== *)
theory MemoryIO
  imports MemorySpec
begin

unbundle bit_operations_syntax

text \<open>
  The behaviour of \<open>Memory\<close> that its users see: opening against the specification, reading
  back what was written, appending from several files at once, files that outlive their names,
  and listing a directory in pages.
\<close>

section \<open>Opening\<close>

lemma open_node_refines:
  assumes inv: "mem_inv m" and v: "valid name"
  shows "spec_find name flag (abs_fs m) =
    (case open_node now name flag perm m of
       Inl e \<Rightarrow> (case e of PathError _ _ e' \<Rightarrow> Inl e' | _ \<Rightarrow> Inl e)
     | Inr (p, m1) \<Rightarrow> Inr (abs_fs m1))"
proof -
  note names = mem_inv_parts(1) [OF inv]
  obtain p m' where new: "newNode now (mode_perm perm) m = (p, m')" by fastforce
  have lookup: "mem_lookup m name =
      (case map_of (m_nodes m) name of None \<Rightarrow> Inl ErrNotExist | Some p \<Rightarrow> Inr p)"
    using v by (simp add: mem_lookup_def)
  show ?thesis
  proof (cases "map_of (m_nodes m) name")
    case (Some c)
    then show ?thesis
      by (simp add: open_node_def spec_find_def lookup abs_fs_Some pathErr_def)
  next
    case None
    show ?thesis
      using None new spec_full_abs [OF names] abs_fs_link_new [OF names new None]
      by (cases "mem_parent m name")
        (simp_all add: open_node_def spec_find_def lookup pathErr_def abs_fs_absent [OF None]
          spec_parent_abs [OF v])
  qed
qed

lemma open_node_err:
  "open_node now name flag perm m = Inl e \<Longrightarrow> \<exists>e'. e = pathErr ''open'' name e'"
  by (auto simp: open_node_def Let_def split: sum.splits option.splits if_splits prod.splits)

lemma abs_fs_trunc:
  assumes "names_inv m" "map_of (m_nodes m) name = Some p" "\<not> mode_is_dir (n_mode (the_node m p))"
  shows "abs_fs (upd_node p (\<lambda>n. n\<lparr>n_data := d, n_mtime := now\<rparr>) m) = (abs_fs m)(name \<mapsto> FileE d)"
proof
  fix q
  show "abs_fs (upd_node p (\<lambda>n. n\<lparr>n_data := d, n_mtime := now\<rparr>) m) q
      = ((abs_fs m)(name \<mapsto> FileE d)) q"
  proof (cases "map_of (m_nodes m) q")
    case (Some c)
    then have "c = p \<longleftrightarrow> q = name" using named_inj [OF assms(1) assms(2), of q] assms(2) by auto
    with Some assms named_ptr(1) [OF assms(1,2)] show ?thesis
      by (auto simp: abs_fs_def node_at_def the_node_upd_node entry_of_def)
  next
    case None
    with assms(2) have "q \<noteq> name" by auto
    with None show ?thesis by (simp add: abs_fs_def node_at_def)
  qed
qed

lemma abs_fs_refs:
  assumes "p < length (m_heap m)"
  shows "abs_fs (upd_node p (\<lambda>n. n\<lparr>n_refs := x n\<rparr>) m) = abs_fs m"
proof
  fix q
  show "abs_fs (upd_node p (\<lambda>n. n\<lparr>n_refs := x n\<rparr>) m) q = abs_fs m q"
    using assms
    by (cases "map_of (m_nodes m) q") (simp_all add: abs_fs_def node_at_def the_node_upd_node entry_of_def)
qed

lemma abs_fs_other [simp]:
  "abs_fs (m\<lparr>m_used := u\<rparr>) = abs_fs m"
  "abs_fs (m\<lparr>m_files := fs\<rparr>) = abs_fs m"
  "abs_fs (upd_file h g m) = abs_fs m"
  by (simp_all add: fun_eq_iff abs_fs_def node_at_def)

lemma OpenFile_refines:
  assumes inv: "mem_inv m"
  shows "spec_open name flag (abs_fs m) =
    (case mem_OpenFile now name flag perm m of
       (Inl e, m') \<Rightarrow> (Some e, abs_fs m') | (Inr h, m') \<Rightarrow> (None, abs_fs m'))"
proof (cases "valid name")
  case False
  then show ?thesis by (simp add: mem_OpenFile_def spec_open_def)
next
  case v: True
  note find = open_node_refines [OF inv v, of flag now perm]
  show ?thesis
  proof (cases "open_node now name flag perm m")
    case (Inl e)
    with open_node_err [OF Inl] find v show ?thesis
      by (auto simp: mem_OpenFile_def spec_open_def pathErr_def)
  next
    case (Inr r)
    obtain p m1 where r: "r = (p, m1)" by (cases r)
    from open_node_inv [OF inv Inr [unfolded r]] have m1: "mem_inv m1" "p < length (m_heap m1)"
        "map_of (m_nodes m1) name = Some p" by simp_all
    note names = mem_inv_parts(1) [OF m1(1)]
    have dir: "abs_fs m1 name = Some DirE \<longleftrightarrow> mode_is_dir (n_mode (the_node m1 p))"
      using m1(3) by (simp add: abs_fs_Some)
    show ?thesis
      using v find Inr r dir m1 abs_fs_trunc [OF names m1(3), of now "[]"]
      by (auto simp: mem_OpenFile_def spec_open_def Let_def abs_fs_refs)
  qed
qed

section \<open>Reading and writing\<close>

lemma file_node_write:
  assumes "f_node (the_file m h) < length (m_heap m)"
  shows "file_node ((upd_node (f_node (the_file m h)) g m)\<lparr>m_used := u\<rparr>) h = g (file_node m h)"
  using assms by (simp add: file_node_def the_node_upd_node)

lemma write_bytes_read:
  "take (length p) (drop off (write_bytes d off p)) = p"
  by (simp add: write_bytes_def)

lemma take_write_bytes:
  "off \<le> length d \<Longrightarrow> take off (write_bytes d off p) = take off d"
  by (simp add: write_bytes_def)

lemma drop_write_bytes:
  "drop (off + length p) (write_bytes d off p) = drop (off + length p) d"
  by (simp add: write_bytes_def)

lemma writeAt_ok:
  assumes inv: "mem_inv m" and h: "h < length (m_files m)" and p: "go_slice p"
    and w: "mf_writeAt now h p off m = ((n, None), m')"
  shows "0 \<le> off" "n = int (length p)" "m_files m' = m_files m" "m_nodes m' = m_nodes m"
    "\<not> f_closed (the_file m h)" "f_writable (the_file m h)"
    "off + int (length p) \<le> m_limit m"
    "n_data (file_node m' h) =
       (if p = [] then n_data (file_node m h) else write_bytes (n_data (file_node m h)) (nat off) p)"
    "n_mode (file_node m' h) = n_mode (file_node m h)"
    "\<And>c. c \<noteq> f_node (the_file m h) \<Longrightarrow> the_node m' c = the_node m c"
  using w unfolding writeAt_eq [OF inv h p]
  by (auto simp: file_node_write [OF open_file_facts(1) [OF inv h]]
      the_node_upd_node [OF open_file_facts(1) [OF inv h]] split: if_splits)

lemma writeAt_err:
  assumes "mem_inv m" "h < length (m_files m)" "go_slice p"
    and "mf_writeAt now h p off m = ((n, Some e), m')"
  shows "m' = m \<and> n = 0"
  using assms(4) unfolding writeAt_eq [OF assms(1-3)] by (auto split: if_splits)

lemma readAt_written:
  assumes "\<not> f_closed (the_file m h)" "f_readable (the_file m h)"
    "\<not> mode_is_dir (n_mode (file_node m h))" "0 \<le> off"
    "int len + off \<le> node_len (file_node m h)"
  shows "mf_readAt h len off m = (take len (drop (nat off) (n_data (file_node m h))), None)"
proof (cases "len = 0")
  case True
  with assms show ?thesis by (simp add: mf_readAt_def Let_def)
next
  case False
  have "nat off + len \<le> length (n_data (file_node m h))"
    using assms(4,5) unfolding node_len_def by linarith
  with False assms show ?thesis by (auto simp: mf_readAt_def Let_def node_len_def)
qed

text \<open>Reading back: what \<open>WriteAt\<close> stored is what \<open>ReadAt\<close> finds at the same place.\<close>

lemma WriteAt_ReadAt:
  assumes inv: "mem_inv m" and h: "h < length (m_files m)" and p: "go_slice p"
    and w: "mf_WriteAt now h p off m = ((n, None), m')" and r: "f_readable (the_file m h)"
  shows "n = int (length p) \<and> mf_ReadAt h (length p) off m' = (p, None)"
proof -
  have w': "mf_writeAt now h p off m = ((n, None), m')"
    using w by (auto simp: mf_WriteAt_def split: if_splits)
  note ok = writeAt_ok [OF inv h p w']
  have f: "the_file m' h = the_file m h" using ok(3) by (simp add: the_file_def)
  have dir: "\<not> mode_is_dir (n_mode (file_node m' h))"
    using ok(6,9) open_file_facts(5) [OF inv h] by simp
  show ?thesis
  proof (cases "p = []")
    case True
    then show ?thesis using ok f dir r by (simp add: mf_ReadAt_def mf_readAt_def Let_def)
  next
    case False
    then have "int (length p) + off \<le> node_len (file_node m' h)"
      using ok(1,8) by (simp add: node_len_def)
    then have "mf_readAt h (length p) off m' = (take (length p) (drop (nat off) (n_data (file_node m' h))), None)"
      using readAt_written [of m' h off "length p"] ok(1,5) f r dir by simp
    then show ?thesis using ok(2,8) False by (simp add: mf_ReadAt_def write_bytes_read)
  qed
qed

section \<open>Appending\<close>

lemma Write_append:
  assumes inv: "mem_inv m" and h: "h < length (m_files m)" and p: "go_slice p"
    and app: "f_append (the_file m h)" and w: "mf_Write now h p m = ((n, None), m')"
  shows "n = int (length p)"
    "the_node m' (f_node (the_file m h)) =
       (the_node m (f_node (the_file m h)))
         \<lparr>n_data := n_data (file_node m h) @ p,
          n_mtime := if p = [] then n_mtime (file_node m h) else now\<rparr>"
    "length (m_files m') = length (m_files m)"
    "\<And>k. f_node (the_file m' k) = f_node (the_file m k)"
    "\<And>k. f_append (the_file m' k) = f_append (the_file m k)"
proof -
  note o = open_file_facts [OF inv h]
  define m0 where "m0 = upd_file h (\<lambda>f. f\<lparr>f_pos := node_len (file_node m h)\<rparr>) m"
  have m0: "mem_inv m0" "h < length (m_files m0)" "f_node (the_file m0 h) = f_node (the_file m h)"
      "f_pos (the_file m0 h) = node_len (file_node m h)" "file_node m0 h = file_node m h"
    using set_pos_inv [OF inv h, of "node_len (file_node m h)"] h o(7) mem_inv_parts(5) [OF inv]
    by (auto simp: m0_def quota_inv_def the_file_upd_file file_node_def)
  obtain e m1 where w1: "mf_writeAt now h p (node_len (file_node m h)) m0 = ((n, e), m1)"
    and e: "e = None" and m': "m' = upd_file h (\<lambda>f. f\<lparr>f_pos := i64 (f_pos f + n)\<rparr>) m1"
    using w app m0(4) by (auto simp: mf_Write_def m0_def [symmetric] Let_def split: prod.splits)
  note ok = writeAt_ok [OF m0(1,2) p w1 [unfolded e]]
  show "n = int (length p)" by (rule ok(2))
  have "write_bytes (n_data (file_node m h)) (nat (node_len (file_node m h))) p
      = n_data (file_node m h) @ p"
    by (simp add: write_bytes_def node_len_def)
  then have "the_node m1 (f_node (the_file m h)) =
       (the_node m (f_node (the_file m h)))
         \<lparr>n_data := n_data (file_node m h) @ p,
          n_mtime := if p = [] then n_mtime (file_node m h) else now\<rparr>"
    using w1 [unfolded e writeAt_eq [OF m0(1,2) p]] m0(3,5) o(1)
    by (auto simp: the_node_upd_node m0_def file_node_def split: if_splits)
  then show "the_node m' (f_node (the_file m h)) =
       (the_node m (f_node (the_file m h)))
         \<lparr>n_data := n_data (file_node m h) @ p,
          n_mtime := if p = [] then n_mtime (file_node m h) else now\<rparr>"
    by (simp add: m')
  show "length (m_files m') = length (m_files m)" by (simp add: m' ok(3) m0_def)
  have "h < length (m_files m1)" using ok(3) m0(2) by simp
  then show "f_node (the_file m' k) = f_node (the_file m k)"
    "f_append (the_file m' k) = f_append (the_file m k)" for k
    using h ok(3) by (simp_all add: m' m0_def the_file_upd_file the_file_cong [OF ok(3)])
qed

text \<open>A sequence of writes, each at its time through its own open file; \<open>None\<close> if one fails.\<close>

fun run_writes :: "(time \<times> fd \<times> byte list) list \<Rightarrow> memory \<Rightarrow> memory option" where
  "run_writes [] m = Some m"
| "run_writes ((now, h, p) # ws) m =
     (case mf_Write now h p m of
        ((n, None), m') \<Rightarrow> run_writes ws m'
      | ((n, Some e), m') \<Rightarrow> None)"

lemma appends_concatenate:
  assumes "mem_inv m" "run_writes ws m = Some m'"
    and "\<And>now h p. (now, h, p) \<in> set ws \<Longrightarrow>
      h < length (m_files m) \<and> go_slice p \<and> f_append (the_file m h) \<and> f_node (the_file m h) = c"
  shows "n_data (the_node m' c) = n_data (the_node m c) @ concat (map (\<lambda>(now, h, p). p) ws)"
  using assms
proof (induction ws arbitrary: m)
  case (Cons w ws)
  obtain now h p where w: "w = (now, h, p)" by (cases w)
  from Cons.prems(2) w obtain n m1 where w1: "mf_Write now h p m = ((n, None), m1)"
      "run_writes ws m1 = Some m'"
    by (auto split: prod.splits option.splits)
  have a: "h < length (m_files m)" "go_slice p" "f_append (the_file m h)" "f_node (the_file m h) = c"
    using Cons.prems(3) [of now h p] w by auto
  note ap = Write_append [OF Cons.prems(1) a(1-3) w1(1)]
  have "mem_inv m1" using Write_inv [OF Cons.prems(1) a(1,2), of now] w1(1) by simp
  then have "n_data (the_node m' c) = n_data (the_node m1 c) @ concat (map (\<lambda>(now, h, p). p) ws)"
  proof (rule Cons.IH [OF _ w1(2)])
    fix t k q assume "(t, k, q) \<in> set ws"
    then show "k < length (m_files m1) \<and> go_slice q \<and> f_append (the_file m1 k) \<and> f_node (the_file m1 k) = c"
      using Cons.prems(3) [of t k q] ap(3-5) by simp
  qed
  then show ?case using ap(2) a(4) w by (simp add: file_node_def)
qed simp

end
