(* ===== verification/Paging.thy ===== *)
theory Paging
  imports Prelude
begin

text \<open>
  The contract of \<open>fs.ReadDirFile\<close>, which both the directories of \<open>Memory\<close> and the command
  directory implement: a listing is handed out in pages and ends with \<open>io.EOF\<close>.  The locale
  \<open>pager\<close> states it for a state \<open>'s\<close>, and what a caller who reads page by page gets
  is proved once, inside it.
\<close>

text \<open>
  The loop of such a caller: the pages and the error that ended it (\<open>None\<close> when the fuel was
  used up first).
\<close>

primrec read_pages :: "nat \<Rightarrow> (int \<Rightarrow> 's \<Rightarrow> 'e list res \<times> 's) \<Rightarrow> int \<Rightarrow> 's \<Rightarrow> 'e list list \<times> goerr option" where
  "read_pages 0 rd n s = ([], None)"
| "read_pages (Suc k) rd n s =
     (case rd n s of
        (Inl e, s') \<Rightarrow> ([], Some e)
      | (Inr es, s') \<Rightarrow> let (ps, e) = read_pages k rd n s' in (es # ps, e))"

locale pager =
  fixes ok :: "'s \<Rightarrow> bool"
    and rest :: "'s \<Rightarrow> 'e list"
    and rd :: "int \<Rightarrow> 's \<Rightarrow> 'e list res \<times> 's"
  assumes page: "ok s \<Longrightarrow> 0 < n \<Longrightarrow> rest s \<noteq> [] \<Longrightarrow>
      fst (rd n s) = Inr (take (nat n) (rest s)) \<and> ok (snd (rd n s)) \<and>
      rest (snd (rd n s)) = drop (nat n) (rest s)"
    and last_page: "ok s \<Longrightarrow> 0 < n \<Longrightarrow> rest s = [] \<Longrightarrow> fst (rd n s) = Inl EOF"
    and whole: "ok s \<Longrightarrow> n \<le> 0 \<Longrightarrow>
      fst (rd n s) = Inr (rest s) \<and> ok (snd (rd n s)) \<and> rest (snd (rd n s)) = []"
begin

lemma pages_complete:
  assumes "ok s" "0 < n" "length (rest s) < k"
  shows "\<exists>ps. read_pages k rd n s = (ps, Some EOF) \<and> concat ps = rest s \<and>
    (\<forall>p \<in> set ps. p \<noteq> [] \<and> int (length p) \<le> n)"
  using assms
proof (induction k arbitrary: s)
  case (Suc k)
  obtain r s' where r: "rd n s = (r, s')" by fastforce
  show ?case
  proof (cases "rest s = []")
    case True
    then show ?thesis using last_page [OF Suc.prems(1,2)] r by simp
  next
    case False
    note p = page [OF Suc.prems(1,2) False, unfolded r fst_conv snd_conv]
    have n: "0 < nat n" using Suc.prems(2) by simp
    have "length (rest s') < k" using p False n Suc.prems(3) by (cases "rest s") auto
    then obtain ps where ps: "read_pages k rd n s' = (ps, Some EOF)" "concat ps = rest s'"
        "\<forall>p \<in> set ps. p \<noteq> [] \<and> int (length p) \<le> n"
      using Suc.IH [of s'] p Suc.prems(2) by blast
    have "read_pages (Suc k) rd n s = (take (nat n) (rest s) # ps, Some EOF)"
      using p ps(1) r by simp
    moreover have "concat (take (nat n) (rest s) # ps) = rest s" using p ps(2) by simp
    ultimately show ?thesis using ps(3) False n Suc.prems(2) by auto
  qed
qed simp

text \<open>Reading everything at once gives the same entries.\<close>

lemma whole_is_pages:
  assumes "ok s" "0 < n" "length (rest s) < k"
  shows "fst (rd 0 s) = Inr (concat (fst (read_pages k rd n s)))"
  using pages_complete [OF assms] whole [OF assms(1), of 0] by auto

end

end
