(* ===== verification/MemoryDir.thy ===== *)
theory MemoryDir
  imports MemoryIO Paging "HOL-Library.Multiset"
begin

text \<open>
  Directories and the life of inodes: what \<open>ReadDir\<close> lists, that a handle follows its node
  and not the name it was opened by, that paging through a directory yields every entry once,
  and that a removed file lives exactly as long as it is open.
\<close>

section \<open>The name of a node\<close>

text \<open>
  Go leaves the order of a map's iteration open; since no node has two names, every order finds
  the same name.
\<close>

lemma find_SomeD: "find P xs = Some x \<Longrightarrow> x \<in> set xs \<and> P x"
  by (induction xs) (auto split: if_splits)

lemma name_of_node_iff:
  assumes "names_inv m"
  shows "name_of_node m c = Some p \<longleftrightarrow> map_of (m_nodes m) p = Some c"
proof
  assume "name_of_node m c = Some p"
  then obtain x where x: "find (\<lambda>(q, d). d = c) (m_nodes m) = Some x" "fst x = p"
    by (auto simp: name_of_node_def)
  then have "x \<in> set (m_nodes m)" "snd x = c"
    using find_SomeD [OF x(1)] by (auto simp: case_prod_beta)
  then have "(p, c) \<in> set (m_nodes m)" using x(2) by (metis prod.collapse)
  then show "map_of (m_nodes m) p = Some c" using names_dist [OF assms] by simp
next
  assume p: "map_of (m_nodes m) p = Some c"
  then have "(p, c) \<in> set (m_nodes m)" by (rule map_of_SomeD)
  then have "find (\<lambda>(q, d). d = c) (m_nodes m) \<noteq> None"
    by (auto simp: find_None_iff)
  then obtain x where x: "find (\<lambda>(q, d). d = c) (m_nodes m) = Some x" by blast
  then have "x \<in> set (m_nodes m)" "snd x = c"
    using find_SomeD [OF x] by (auto simp: case_prod_beta)
  then have "map_of (m_nodes m) (fst x) = Some c"
    using names_dist [OF assms] by (metis map_of_is_SomeI prod.collapse)
  with p have "fst x = p" by (rule named_inj [OF assms, rotated])
  with x show "name_of_node m c = Some p" by (simp add: name_of_node_def)
qed

section \<open>Listing\<close>

lemma child_elems:
  assumes "valid q" "q \<noteq> name" "path_dir q = name"
  obtains cs c where "good_elems cs" "good_elem c" "q = name_of (cs @ [c])" "name = name_of cs"
    "path_base q = c"
proof -
  from assms(1) obtain ds where ds: "good_elems ds" "q = name_of ds" by (rule valid_elems)
  show thesis
  proof (cases ds rule: rev_cases)
    case Nil
    with ds assms show thesis by simp
  next
    case (snoc cs c)
    with ds assms that [of cs c] show thesis by simp
  qed
qed

lemma child_base_inj:
  assumes "valid q" "q \<noteq> name" "path_dir q = name" "valid r" "r \<noteq> name" "path_dir r = name"
    and base: "path_base q = path_base r"
  shows "q = r"
proof -
  obtain cs c where q: "good_elems cs" "good_elem c" "q = name_of (cs @ [c])" "name = name_of cs"
      "path_base q = c"
    using child_elems [OF assms(1-3)] by metis
  obtain ds d where r: "good_elems ds" "good_elem d" "r = name_of (ds @ [d])" "name = name_of ds"
      "path_base r = d"
    using child_elems [OF assms(4-6)] by metis
  have "cs = ds" using name_of_inj [OF q(1) r(1)] q(4) r(4) by simp
  with q r base show ?thesis by simp
qed

definition children :: "memory \<Rightarrow> string \<Rightarrow> (string \<times> ptr) list" where
  "children m name = filter (\<lambda>(q, c). q \<noteq> name \<and> path_dir q = name) (m_nodes m)"

lemma readDir_result:
  "mem_readDir m name = Inr es \<longleftrightarrow>
     valid name \<and> is_dir_at m name \<and>
     es = sort_key fi_name (map (\<lambda>(q, c). infoFor q (the_node m c)) (children m name))"
  by (auto simp: mem_readDir_def mem_lookup_def is_dir_at_iff children_def split: option.splits)

lemma fi_name_infoFor [simp]: "fi_name (infoFor q n) = path_base q"
  by (simp add: infoFor_def)

lemma children_in: "names_inv m \<Longrightarrow> (q, c) \<in> set (children m name) \<longleftrightarrow>
    map_of (m_nodes m) q = Some c \<and> q \<noteq> name \<and> path_dir q = name"
  using names_dist [of m] by (auto simp: children_def)

lemma readDir_sorted:
  assumes names: "names_inv m" and r: "mem_readDir m name = Inr es"
  shows "sorted (map fi_name es)" "distinct (map fi_name es)"
    "set es = {infoFor q n | q n. node_at m q = Some n \<and> q \<noteq> name \<and> path_dir q = name}"
proof -
  let ?cs = "children m name"
  let ?es = "map (\<lambda>(q, c). infoFor q (the_node m c)) ?cs"
  have es: "es = sort_key fi_name ?es" using r by (simp add: readDir_result)
  then show "sorted (map fi_name es)" by simp
  have "set es = set ?es" using es by simp
  also have "\<dots> = {infoFor q n | q n. node_at m q = Some n \<and> q \<noteq> name \<and> path_dir q = name}"
    using children_in [OF names, of _ _ name] by (force simp: node_at_def)
  finally show "set es = {infoFor q n | q n. node_at m q = Some n \<and> q \<noteq> name \<and> path_dir q = name}" .
  have val: "valid q \<and> q \<noteq> name \<and> path_dir q = name" if "(q, c) \<in> set ?cs" for q c
    using that children_in [OF names] named_ptr(3) [OF names] by blast
  have "inj_on path_base (fst ` set ?cs)"
  proof (rule inj_onI)
    fix q r assume qr: "q \<in> fst ` set ?cs" "r \<in> fst ` set ?cs" "path_base q = path_base r"
    then obtain c d where "(q, c) \<in> set ?cs" "(r, d) \<in> set ?cs" by auto
    with val have "valid q \<and> q \<noteq> name \<and> path_dir q = name" "valid r \<and> r \<noteq> name \<and> path_dir r = name"
      by blast+
    with qr(3) show "q = r" using child_base_inj by blast
  qed
  moreover have "distinct (map fst ?cs)"
    using names_dist [OF names] by (simp add: children_def distinct_map_filter)
  ultimately have d: "distinct (map path_base (map fst ?cs))"
    by (simp add: distinct_map comp_inj_on)
  have names_es: "map path_base (map fst ?cs) = map fi_name ?es" by auto
  have "mset (map fi_name es) = mset (map fi_name ?es)" using es by (simp only: mset_map mset_sort)
  from mset_eq_imp_distinct_iff [OF this] d show "distinct (map fi_name es)"
    unfolding names_es by blast
qed

section \<open>Paging\<close>

lemma ReadDir_page:
  assumes h: "h < length (m_files m)" and f: "the_file m h = f" "\<not> f_closed f"
    and es: "f_entries f = Some es" "f_dirPos f < length es" and n: "0 < n"
  shows "mf_ReadDir h n m =
    (Inr (take (nat n) (drop (f_dirPos f) es)),
     upd_file h (\<lambda>g. f\<lparr>f_dirPos := min (f_dirPos f + nat n) (length es)\<rparr>) m)"
proof -
  define end' where "end' = (if 0 < n \<and> n < int (length es) - int (f_dirPos f)
                                then f_dirPos f + nat n else length es)"
  have e: "end' = min (f_dirPos f + nat n) (length es)"
    using es(2) n by (auto simp: end'_def)
  have same: "f\<lparr>f_entries := Some es\<rparr> = f" using es(1) by (cases f) simp
  have upd: "upd_file h (\<lambda>f. f\<lparr>f_dirPos := d\<rparr>) (upd_file h (\<lambda>f. f\<lparr>f_entries := Some es\<rparr>) m)
      = upd_file h (\<lambda>g. f\<lparr>f_dirPos := d\<rparr>) m" for d
    using h f same by (simp add: upd_file_def the_file_def)
  have "take (end' - f_dirPos f) (drop (f_dirPos f) es) = take (nat n) (drop (f_dirPos f) es)"
    using e es(2) by (simp add: min_def)
  moreover have "mf_ReadDir h n m = (Inr (take (end' - f_dirPos f) (drop (f_dirPos f) es)),
      upd_file h (\<lambda>f. f\<lparr>f_dirPos := end'\<rparr>) (upd_file h (\<lambda>f. f\<lparr>f_entries := Some es\<rparr>) m))"
    using f es unfolding mf_ReadDir_def Let_def end'_def by simp
  ultimately show ?thesis unfolding upd by (simp add: e)
qed

lemma ReadDir_whole_rest:
  assumes h: "h < length (m_files m)" and f: "the_file m h = f" "\<not> f_closed f"
    and es: "f_entries f = Some es" "f_dirPos f \<le> length es" and n: "n \<le> 0"
  shows "fst (mf_ReadDir h n m) = Inr (drop (f_dirPos f) es)"
    "the_file (snd (mf_ReadDir h n m)) h = f\<lparr>f_dirPos := length es\<rparr>"
  using f es n h by (simp_all add: mf_ReadDir_def Let_def the_file_upd_file)

lemma ReadDir_end:
  assumes "the_file m h = f" "\<not> f_closed f" "f_entries f = Some es" "f_dirPos f = length es" "0 < n"
  shows "fst (mf_ReadDir h n m) = Inl EOF"
  using assms by (simp add: mf_ReadDir_def)

text \<open>The first call on a fresh handle lists the directory the node is named by now.\<close>

lemma ReadDir_fresh:
  assumes h: "h < length (m_files m)" and f: "\<not> f_closed (the_file m h)" "f_entries (the_file m h) = None"
    and nm: "name_of_node m (f_node (the_file m h)) = Some name" "mem_readDir m name = Inr es"
  shows "mf_ReadDir h n m = mf_ReadDir h n (upd_file h (\<lambda>f. f\<lparr>f_entries := Some es\<rparr>) m)"
  using h f nm unfolding mf_ReadDir_def Let_def
  by (simp add: the_file_upd_file, simp add: upd_file_def)

text \<open>What is left to list on an open handle, and when the handle is a directory that can be listed.\<close>

definition dir_listing :: "fd \<Rightarrow> memory \<Rightarrow> fileInfo list option" where
  "dir_listing h m =
     (case f_entries (the_file m h) of
        Some es \<Rightarrow> Some es
      | None \<Rightarrow>
          (case name_of_node m (f_node (the_file m h)) of
             None \<Rightarrow> None
           | Some name \<Rightarrow> (case mem_readDir m name of Inl e \<Rightarrow> None | Inr es \<Rightarrow> Some es)))"

definition dir_ok :: "fd \<Rightarrow> memory \<Rightarrow> bool" where
  "dir_ok h m = (h < length (m_files m) \<and> \<not> f_closed (the_file m h) \<and>
     (case dir_listing h m of None \<Rightarrow> False | Some es \<Rightarrow> f_dirPos (the_file m h) \<le> length es))"

definition dir_rest :: "fd \<Rightarrow> memory \<Rightarrow> fileInfo list" where
  "dir_rest h m = drop (f_dirPos (the_file m h)) (the (dir_listing h m))"

lemma dir_ok_cached:
  assumes "dir_ok h m"
  obtains m0 f es where "h < length (m_files m0)" "the_file m0 h = f" "\<not> f_closed f"
    "f_entries f = Some es" "f_dirPos f \<le> length es" "dir_rest h m = drop (f_dirPos f) es"
    "\<And>n. mf_ReadDir h n m = mf_ReadDir h n m0"
proof (cases "f_entries (the_file m h)")
  case (Some es)
  then show thesis using assms that [of m "the_file m h" es]
    by (simp add: dir_ok_def dir_listing_def dir_rest_def)
next
  case None
  then obtain name es where n: "name_of_node m (f_node (the_file m h)) = Some name"
      "mem_readDir m name = Inr es" "f_dirPos (the_file m h) \<le> length es"
      "h < length (m_files m)" "\<not> f_closed (the_file m h)"
    using assms by (auto simp: dir_ok_def dir_listing_def split: option.splits sum.splits)
  show thesis
    by (rule that [of "upd_file h (\<lambda>f. f\<lparr>f_entries := Some es\<rparr>) m" "(the_file m h)\<lparr>f_entries := Some es\<rparr>" es])
      (use n None ReadDir_fresh [OF n(4,5) None n(1,2)] in
        \<open>simp_all add: the_file_upd_file dir_rest_def dir_listing_def\<close>)
qed

lemma dir_ok_entries:
  "h < length (m_files m) \<Longrightarrow> \<not> f_closed (the_file m h) \<Longrightarrow> f_entries (the_file m h) = Some es \<Longrightarrow>
   f_dirPos (the_file m h) \<le> length es \<Longrightarrow> dir_ok h m \<and> dir_rest h m = drop (f_dirPos (the_file m h)) es"
  by (simp add: dir_ok_def dir_rest_def dir_listing_def)

interpretation memory_dir: pager "dir_ok h" "dir_rest h" "mf_ReadDir h" for h
proof (unfold_locales, goal_cases page eof whole)
  case (page m n)
  then obtain m0 f es where c: "h < length (m_files m0)" "the_file m0 h = f" "\<not> f_closed f"
      "f_entries f = Some es" "f_dirPos f \<le> length es" "dir_rest h m = drop (f_dirPos f) es"
      "mf_ReadDir h n m = mf_ReadDir h n m0"
    using dir_ok_cached [of h m] by metis
  with page have lt: "f_dirPos f < length es" by simp
  define m' where "m' = upd_file h (\<lambda>g. f\<lparr>f_dirPos := min (f_dirPos f + nat n) (length es)\<rparr>) m0"
  have r: "mf_ReadDir h n m = (Inr (take (nat n) (drop (f_dirPos f) es)), m')"
    using ReadDir_page [OF c(1-4) lt page(2)] c(7) by (simp add: m'_def)
  have "dir_ok h m' \<and> dir_rest h m' = drop (min (f_dirPos f + nat n) (length es)) es"
    using dir_ok_entries [of h m' es] c by (simp add: m'_def the_file_upd_file)
  moreover have "drop (min (f_dirPos f + nat n) (length es)) es = drop (nat n) (drop (f_dirPos f) es)"
    by (simp add: min_def add.commute)
  ultimately show ?case using r c(6) by simp
next
  case (eof m n)
  then obtain m0 f es where c: "the_file m0 h = f" "\<not> f_closed f"
      "f_entries f = Some es" "f_dirPos f \<le> length es" "dir_rest h m = drop (f_dirPos f) es"
      "mf_ReadDir h n m = mf_ReadDir h n m0"
    using dir_ok_cached [of h m] by metis
  then have "f_dirPos f = length es" using eof(3) by simp
  then show ?case using ReadDir_end [OF c(1-3) _ eof(2)] c(6) by simp
next
  case (whole m n)
  then obtain m0 f es where c: "h < length (m_files m0)" "the_file m0 h = f" "\<not> f_closed f"
      "f_entries f = Some es" "f_dirPos f \<le> length es" "dir_rest h m = drop (f_dirPos f) es"
      "mf_ReadDir h n m = mf_ReadDir h n m0"
    using dir_ok_cached [of h m] by metis
  note w = ReadDir_whole_rest [OF c(1-5) whole(2)]
  have "h < length (m_files (snd (mf_ReadDir h n m0)))"
    using c(1) by (simp add: mf_ReadDir_def Let_def split: option.splits sum.splits)
  then have "dir_ok h (snd (mf_ReadDir h n m0)) \<and> dir_rest h (snd (mf_ReadDir h n m0)) = []"
    using dir_ok_entries [of h "snd (mf_ReadDir h n m0)" es] w(2) c by simp
  then show ?case using w(1) c(6,7) by simp
qed

lemma dir_rest_fresh:
  assumes "h < length (m_files m)" "\<not> f_closed (the_file m h)"
    "f_entries (the_file m h) = None" "f_dirPos (the_file m h) = 0"
    "name_of_node m (f_node (the_file m h)) = Some name" "mem_readDir m name = Inr es"
  shows "dir_ok h m" "dir_rest h m = es"
  using assms by (simp_all add: dir_ok_def dir_rest_def dir_listing_def)

section \<open>Nodes outlive and follow names\<close>

lemma Rename_map_of:
  assumes inv: "mem_inv m" and ok: "fst (mem_Rename old new m) = None" "old \<noteq> new"
  shows "map_of (m_nodes (snd (mem_Rename old new m))) = rename_map old new (map_of (m_nodes m))"
    "m_files (snd (mem_Rename old new m)) = m_files m"
proof -
  obtain p where r: "valid old" "valid new" "old \<noteq> ''.''" "new \<noteq> ''.''"
      "map_of (m_nodes m) old = Some p" "\<not> moves old new"
      "rename_clash (the_node m p) new m = None"
    and res: "snd (mem_Rename old new m) =
       (case map_of (m_nodes m) new of None \<Rightarrow> m | Some d \<Rightarrow> unlink d m)
         \<lparr>m_nodes := move_nodes old new (m_nodes m)\<rparr>"
    using ok by (auto elim: Rename_success)
  note names = mem_inv_parts(1) [OF inv] and tree = mem_inv_parts(2) [OF inv]
  note free = nothing_below [OF names tree r(2,4) rename_clash_leaf [OF r(7)]]
  show "map_of (m_nodes (snd (mem_Rename old new m))) = rename_map old new (map_of (m_nodes m))"
    using map_of_move_nodes [OF names_dist [OF names]] r(5) free unfolding res by simp
  show "m_files (snd (mem_Rename old new m)) = m_files m"
    unfolding res by (simp split: option.splits)
qed

lemma Rename_follows:
  assumes inv: "mem_inv m" and ok: "fst (mem_Rename old new m) = None" "old \<noteq> new"
    and c: "map_of (m_nodes m) (old @ t) = Some c" "path_tail t"
  shows "name_of_node (snd (mem_Rename old new m)) c = Some (new @ t)"
proof -
  note names' = mem_inv_parts(1) [OF Rename_inv [OF inv, of old new]]
  have "map_of (m_nodes (snd (mem_Rename old new m))) (new @ t) = Some c"
    using c by (simp add: Rename_map_of(1) [OF inv ok] rename_map_def)
  then show ?thesis by (simp only: name_of_node_iff [OF names'])
qed

lemma ReadDir_whole:
  assumes "\<not> f_closed (the_file m h)" "f_entries (the_file m h) = None" "f_dirPos (the_file m h) = 0"
    "name_of_node m (f_node (the_file m h)) = Some name"
  shows "fst (mf_ReadDir h 0 m) = mem_ReadDir name m"
  using assms by (cases "mem_readDir m name") (simp_all add: mf_ReadDir_def mem_ReadDir_def Let_def)

lemma Remove_open_file:
  assumes inv: "mem_inv m" and h: "h < length (m_files m)" "\<not> f_closed (the_file m h)"
    and c: "map_of (m_nodes m) name = Some (f_node (the_file m h))"
    and ok: "fst (mem_Remove name m) = None"
  shows "file_node (snd (mem_Remove name m)) h = (file_node m h)\<lparr>n_linked := False\<rparr>"
    "m_used (snd (mem_Remove name m)) = m_used m"
    "m_files (snd (mem_Remove name m)) = m_files m"
    "map_of (m_nodes (snd (mem_Remove name m))) name = None"
proof -
  let ?c = "f_node (the_file m h)"
  note cl = open_file_facts(1) [OF inv h(1)]
  have refs: "n_refs (the_node m ?c) \<noteq> 0"
    using open_file_facts(6) [OF inv h] by (simp add: file_node_def)
  obtain p where "mem_lookup m name = Inr p"
    using ok by (auto simp: mem_Remove_def split: sum.splits)
  then have "mem_lookup m name = Inr ?c" using c by (simp add: lookup_map_of)
  then have res: "snd (mem_Remove name m) = (unlink ?c m)\<lparr>m_nodes := AList.delete name (m_nodes m)\<rparr>"
    using ok by (auto simp: mem_Remove_def unlink_nodes_commute split: if_splits)
  have un: "unlink ?c m = upd_node ?c (\<lambda>n. n\<lparr>n_linked := False\<rparr>) m"
    using refs cl by (simp add: unlink_def Let_def the_node_upd_node)
  show "file_node (snd (mem_Remove name m)) h = (file_node m h)\<lparr>n_linked := False\<rparr>"
    using cl by (simp add: res un file_node_def the_node_upd_node)
  show "m_used (snd (mem_Remove name m)) = m_used m" "m_files (snd (mem_Remove name m)) = m_files m"
    "map_of (m_nodes (snd (mem_Remove name m))) name = None"
    by (simp_all add: res un map_of_delete)
qed

lemma Close_last:
  assumes inv: "mem_inv m" and h: "h < length (m_files m)" "\<not> f_closed (the_file m h)"
    and dead: "\<not> n_linked (file_node m h)"
  shows "m_used (snd (mf_Close h m)) =
    (if n_refs (file_node m h) = 1 then m_used m - node_len (file_node m h) else m_used m)"
proof -
  note cl = open_file_facts(1) [OF inv h(1)]
  have "i64 (m_used m - node_len (file_node m h)) = m_used m - node_len (file_node m h)"
    unfolding file_node_def by (rule quota_wrap_drop [OF mem_inv_parts(5) [OF inv] cl])
  then show ?thesis
    using h dead cl by (simp add: mf_Close_def Let_def file_node_def the_node_upd_node node_len_def)
qed

end
