(* ===== verification/MemoryClaims.thy ===== *)
theory MemoryClaims
  imports MemoryDir
begin

unbundle bit_operations_syntax

text \<open>
  The properties of the in-memory filesystem, each followed by an instance on the state
  \<open>sample\<close>: a directory with a file open for reading and writing, a file opened for appending
  and the directory itself open.
\<close>

section \<open>A concrete state\<close>

definition sample0 :: memory where
  "sample0 =
     \<lparr>m_nodes = [(''.'', 0), (''d'', 1), (''d/a'', 2)], m_limit = 100, m_used = 0,
      m_heap =
        [\<lparr>n_data = [], n_mode = 0x800001ED, n_mtime = 0, n_atime = 0, n_id = 1, n_refs = 0, n_linked = True\<rparr>,
         \<lparr>n_data = [], n_mode = 0x800001ED, n_mtime = 1, n_atime = 1, n_id = 2, n_refs = 0, n_linked = True\<rparr>,
         \<lparr>n_data = [], n_mode = 0x1A4, n_mtime = 1, n_atime = 1, n_id = 3, n_refs = 1, n_linked = True\<rparr>],
      m_files =
        [\<lparr>f_node = 2, f_name = ''d/a'', f_pos = 0, f_readable = True, f_writable = True,
          f_append = False, f_closed = False, f_entries = None, f_dirPos = 0\<rparr>],
      m_nextInode = 3\<rparr>"

definition sample :: memory where
  "sample =
     \<lparr>m_nodes = [(''.'', 0), (''d'', 1), (''d/a'', 2), (''log'', 3)], m_limit = 100, m_used = 3,
      m_heap =
        [\<lparr>n_data = [], n_mode = 0x800001ED, n_mtime = 0, n_atime = 0, n_id = 1, n_refs = 0, n_linked = True\<rparr>,
         \<lparr>n_data = [], n_mode = 0x800001ED, n_mtime = 1, n_atime = 1, n_id = 2, n_refs = 1, n_linked = True\<rparr>,
         \<lparr>n_data = [1, 2, 3], n_mode = 0x1A4, n_mtime = 2, n_atime = 1, n_id = 3, n_refs = 1, n_linked = True\<rparr>,
         \<lparr>n_data = [], n_mode = 0x1A4, n_mtime = 3, n_atime = 3, n_id = 4, n_refs = 1, n_linked = True\<rparr>],
      m_files =
        [\<lparr>f_node = 2, f_name = ''d/a'', f_pos = 3, f_readable = True, f_writable = True,
          f_append = False, f_closed = False, f_entries = None, f_dirPos = 0\<rparr>,
         \<lparr>f_node = 3, f_name = ''log'', f_pos = 0, f_readable = False, f_writable = True,
          f_append = True, f_closed = False, f_entries = None, f_dirPos = 0\<rparr>,
         \<lparr>f_node = 1, f_name = ''d'', f_pos = 0, f_readable = True, f_writable = False,
          f_append = False, f_closed = False, f_entries = None, f_dirPos = 0\<rparr>],
      m_nextInode = 4\<rparr>"

lemma sample0_made:
  "sample0 = snd (mem_OpenFile 1 ''d/a'' (O_RDWR OR O_CREATE) 0x1A4
               (snd (mem_Mkdir 1 ''d'' 0x1ED (NewMemory 0 0 100))))"
  by code_simp

lemma sample_made:
  "sample = snd (mem_OpenFile 4 ''d'' O_RDONLY 0
              (snd (mem_OpenFile 3 ''log'' (O_WRONLY OR O_CREATE OR O_APPEND) 0x1A4
                 (snd (mf_Write 2 0 [1, 2, 3] sample0)))))"
  by code_simp

lemma sample_reach: "mem_reach sample"
proof -
  have "mem_reach sample0"
    unfolding sample0_made
    by (intro mem_reach.step [OF _ mem_step.open_file] mem_reach.step [OF _ mem_step.mkdir]
        mem_reach.new) (simp add: max_int64_def)
  moreover have "0 < length (m_files sample0)" by code_simp
  ultimately have "mem_reach (snd (mf_Write 2 0 [1, 2, 3] sample0))"
    by (rule mem_reach.step [OF _ mem_step.on_file [OF file_step.write_seq]]) (simp add: go_slice_def max_int64_def)
  then show ?thesis
    unfolding sample_made
    by (intro mem_reach.step [OF _ mem_step.open_file])
qed

lemma sample_inv: "mem_inv sample"
  by (rule mem_reach_inv [OF sample_reach])

lemma go_slice_bytes: "length p < 100 \<Longrightarrow> go_slice p"
  by (simp add: go_slice_def max_int64_def)

section \<open>Invariants of every reachable state\<close>

text \<open>C1: In every state of a memory filesystem that any sequence of operations can reach, the
  byte counter is exactly the number of bytes its nodes hold, and never exceeds the limit.\<close>

theorem quota_exact:
  assumes "mem_reach m"
  shows "m_used m = sum_list (map (\<lambda>n. int (length (n_data n))) (m_heap m)) \<and>
    0 \<le> m_used m \<and> m_used m \<le> m_limit m"
  using mem_inv_parts(5) [OF mem_reach_inv [OF assms]] used_nonneg
  by (simp add: quota_inv_def node_len_def [abs_def])

theorem quota_exact_witness:
  "m_used sample = sum_list (map (\<lambda>n. int (length (n_data n))) (m_heap sample)) \<and>
    0 \<le> m_used sample \<and> m_used sample \<le> m_limit sample"
  by (rule quota_exact [OF sample_reach])

text \<open>C2: In every reachable state the names form a tree: each name is a valid path, no node has
  two names, the root and the parent of every name are directories, and there are at most
  10000 names.\<close>

theorem names_form_tree:
  assumes "mem_reach m"
  shows "is_dir_at m ''.'' \<and>
    (\<forall>p q c. map_of (m_nodes m) p = Some c \<longrightarrow>
       valid p \<and> is_dir_at m (path_dir p) \<and> (map_of (m_nodes m) q = Some c \<longrightarrow> q = p)) \<and>
    card (dom (map_of (m_nodes m))) \<le> 10000"
proof -
  note parts = mem_inv_parts [OF mem_reach_inv [OF assms]]
  have "card (dom (map_of (m_nodes m))) = length (m_nodes m)"
    using distinct_card [OF names_dist [OF parts(1)]] by (simp add: dom_map_of_conv_image_fst)
  then show ?thesis
    using parts(1,2) named_ptr(3) [OF parts(1)] named_inj [OF parts(1)]
    by (auto simp: tree_inv_def node_at_def names_inv_def max_nodes_def)
qed

theorem names_form_tree_witness:
  "is_dir_at sample ''.'' \<and> valid ''d/a'' \<and> is_dir_at sample (path_dir ''d/a'') \<and>
    card (dom (map_of (m_nodes sample))) \<le> 10000"
proof -
  have "map_of (m_nodes sample) ''d/a'' = Some 2" by code_simp
  then show ?thesis using names_form_tree [OF sample_reach] by blast
qed

text \<open>C12: In every reachable state a node's reference count is the number of its open files, and
  a node with neither a name nor an open file holds no bytes: nothing leaks from the budget.\<close>

theorem nothing_leaks:
  assumes "mem_reach m" "c < length (m_heap m)"
  shows "n_refs (the_node m c) = int (length (filter (\<lambda>f. f_node f = c \<and> \<not> f_closed f) (m_files m))) \<and>
    (c \<notin> ran (map_of (m_nodes m)) \<and> n_refs (the_node m c) = 0 \<longrightarrow> n_data (the_node m c) = [])"
proof -
  note parts = mem_inv_parts [OF mem_reach_inv [OF assms(1)]]
  have "n_linked (the_node m c) = (c \<in> ran (map_of (m_nodes m)))"
    using parts(1) assms(2) ptrs_ran [OF names_dist [OF parts(1)]] by (simp add: names_inv_def)
  then show ?thesis using parts(3) assms(2) by (simp add: refs_inv_def open_refs_def)
qed

theorem nothing_leaks_witness:
  "n_data (the_node sample 2) = [1, 2, 3] \<and>
    n_data (the_node (snd (mf_Close 0 (snd (mem_Remove ''d/a'' sample)))) 2) = []"
proof -
  let ?m = "snd (mf_Close 0 (snd (mem_Remove ''d/a'' sample)))"
  have "0 < length (m_files (snd (mem_Remove ''d/a'' sample)))" by code_simp
  then have r: "mem_reach ?m"
    by (intro mem_reach.step [OF _ mem_step.on_file [OF file_step.close]]
        mem_reach.step [OF sample_reach mem_step.remove])
  have n: "m_nodes ?m = [(''.'', 0), (''d'', 1), (''log'', 3)]" by code_simp
  have "2 < length (m_heap ?m)" "n_refs (the_node ?m 2) = 0" "n_data (the_node sample 2) = [1, 2, 3]"
    by code_simp+
  then show ?thesis using nothing_leaks [OF r, of 2] by (simp add: n)
qed

section \<open>Refinement of the specification\<close>

text \<open>C3: \<open>Mkdir\<close>, \<open>Remove\<close> and \<open>Rename\<close> do to the entries exactly what the abstract
  filesystem specifies, with the same error in every failing case.\<close>

theorem memory_refines_spec:
  assumes "mem_reach m"
  shows "map_prod id abs_fs (mem_Mkdir now dir perm m) = spec_mkdir dir (abs_fs m) \<and>
    map_prod id abs_fs (mem_Remove name m) = spec_remove name (abs_fs m) \<and>
    map_prod id abs_fs (mem_Rename old new m) = spec_rename old new (abs_fs m)"
  using mem.mkdir_spec mem.remove_spec mem.rename_spec mem_reach_inv [OF assms] by blast

theorem memory_refines_spec_witness:
  "map_prod id abs_fs (mem_Mkdir 9 ''d/e'' 0x1ED sample) = spec_mkdir ''d/e'' (abs_fs sample) \<and>
    map_prod id abs_fs (mem_Remove ''d'' sample) = spec_remove ''d'' (abs_fs sample) \<and>
    map_prod id abs_fs (mem_Rename ''d'' ''e'' sample) = spec_rename ''d'' ''e'' (abs_fs sample)"
  by (rule memory_refines_spec [OF sample_reach])

text \<open>C8: \<open>OpenFile\<close> with any combination of flags succeeds, creates, truncates and fails exactly
  as the abstract filesystem specifies.\<close>

theorem open_refines_spec:
  assumes "mem_reach m"
  shows "spec_open name flag (abs_fs m) =
    (case fst (mem_OpenFile now name flag perm m) of Inl e \<Rightarrow> Some e | Inr h \<Rightarrow> None,
     abs_fs (snd (mem_OpenFile now name flag perm m)))"
  using OpenFile_refines [OF mem_reach_inv [OF assms], of name flag now perm]
  by (auto split: prod.splits sum.splits)

theorem open_refines_spec_witness:
  "spec_open ''d'' (O_WRONLY OR O_TRUNC) (abs_fs sample) =
    (case fst (mem_OpenFile 9 ''d'' (O_WRONLY OR O_TRUNC) 0 sample) of Inl e \<Rightarrow> Some e | Inr h \<Rightarrow> None,
     abs_fs (snd (mem_OpenFile 9 ''d'' (O_WRONLY OR O_TRUNC) 0 sample)))"
  by (rule open_refines_spec [OF sample_reach])

text \<open>C13: A successful \<open>Rename\<close> moves the whole subtree, node by node: what was below the old name
  is below the new name, nothing is left below the old one, and every other name keeps its node
  with its contents, mode, times and inode number.\<close>

theorem rename_moves_subtree:
  assumes "mem_reach m" "fst (mem_Rename old new m) = None" "old \<noteq> new"
  shows "node_at (snd (mem_Rename old new m)) q =
    (if q = new \<or> has_prefix q (new @ ''/'') then node_at m (old @ drop (length new) q)
     else if q = old \<or> has_prefix q (old @ ''/'') then None
     else node_at m q)"
proof -
  have "moves new q \<Longrightarrow> trim_prefix q new = drop (length new) q"
    by (auto simp: moves_def trim_prefix_def has_prefix_iff)
  then show ?thesis
    using Rename_node_at [OF mem_reach_inv [OF assms(1)] assms(2,3), of q]
    by (simp add: rename_map_def moves_def)
qed

theorem rename_moves_subtree_witness:
  "node_at (snd (mem_Rename ''d'' ''e'' sample)) ''e/a'' = node_at sample ''d/a''"
  using rename_moves_subtree [OF sample_reach, of "''d''" "''e''" "''e/a''"] by code_simp

section \<open>Reading and writing\<close>

text \<open>C23: What \<open>WriteAt\<close> reports as written is what \<open>ReadAt\<close> finds at the same offset, through
  any gap that had to be filled.\<close>

theorem write_then_read:
  assumes "mem_reach m" "h < length (m_files m)" "go_slice p" "f_readable (the_file m h)"
    and "mf_WriteAt now h p off m = ((n, None), m')"
  shows "n = int (length p) \<and> mf_ReadAt h (length p) off m' = (p, None)"
  using WriteAt_ReadAt [OF mem_reach_inv [OF assms(1)] assms(2,3,5,4)] .

theorem write_then_read_witness:
  "mf_ReadAt 0 2 5 (snd (mf_WriteAt 9 0 [7, 8] 5 sample)) = ([7, 8], None)"
proof -
  have "mf_WriteAt 9 0 [7, 8] 5 sample = ((2, None), snd (mf_WriteAt 9 0 [7, 8] 5 sample))"
    by (rule prod_eqI) (code_simp, simp)
  moreover have "0 < length (m_files sample)" "f_readable (the_file sample 0)" by code_simp+
  ultimately show ?thesis
    using write_then_read [OF sample_reach, of 0 "[7, 8]"] go_slice_bytes
    by (simp add: numeral_2_eq_2)
qed

text \<open>A write through an open file is all or nothing: it either fails, writes no byte and
  leaves the filesystem as it was, or stores every byte, fills a gap before it with zeros, keeps
  the bytes around it and changes no other node.\<close>

theorem write_all_or_nothing:
  assumes "mem_reach m" "h < length (m_files m)" "go_slice p"
  shows "(case mf_WriteAt now h p off m of
      ((n, Some e), m') \<Rightarrow> n = 0 \<and> m' = m
    | ((n, None), m') \<Rightarrow> n = int (length p) \<and>
        (p \<noteq> [] \<longrightarrow> n_data (file_node m' h) =
           take (nat off) (n_data (file_node m h) @ replicate (nat off - length (n_data (file_node m h))) 0)
             @ p @ drop (nat off + length p) (n_data (file_node m h))) \<and>
        (\<forall>c. c \<noteq> f_node (the_file m h) \<longrightarrow> the_node m' c = the_node m c))"
proof -
  note inv = mem_reach_inv [OF assms(1)]
  obtain n e m' where r: "mf_WriteAt now h p off m = ((n, e), m')" by (metis prod.collapse)
  show ?thesis
  proof (cases e)
    case None
    then have w: "mf_writeAt now h p off m = ((n, None), m')"
      using r by (auto simp: mf_WriteAt_def split: if_splits)
    note ok = writeAt_ok [OF inv assms(2,3) w]
    show ?thesis using r None ok(2,8,10) by (simp add: write_bytes_def)
  next
    case (Some x)
    then show ?thesis
      using r writeAt_err [OF inv assms(2,3), of now off n x m'] by (auto simp: mf_WriteAt_def split: if_splits)
  qed
qed

theorem write_all_or_nothing_witness:
  "snd (mf_WriteAt 9 0 [7, 8] 99 sample) = sample"
proof -
  have "0 < length (m_files sample)" and e: "snd (fst (mf_WriteAt 9 0 [7, 8] 99 sample)) = Some (Errno ENOSPC)"
    by code_simp+
  then show ?thesis
    using write_all_or_nothing [OF sample_reach, where h = 0 and p = "[7, 8]" and now = 9 and off = 99]
      go_slice_bytes
    by (simp split: prod.splits option.splits)
qed

text \<open>Writes through append handles of one file, interleaved in any order and from any number of
  handles, put their bytes one after the other at its end.\<close>

theorem appends_never_overwrite:
  assumes "mem_reach m" "run_writes ws m = Some m'"
    and "\<forall>(now, h, p) \<in> set ws. h < length (m_files m) \<and> go_slice p \<and> f_append (the_file m h) \<and>
      f_node (the_file m h) = c"
  shows "n_data (the_node m' c) = n_data (the_node m c) @ concat (map (\<lambda>(now, h, p). p) ws)"
  by (rule appends_concatenate [OF mem_reach_inv [OF assms(1)] assms(2)]) (use assms(3) in fastforce)

theorem appends_never_overwrite_witness:
  "map_option (\<lambda>m'. n_data (the_node m' 3)) (run_writes [(8, 1, [4, 5]), (9, 1, [6])] sample) = Some [4, 5, 6]"
proof -
  obtain m' where r: "run_writes [(8, 1, [4, 5]), (9, 1, [6])] sample = Some m'"
    by (cases "run_writes [(8, 1, [4, 5]), (9, 1, [6])] sample") (simp_all, code_simp)
  have "1 < length (m_files sample)" "f_append (the_file sample 1)" "f_node (the_file sample 1) = 3"
    "n_data (the_node sample 3) = []"
    by code_simp+
  then show ?thesis
    using appends_never_overwrite [OF sample_reach r, of 3] r go_slice_bytes by simp
qed

text \<open>C31: \<open>Truncate\<close> and \<open>Seek\<close> compute without overflow: a resize fails exactly when the size is
  negative or the budget would be exceeded, otherwise it cuts or extends with zeros and charges
  the difference; a seek fails exactly when the target lies outside \<open>0..limit\<close>.\<close>

theorem truncate_seek_exact:
  assumes "mem_reach m" "h < length (m_files m)" "\<not> f_closed (the_file m h)" "f_writable (the_file m h)"
  shows "mf_Truncate now h sz m =
      (let d = n_data (file_node m h)
       in if sz < 0 then (Some ErrInvalid, m)
          else if m_limit m < sz \<or> m_limit m < m_used m + (sz - int (length d))
          then (Some (Errno ENOSPC), m)
          else (None, upd_node (f_node (the_file m h))
                  (\<lambda>n. n\<lparr>n_data := take (nat sz) d @ replicate (nat sz - length d) 0, n_mtime := now\<rparr>)
                  (m\<lparr>m_used := m_used m + (sz - int (length d))\<rparr>))) \<and>
    fst (mf_Seek h off whence m) =
      (case (if whence = 0 then Some 0 else if whence = 1 then Some (f_pos (the_file m h))
             else if whence = 2 then Some (int (length (n_data (file_node m h)))) else None) of
         None \<Rightarrow> Inl ErrInvalid
       | Some b \<Rightarrow> if 0 \<le> b + off \<and> b + off \<le> m_limit m then Inr (b + off) else Inl ErrInvalid)"
proof (rule conjI)
  note inv = mem_reach_inv [OF assms(1)]
  have "(m_limit m < sz \<or> m_limit m - m_used m < sz - int (length d)) =
      (m_limit m < sz \<or> m_limit m < m_used m + (sz - int (length d)))" for d :: "byte list"
    by linarith
  then show "mf_Truncate now h sz m =
      (let d = n_data (file_node m h)
       in if sz < 0 then (Some ErrInvalid, m)
          else if m_limit m < sz \<or> m_limit m < m_used m + (sz - int (length d))
          then (Some (Errno ENOSPC), m)
          else (None, upd_node (f_node (the_file m h))
                  (\<lambda>n. n\<lparr>n_data := take (nat sz) d @ replicate (nat sz - length d) 0, n_mtime := now\<rparr>)
                  (m\<lparr>m_used := m_used m + (sz - int (length d))\<rparr>)))"
    using assms(3,4) resize_eq [OF inv assms(2), of now sz]
    by (simp add: mf_Truncate_def resized_def node_len_def Let_def)
  show "fst (mf_Seek h off whence m) =
      (case (if whence = 0 then Some 0 else if whence = 1 then Some (f_pos (the_file m h))
             else if whence = 2 then Some (int (length (n_data (file_node m h)))) else None) of
         None \<Rightarrow> Inl ErrInvalid
       | Some b \<Rightarrow> if 0 \<le> b + off \<and> b + off \<le> m_limit m then Inr (b + off) else Inl ErrInvalid)"
    using assms(3) unfolding Seek_eq [OF inv assms(2)] seek_base_def node_len_def
    by (auto split: option.split)
qed

theorem truncate_seek_exact_witness:
  "fst (mf_Truncate 9 0 101 sample) = Some (Errno ENOSPC) \<and> fst (mf_Seek 0 (- 1) 2 sample) = Inr 2"
proof -
  have s: "0 < length (m_files sample)" "\<not> f_closed (the_file sample 0)" "f_writable (the_file sample 0)"
    "m_limit sample = 100" "int (length (n_data (file_node sample 0))) = 3"
    by code_simp+
  show ?thesis
    using truncate_seek_exact [OF sample_reach s(1-3), where now = 9 and sz = 101 and off = "- 1" and whence = 2]
      s(4,5) by (simp add: Let_def)
qed

section \<open>Directories and the life of nodes\<close>

text \<open>\<open>ReadDir\<close> of a directory returns exactly its direct children, each once, sorted by name,
  with the size, mode, times and inode number of the node each names.\<close>

theorem readdir_exact:
  assumes "mem_reach m" "mem_ReadDir name m = Inr es"
  shows "sorted (map fi_name es) \<and> distinct (map fi_name es) \<and>
    set es = {infoFor q n | q n. node_at m q = Some n \<and> q \<noteq> name \<and> path_dir q = name}"
  using readDir_sorted [OF mem_inv_parts(1) [OF mem_reach_inv [OF assms(1)]], of name es] assms(2)
  by (simp add: mem_ReadDir_def)

theorem readdir_exact_witness:
  "\<exists>es. mem_ReadDir ''.'' sample = Inr es \<and> sorted (map fi_name es) \<and> distinct (map fi_name es) \<and>
    set es = {infoFor q n | q n. node_at sample q = Some n \<and> q \<noteq> ''.'' \<and> path_dir q = ''.''}"
proof -
  have "is_ok (mem_ReadDir ''.'' sample)" by code_simp
  then obtain es where es: "mem_ReadDir ''.'' sample = Inr es"
    by (cases "mem_ReadDir ''.'' sample") simp_all
  then show ?thesis using readdir_exact [OF sample_reach es] by simp
qed

text \<open>C32: A caller that reads an open directory in pages of any positive size gets every entry exactly
  once, in order, in non-empty pages of at most that size, and then \<open>io.EOF\<close>.\<close>

theorem paging_complete:
  assumes "h < length (m_files m)" "\<not> f_closed (the_file m h)"
    "f_entries (the_file m h) = None" "f_dirPos (the_file m h) = 0"
    and "name_of_node m (f_node (the_file m h)) = Some name" "mem_ReadDir name m = Inr es"
    and "0 < n" "length es < k"
  shows "\<exists>ps. read_pages k (mf_ReadDir h) n m = (ps, Some EOF) \<and> concat ps = es \<and>
    (\<forall>p \<in> set ps. p \<noteq> [] \<and> int (length p) \<le> n)"
  using memory_dir.pages_complete [of h m n k] dir_rest_fresh [OF assms(1-5)] assms(6-8)
  by (simp add: mem_ReadDir_def)

theorem paging_complete_witness:
  "\<exists>es ps. mem_ReadDir ''d'' sample = Inr es \<and> read_pages 5 (mf_ReadDir 2) 1 sample = (ps, Some EOF) \<and>
    concat ps = es"
proof -
  have "is_ok (mem_ReadDir ''d'' sample)" by code_simp
  then obtain es where es: "mem_ReadDir ''d'' sample = Inr es"
    by (cases "mem_ReadDir ''d'' sample") simp_all
  have "(case mem_ReadDir ''d'' sample of Inl e \<Rightarrow> 0 | Inr es \<Rightarrow> length es) = 1" by code_simp
  then have len: "length es < 5" using es by simp
  have s: "2 < length (m_files sample)" "\<not> f_closed (the_file sample 2)"
    "f_entries (the_file sample 2) = None" "f_dirPos (the_file sample 2) = 0"
    "name_of_node sample (f_node (the_file sample 2)) = Some ''d''"
    by code_simp+
  have one: "(0::int) < 1" by simp
  from paging_complete [OF s es one len] es show ?thesis by blast
qed

text \<open>An open directory follows its node: after the directory or one above it was renamed,
  reading the handle lists the directory under its new name.\<close>

theorem handle_follows_rename:
  assumes "mem_reach m" "fst (mem_Rename old new m) = None" "old \<noteq> new"
    and "map_of (m_nodes m) (old @ t) = Some (f_node (the_file m h))" "t = [] \<or> has_prefix t ''/''"
    and "\<not> f_closed (the_file m h)" "f_entries (the_file m h) = None" "f_dirPos (the_file m h) = 0"
  shows "fst (mf_ReadDir h 0 (snd (mem_Rename old new m))) = mem_ReadDir (new @ t) (snd (mem_Rename old new m))"
proof -
  note inv = mem_reach_inv [OF assms(1)]
  have f: "the_file (snd (mem_Rename old new m)) h = the_file m h"
    using Rename_map_of(2) [OF inv assms(2,3)] by (simp add: the_file_def)
  have "path_tail t" using assms(5) by (auto simp: path_tail_def has_prefix_iff)
  then have "name_of_node (snd (mem_Rename old new m)) (f_node (the_file m h)) = Some (new @ t)"
    using Rename_follows [OF inv assms(2-4)] by simp
  then show ?thesis using ReadDir_whole [of "snd (mem_Rename old new m)" h "new @ t"] f assms(6-8) by simp
qed

theorem handle_follows_rename_witness:
  "fst (mf_ReadDir 2 0 (snd (mem_Rename ''d'' ''e'' sample))) = mem_ReadDir ''e'' (snd (mem_Rename ''d'' ''e'' sample))"
proof -
  have s: "fst (mem_Rename ''d'' ''e'' sample) = None" "''d'' \<noteq> ''e''"
    "map_of (m_nodes sample) (''d'' @ []) = Some (f_node (the_file sample 2))"
    "\<not> f_closed (the_file sample 2)" "f_entries (the_file sample 2) = None" "f_dirPos (the_file sample 2) = 0"
    by code_simp+
  show ?thesis using handle_follows_rename [OF sample_reach s(1-3) _ s(4-6)] by simp
qed

text \<open>Removing a file that is open leaves its handle working on the same bytes, still charged
  to the budget; closing the last handle gives them back.\<close>

theorem removed_file_lives_while_open:
  assumes "mem_reach m" "h < length (m_files m)" "\<not> f_closed (the_file m h)"
    and "map_of (m_nodes m) name = Some (f_node (the_file m h))"
    and ok: "fst (mem_Remove name m) = None" and m': "m' = snd (mem_Remove name m)"
  shows "node_at m' name = None \<and> n_data (file_node m' h) = n_data (file_node m h) \<and>
    m_used m' = m_used m \<and>
    m_used (snd (mf_Close h m')) =
      (if n_refs (file_node m h) = 1 then m_used m - int (length (n_data (file_node m h))) else m_used m)"
proof -
  note inv = mem_reach_inv [OF assms(1)]
  note r = Remove_open_file [OF inv assms(2-5), folded m']
  have "mem_inv m'" unfolding m' by (rule Remove_inv [OF inv])
  moreover have "the_file m' h = the_file m h" using r(3) by (simp add: the_file_def)
  ultimately have "m_used (snd (mf_Close h m')) =
      (if n_refs (file_node m' h) = 1 then m_used m' - node_len (file_node m' h) else m_used m')"
    using Close_last [of m' h] assms(2,3) r by simp
  then show ?thesis using r by (simp add: node_at_def node_len_def)
qed

theorem removed_file_lives_while_open_witness:
  "m_used (snd (mem_Remove ''d/a'' sample)) = 3 \<and>
    m_used (snd (mf_Close 0 (snd (mem_Remove ''d/a'' sample)))) = 0"
proof -
  have s: "0 < length (m_files sample)" "\<not> f_closed (the_file sample 0)"
    "map_of (m_nodes sample) ''d/a'' = Some (f_node (the_file sample 0))"
    "fst (mem_Remove ''d/a'' sample) = None"
    and v: "m_used sample = 3" "n_refs (file_node sample 0) = 1" "length (n_data (file_node sample 0)) = 3"
    by code_simp+
  from removed_file_lives_while_open [OF sample_reach s refl]
  have "m_used (snd (mem_Remove ''d/a'' sample)) = m_used sample"
    "m_used (snd (mf_Close 0 (snd (mem_Remove ''d/a'' sample)))) =
      (if n_refs (file_node sample 0) = 1 then m_used sample - int (length (n_data (file_node sample 0)))
       else m_used sample)"
    by blast+
  with v show ?thesis by simp
qed

end
