(* ===== verification/Namespace.thy ===== *)
theory Namespace
  imports MemoryDir
begin

unbundle bit_operations_syntax

text \<open>
  \<open>vfs/fs.go\<close> and \<open>internal/fsys/namespace.go\<close>: the guest's view of all filesystems, a
  root \<open>Memory\<close> with filesystems mounted in it.

  A Go interface value is a record of its methods over the state they change; a method that an
  implementation may lack (found by a type assertion in the source) is an option.  The
  filesystems of the mounts are arguments of the model: their methods are functions over a state
  \<open>'w\<close> of their own, their open files have a type \<open>'h\<close>.
\<close>

section \<open>Filesystem interfaces\<close>

text \<open>\<open>vfs.WriteFS\<close>, with the optional methods \<open>Chmod\<close> and \<open>Chtimes\<close>.\<close>

record ('s, 'h) writeFS =
  wf_OpenFile :: "string \<Rightarrow> oflag \<Rightarrow> filemode \<Rightarrow> 's \<Rightarrow> 'h res \<times> 's"
  wf_Mkdir :: "string \<Rightarrow> filemode \<Rightarrow> 's \<Rightarrow> goerr option \<times> 's"
  wf_Remove :: "string \<Rightarrow> 's \<Rightarrow> goerr option \<times> 's"
  wf_Rename :: "string \<Rightarrow> string \<Rightarrow> 's \<Rightarrow> goerr option \<times> 's"
  wf_Chmod :: "(string \<Rightarrow> filemode \<Rightarrow> 's \<Rightarrow> goerr option \<times> 's) option"
  wf_Chtimes :: "(string \<Rightarrow> time \<Rightarrow> time \<Rightarrow> 's \<Rightarrow> goerr option \<times> 's) option"

text \<open>
  \<open>fs.FS\<close> as the namespace uses it: \<open>Open\<close>, the package functions \<open>fs.Stat\<close> and
  \<open>fs.ReadDir\<close>, and the methods it asks for by type assertion.
\<close>

record ('s, 'h) filesys =
  fs_Open :: "string \<Rightarrow> 's \<Rightarrow> 'h res \<times> 's"
  fs_Stat :: "string \<Rightarrow> 's \<Rightarrow> fileInfo res \<times> 's"
  fs_ReadDir :: "string \<Rightarrow> 's \<Rightarrow> fileInfo list res \<times> 's"
  fs_Lstat :: "(string \<Rightarrow> 's \<Rightarrow> fileInfo res \<times> 's) option"
  fs_Readlink :: "(string \<Rightarrow> 's \<Rightarrow> string res \<times> 's) option"
  fs_Write :: "('s, 'h) writeFS option"

text \<open>A filesystem whose state is a part of a larger one.\<close>

definition lift :: "('s \<Rightarrow> 't) \<Rightarrow> ('t \<Rightarrow> 's \<Rightarrow> 's) \<Rightarrow> ('t \<Rightarrow> 'a \<times> 't) \<Rightarrow> 's \<Rightarrow> 'a \<times> 's" where
  "lift get put f s = (let (r, t) = f (get s) in (r, put t s))"

definition lift_open ::
  "('s \<Rightarrow> 't) \<Rightarrow> ('t \<Rightarrow> 's \<Rightarrow> 's) \<Rightarrow> ('k \<Rightarrow> 'h) \<Rightarrow> ('t \<Rightarrow> 'k res \<times> 't) \<Rightarrow> 's \<Rightarrow> 'h res \<times> 's" where
  "lift_open get put c f s = (let (r, t) = f (get s) in (map_sum id c r, put t s))"

definition lift_write ::
  "('s \<Rightarrow> 't) \<Rightarrow> ('t \<Rightarrow> 's \<Rightarrow> 's) \<Rightarrow> ('k \<Rightarrow> 'h) \<Rightarrow> ('t, 'k) writeFS \<Rightarrow> ('s, 'h) writeFS" where
  "lift_write get put c W =
     \<lparr>wf_OpenFile = \<lambda>n fl p. lift_open get put c (wf_OpenFile W n fl p),
      wf_Mkdir = \<lambda>n p. lift get put (wf_Mkdir W n p),
      wf_Remove = \<lambda>n. lift get put (wf_Remove W n),
      wf_Rename = \<lambda>a b. lift get put (wf_Rename W a b),
      wf_Chmod = map_option (\<lambda>f n p. lift get put (f n p)) (wf_Chmod W),
      wf_Chtimes = map_option (\<lambda>f n a t. lift get put (f n a t)) (wf_Chtimes W)\<rparr>"

definition lift_fs ::
  "('s \<Rightarrow> 't) \<Rightarrow> ('t \<Rightarrow> 's \<Rightarrow> 's) \<Rightarrow> ('k \<Rightarrow> 'h) \<Rightarrow> ('t, 'k) filesys \<Rightarrow> ('s, 'h) filesys" where
  "lift_fs get put c F =
     \<lparr>fs_Open = \<lambda>n. lift_open get put c (fs_Open F n),
      fs_Stat = \<lambda>n. lift get put (fs_Stat F n),
      fs_ReadDir = \<lambda>n. lift get put (fs_ReadDir F n),
      fs_Lstat = map_option (\<lambda>f n. lift get put (f n)) (fs_Lstat F),
      fs_Readlink = map_option (\<lambda>f n. lift get put (f n)) (fs_Readlink F),
      fs_Write = map_option (lift_write get put c) (fs_Write F)\<rparr>"

text \<open>
  \<open>*vfs.Memory\<close> as a filesystem: its methods over the memory and the clock they read.  It has
  \<open>Chmod\<close> and \<open>Chtimes\<close>, but neither \<open>Lstat\<close> nor \<open>Readlink\<close>.
\<close>

definition with_clock :: "(time \<Rightarrow> memory \<Rightarrow> 'a \<times> memory) \<Rightarrow> memory \<times> time \<Rightarrow> 'a \<times> (memory \<times> time)" where
  "with_clock f s = (let (m, now) = s; (r, m') = f now m in (r, (m', now)))"

definition memory_write :: "(memory \<times> time, fd) writeFS" where
  "memory_write =
     \<lparr>wf_OpenFile = \<lambda>n fl p. with_clock (\<lambda>now. mem_OpenFile now n fl p),
      wf_Mkdir = \<lambda>n p. with_clock (\<lambda>now. mem_Mkdir now n p),
      wf_Remove = \<lambda>n. with_clock (\<lambda>now. mem_Remove n),
      wf_Rename = \<lambda>a b. with_clock (\<lambda>now. mem_Rename a b),
      wf_Chmod = Some (\<lambda>n p. with_clock (\<lambda>now. mem_Chmod n p)),
      wf_Chtimes = Some (\<lambda>n a t. with_clock (\<lambda>now. mem_Chtimes n a t))\<rparr>"

definition memory_fs :: "(memory \<times> time, fd) filesys" where
  "memory_fs =
     \<lparr>fs_Open = \<lambda>n. with_clock (\<lambda>now. mem_Open now n),
      fs_Stat = \<lambda>n. with_clock (\<lambda>now m. (mem_Stat n m, m)),
      fs_ReadDir = \<lambda>n. with_clock (\<lambda>now m. (mem_ReadDir n m, m)),
      fs_Lstat = None, fs_Readlink = None,
      fs_Write = Some memory_write\<rparr>"

section \<open>The namespace\<close>

text \<open>The state behind a namespace: its root, the mounted filesystems, and the clock.\<close>

record 'w world =
  w_mem :: memory
  w_now :: time
  w_ext :: 'w

text \<open>Open files: \<open>*nullFile\<close>, those of the root, and those of the mounts.\<close>

datatype 'h vfile = NullFile | MemFile fd | ExtFile 'h

record ('w, 'h) mount =
  mt_Path :: string
  mt_FS :: "('w, 'h) filesys option"
  mt_ReadOnly :: bool

record ('w, 'h) namespace =
  ns_mounts :: "('w, 'h) mount list"

definition root_fs :: "('w world, 'h vfile) filesys" where
  "root_fs = lift_fs (\<lambda>s. (w_mem s, w_now s)) (\<lambda>t s. s\<lparr>w_mem := fst t\<rparr>) MemFile memory_fs"

definition mount_fs :: "('w, 'h) filesys \<Rightarrow> ('w world, 'h vfile) filesys" where
  "mount_fs F = lift_fs w_ext (\<lambda>e s. s\<lparr>w_ext := e\<rparr>) ExtFile F"

text \<open>A time is its distance from the Unix epoch in nanoseconds; \<open>time.Time{}\<close> is 1 January 1.\<close>

definition zero_time :: time where
  "zero_time = - 62135596800 * 1000000000"

definition nullInfo :: fileInfo where
  "nullInfo = \<lparr>fi_name = ''null'', fi_size = 0, fi_mode = ModeDevice OR ModeCharDevice OR 0x1B6,
               fi_mtime = zero_time, fi_atime = None, fi_id = None\<rparr>"

definition info_is_dir :: "fileInfo \<Rightarrow> bool" where
  "info_is_dir i = mode_is_dir (fi_mode i)"

definition Resolve :: "string \<Rightarrow> string \<Rightarrow> string" where
  "Resolve cwd name =
     (let directory = has_suffix name ''/'' \<or> path_base name = ''.'';
          name' = (if \<not> has_prefix name ''/'' then path_join cwd name else name);
          clean = path_clean (''/'' @ name')
      in if directory \<and> clean \<noteq> ''/'' then clean @ ''/'' else clean)"

text \<open>Whether a mount at \<open>mp\<close> holds the name \<open>p\<close>; also the overlap check of \<open>New\<close>.\<close>

definition in_mount :: "string \<Rightarrow> string \<Rightarrow> bool" where
  "in_mount mp p = (p = mp \<or> has_prefix p (mp @ ''/''))"

definition rel_name :: "string \<Rightarrow> string" where
  "rel_name r = (if r = [] then ''.'' else r)"

definition route ::
  "('w, 'h) namespace \<Rightarrow> string \<Rightarrow> (('w world, 'h vfile) filesys \<times> string \<times> bool) res" where
  "route ns name =
     (if contains_nul name then Inl ErrInvalid
      else
        let nm = path_clean (Resolve ''/'' name)
        in case find (\<lambda>m. in_mount (mt_Path m) nm) (ns_mounts ns) of
             Some m \<Rightarrow> Inr (mount_fs (the (mt_FS m)),
                           rel_name (trim_prefix (trim_prefix nm (mt_Path m)) ''/''), mt_ReadOnly m)
           | None \<Rightarrow> Inr (root_fs, rel_name (trim_prefix nm ''/''), False))"

subsection \<open>Reading\<close>

definition ns_Stat :: "('w, 'h) namespace \<Rightarrow> string \<Rightarrow> 'w world \<Rightarrow> fileInfo res \<times> 'w world" where
  "ns_Stat ns name s =
     (if Resolve ''/'' name = ''/dev/null'' then (Inr nullInfo, s)
      else if Resolve ''/'' name = ''/dev/null/'' then (Inl (Errno ENOTDIR), s)
      else case route ns name of
        Inl e \<Rightarrow> (Inl e, s)
      | Inr (f, rel, ro) \<Rightarrow>
          (case fs_Stat f rel s of
             (Inl e, s1) \<Rightarrow> (Inl e, s1)
           | (Inr i, s1) \<Rightarrow>
               if has_suffix name ''/'' \<and> \<not> info_is_dir i then (Inl (Errno ENOTDIR), s1)
               else (Inr i, s1)))"

definition ns_Lstat :: "('w, 'h) namespace \<Rightarrow> string \<Rightarrow> 'w world \<Rightarrow> fileInfo res \<times> 'w world" where
  "ns_Lstat ns name s =
     (if has_suffix name ''/'' then ns_Stat ns name s
      else case route ns name of
        Inl e \<Rightarrow> (Inl e, s)
      | Inr (f, rel, ro) \<Rightarrow>
          (case fs_Lstat f of Some l \<Rightarrow> l rel s | None \<Rightarrow> ns_Stat ns name s))"

definition ns_Readlink :: "('w, 'h) namespace \<Rightarrow> string \<Rightarrow> 'w world \<Rightarrow> string res \<times> 'w world" where
  "ns_Readlink ns name s =
     (case route ns name of
        Inl e \<Rightarrow> (Inl e, s)
      | Inr (f, rel, ro) \<Rightarrow>
          (case fs_Readlink f of Some l \<Rightarrow> l rel s | None \<Rightarrow> (Inl (Errno ENOSYS), s)))"

definition ns_ReadDir :: "('w, 'h) namespace \<Rightarrow> string \<Rightarrow> 'w world \<Rightarrow> fileInfo list res \<times> 'w world" where
  "ns_ReadDir ns name s =
     (case route ns name of
        Inl e \<Rightarrow> (Inl e, s)
      | Inr (f, rel, ro) \<Rightarrow> fs_ReadDir f rel s)"

subsection \<open>Opening\<close>

text \<open>A name written with a trailing slash must be a directory (\<open>Open\<close> and \<open>Rename\<close>).\<close>

definition check_slash :: "('w, 'h) namespace \<Rightarrow> string \<Rightarrow> 'w world \<Rightarrow> goerr option \<times> 'w world" where
  "check_slash ns name s =
     (if has_suffix name ''/''
      then (case ns_Stat ns name s of (Inl e, s1) \<Rightarrow> (Some e, s1) | (Inr i, s1) \<Rightarrow> (None, s1))
      else (None, s))"

definition ns_Open ::
  "('w, 'h) namespace \<Rightarrow> string \<Rightarrow> oflag \<Rightarrow> filemode \<Rightarrow> 'w world \<Rightarrow> 'h vfile res \<times> 'w world" where
  "ns_Open ns name flag perm s =
     (case check_slash ns name s of
        (Some e, s1) \<Rightarrow> (Inl e, s1)
      | (None, s1) \<Rightarrow>
          if Resolve ''/'' name = ''/dev/null'' then (Inr NullFile, s1)
          else case route ns name of
            Inl e \<Rightarrow> (Inl e, s1)
          | Inr (f, rel, ro) \<Rightarrow>
              if has_flag flag (O_WRONLY OR O_RDWR OR O_CREATE OR O_TRUNC OR O_APPEND)
              then (case fs_Write f of
                      None \<Rightarrow> (Inl (PathError ''open'' name (Errno EROFS)), s1)
                    | Some w \<Rightarrow>
                        if ro then (Inl (PathError ''open'' name (Errno EROFS)), s1)
                        else wf_OpenFile w rel flag perm s1)
              else fs_Open f rel s1)"

subsection \<open>Changing\<close>

definition ns_writable ::
  "('w, 'h) namespace \<Rightarrow> string \<Rightarrow> (('w world, 'h vfile) filesys \<times> ('w world, 'h vfile) writeFS \<times> string) res" where
  "ns_writable ns name =
     (let clean = path_clean (Resolve ''/'' name)
      in if list_ex (\<lambda>m. clean = mt_Path m \<or> has_prefix (mt_Path m) (clean @ ''/'') \<or> clean = ''/'')
              (ns_mounts ns)
         then Inl (Errno EBUSY)
         else case route ns name of
           Inl e \<Rightarrow> Inl e
         | Inr (f, rel, ro) \<Rightarrow>
             (case fs_Write f of
                None \<Rightarrow> Inl (Errno EROFS)
              | Some w \<Rightarrow> if ro then Inl (Errno EROFS) else Inr (f, w, rel)))"

definition ns_Mkdir ::
  "('w, 'h) namespace \<Rightarrow> string \<Rightarrow> filemode \<Rightarrow> 'w world \<Rightarrow> goerr option \<times> 'w world" where
  "ns_Mkdir ns name perm s =
     (case ns_writable ns name of
        Inl e \<Rightarrow> (Some e, s)
      | Inr (f, w, rel) \<Rightarrow> wf_Mkdir w rel perm s)"

definition ns_Remove ::
  "('w, 'h) namespace \<Rightarrow> string \<Rightarrow> bool \<Rightarrow> 'w world \<Rightarrow> goerr option \<times> 'w world" where
  "ns_Remove ns name dir s =
     (case ns_writable ns name of
        Inl e \<Rightarrow> (Some e, s)
      | Inr (f, w, rel) \<Rightarrow>
          (case ns_Lstat ns name s of
             (Inl e, s1) \<Rightarrow> (Some e, s1)
           | (Inr info, s1) \<Rightarrow>
               if info_is_dir info \<noteq> dir
               then (Some (Errno (if dir then ENOTDIR else EISDIR)), s1)
               else wf_Remove w rel s1))"

text \<open>The closure \<open>owner\<close> of \<open>Rename\<close>: the path of the mount that holds a name.\<close>

definition ns_owner :: "('w, 'h) namespace \<Rightarrow> string \<Rightarrow> string" where
  "ns_owner ns p =
     (case find (\<lambda>m. in_mount (mt_Path m) (path_clean (Resolve ''/'' p))) (ns_mounts ns) of
        Some m \<Rightarrow> mt_Path m
      | None \<Rightarrow> ''/'')"

definition ns_Rename ::
  "('w, 'h) namespace \<Rightarrow> string \<Rightarrow> string \<Rightarrow> 'w world \<Rightarrow> goerr option \<times> 'w world" where
  "ns_Rename ns old new s =
     (case check_slash ns old s of
        (Some e, s1) \<Rightarrow> (Some e, s1)
      | (None, s1) \<Rightarrow>
          (case check_slash ns new s1 of
             (Some e, s2) \<Rightarrow> (Some e, s2)
           | (None, s2) \<Rightarrow>
               (case ns_writable ns old of
                  Inl e \<Rightarrow> (Some e, s2)
                | Inr (f, w, a) \<Rightarrow>
                    (case ns_writable ns new of
                       Inl e \<Rightarrow> (Some e, s2)
                     | Inr (g, w', b) \<Rightarrow>
                         if ns_owner ns old \<noteq> ns_owner ns new then (Some (Errno EXDEV), s2)
                         else wf_Rename w a b s2))))"

definition ns_Chmod ::
  "('w, 'h) namespace \<Rightarrow> string \<Rightarrow> filemode \<Rightarrow> 'w world \<Rightarrow> goerr option \<times> 'w world" where
  "ns_Chmod ns name perm s =
     (case ns_writable ns name of
        Inl e \<Rightarrow> (Some e, s)
      | Inr (f, w, rel) \<Rightarrow>
          (case wf_Chmod w of
             Some c \<Rightarrow> c rel perm s
           | None \<Rightarrow> (Some (Errno ENOSYS), s)))"

definition ns_Chtimes ::
  "('w, 'h) namespace \<Rightarrow> string \<Rightarrow> time \<Rightarrow> time \<Rightarrow> 'w world \<Rightarrow> goerr option \<times> 'w world" where
  "ns_Chtimes ns name a t s =
     (case ns_writable ns name of
        Inl e \<Rightarrow> (Some e, s)
      | Inr (f, w, rel) \<Rightarrow>
          (case wf_Chtimes w of
             Some c \<Rightarrow> c rel a t s
           | None \<Rightarrow> (Some (Errno ENOSYS), s)))"

subsection \<open>New\<close>

text \<open>The directories of the root: a failure ends \<open>New\<close>.\<close>

fun mkdir_each :: "time \<Rightarrow> string list \<Rightarrow> memory \<Rightarrow> goerr option \<times> memory" where
  "mkdir_each now [] m = (None, m)"
| "mkdir_each now (d # ds) m =
     (case mem_Mkdir now d 0x1ED m of
        (Some e, m1) \<Rightarrow> (Some e, m1)
      | (None, m1) \<Rightarrow> mkdir_each now ds m1)"

text \<open>The directories a mount point needs, one for each prefix of its elements.\<close>

fun mkdir_parts :: "time \<Rightarrow> string list \<Rightarrow> string list \<Rightarrow> memory \<Rightarrow> goerr option \<times> memory" where
  "mkdir_parts now done [] m = (None, m)"
| "mkdir_parts now done (x # rest) m =
     (case mem_Mkdir now (go_join ''/'' (done @ [x])) 0x1ED m of
        (Some e, m1) \<Rightarrow>
          if errors_is e ErrExist then mkdir_parts now (done @ [x]) rest m1 else (Some e, m1)
      | (None, m1) \<Rightarrow> mkdir_parts now (done @ [x]) rest m1)"

definition overlaps :: "string \<Rightarrow> string \<Rightarrow> bool" where
  "overlaps a b = (a = b \<or> has_prefix a (b @ ''/'') \<or> has_prefix b (a @ ''/''))"

definition bad_mount_path :: "string \<Rightarrow> bool" where
  "bad_mount_path p =
     (\<not> has_prefix p ''/'' \<or> p = ''/'' \<or> path_clean p \<noteq> p \<or> contains_nul p)"

fun new_mounts ::
  "('w, 'h) mount list \<Rightarrow> ('w, 'h) mount list \<Rightarrow> 'w world \<Rightarrow> goerr option \<times> 'w world" where
  "new_mounts done [] s = (None, s)"
| "new_mounts done (m # rest) s =
     (case mt_FS m of
        None \<Rightarrow> (Some (ErrText (''invalid mount path: '' @ mt_Path m)), s)
      | Some F \<Rightarrow>
          if bad_mount_path (mt_Path m)
          then (Some (ErrText (''invalid mount path: '' @ mt_Path m)), s)
          else if list_ex (\<lambda>x. overlaps (mt_Path m) (mt_Path x)) done
          then (Some (ErrText ''overlapping mounts are not supported''), s)
          else
            (case fs_Stat (mount_fs F) ''.'' s of
               (Inl e, s1) \<Rightarrow> (Some e, s1)
             | (Inr info, s1) \<Rightarrow>
                 if \<not> info_is_dir info then (Some (Errno ENOTDIR), s1)
                 else
                   (case mkdir_parts (w_now s1) [] (go_split slash (trim_prefix (mt_Path m) ''/''))
                           (w_mem s1) of
                      (Some e, m1) \<Rightarrow> (Some e, s1\<lparr>w_mem := m1\<rparr>)
                    | (None, m1) \<Rightarrow> new_mounts (done @ [m]) rest (s1\<lparr>w_mem := m1\<rparr>))))"

definition NewNamespace ::
  "time \<Rightarrow> 64 word \<Rightarrow> ('w, 'h) mount list \<Rightarrow> int \<Rightarrow> 'w \<Rightarrow> ('w, 'h) namespace res \<times> 'w world" where
  "NewNamespace now counter mounts maxBytes ext =
     (let s0 = \<lparr>w_mem = NewMemory now counter maxBytes, w_now = now, w_ext = ext\<rparr>
      in case mkdir_each now [''tmp'', ''work'', ''dev''] (w_mem s0) of
           (Some e, m1) \<Rightarrow> (Inl e, s0\<lparr>w_mem := m1\<rparr>)
         | (None, m1) \<Rightarrow>
             (case new_mounts [] mounts (s0\<lparr>w_mem := m1\<rparr>) of
                (Some e, s1) \<Rightarrow> (Inl e, s1)
              | (None, s1) \<Rightarrow>
                  (Inr \<lparr>ns_mounts = sort_key (\<lambda>m. - int (length (mt_Path m))) mounts\<rparr>, s1)))"

section \<open>The null device\<close>

definition nullFile_Read :: "nat \<Rightarrow> byte list \<times> goerr option" where
  "nullFile_Read len = ([], Some EOF)"

definition nullFile_Write :: "byte list \<Rightarrow> int \<times> goerr option" where
  "nullFile_Write p = (int (length p), None)"

definition nullFile_Close :: "goerr option" where
  "nullFile_Close = None"

definition nullFile_Stat :: "fileInfo res" where
  "nullFile_Stat = Inr nullInfo"

end
