(* ===== verification/NamespaceInv.thy ===== *)
theory NamespaceInv
  imports Namespace
begin

unbundle bit_operations_syntax

text \<open>
  How the namespace routes names.  Every guest name stands for a list of good elements
  (\<open>path_elems\<close>); a mount holds the lists that extend its own; since mounts do not overlap, at
  most one of them holds a name, and the name handed to its filesystem never leaves it.
\<close>

section \<open>Guest names\<close>

definition abs_name :: "string list \<Rightarrow> string" where
  "abs_name cs = slash # go_join ''/'' cs"

definition path_elems :: "string \<Rightarrow> string list" where
  "path_elems name = clean_elems True (go_split slash name)"

lemma good_path_elems [simp]: "good_elems (path_elems name)"
  unfolding path_elems_def using go_split_sep by (intro clean_elems_rooted) blast

lemma path_clean_abs_name: "path_clean (slash # s) = abs_name (path_elems s)"
  by (simp add: path_clean_abs abs_name_def path_elems_def)

lemma path_elems_slash [simp]: "path_elems (slash # s) = path_elems s"
  by (simp add: path_elems_def clean_elems_def)

lemma path_elems_trailing [simp]: "path_elems (s @ ''/'') = path_elems s"
  using go_split_append [of slash s "[]"]
  by (simp add: path_elems_def clean_elems_def)

lemma path_elems_join:
  assumes "good_elems cs"
  shows "path_elems (go_join ''/'' cs) = cs"
proof (cases "cs = []")
  case True
  then show ?thesis by (simp add: path_elems_def clean_elems_def)
next
  case False
  then show ?thesis
    using go_split_name_of [OF assms False] assms
    by (simp add: path_elems_def name_of_def clean_elems_good)
qed

lemma path_elems_abs_name [simp]: "good_elems cs \<Longrightarrow> path_elems (abs_name cs) = cs"
  by (simp add: abs_name_def path_elems_join)

lemma abs_name_inj: "good_elems cs \<Longrightarrow> good_elems ds \<Longrightarrow> abs_name cs = abs_name ds \<Longrightarrow> cs = ds"
  by (metis path_elems_abs_name)

lemma abs_name_root: "good_elems cs \<Longrightarrow> abs_name cs = ''/'' \<longleftrightarrow> cs = []"
  using abs_name_inj [of cs "[]"] by (auto simp: abs_name_def)

lemma Resolve_abs:
  "Resolve cwd name =
     (let cs = path_elems (if has_prefix name ''/'' then name else path_join cwd name)
      in if (has_suffix name ''/'' \<or> path_base name = ''.'') \<and> cs \<noteq> []
         then abs_name cs @ ''/'' else abs_name cs)"
  by (simp add: Resolve_def Let_def path_clean_abs_name abs_name_root)

lemma path_elems_Resolve:
  "path_elems (Resolve cwd name) =
     path_elems (if has_prefix name ''/'' then name else path_join cwd name)"
  by (simp add: Resolve_abs Let_def)

lemma path_join_root: "path_elems (path_join ''/'' name) = path_elems name"
  by (simp add: path_join_def path_clean_abs_name)

lemma clean_Resolve: "path_clean (Resolve cwd name) = abs_name (path_elems (Resolve cwd name))"
proof -
  have "\<exists>s. Resolve cwd name = slash # s"
    by (auto simp: Resolve_abs Let_def abs_name_def)
  then show ?thesis by (auto simp: path_clean_abs_name)
qed

lemma clean_Resolve_root [simp]: "path_clean (Resolve ''/'' name) = abs_name (path_elems name)"
  by (simp add: clean_Resolve path_elems_Resolve path_join_root)

text \<open>Resolving is idempotent, and keeps a trailing slash.\<close>

lemma path_base_last:
  assumes "slash \<notin> set c" "c \<noteq> []"
  shows "path_base (t @ slash # c) = c"
proof -
  obtain x r where x: "rev c = x # r" "x \<noteq> slash"
    using assms by (metis list.exhaust list.set_intros(1) rev_is_Nil_conv set_rev)
  have "takeWhile (\<lambda>x. x \<noteq> slash) (rev c @ slash # rev t) = rev c"
    by (rule takeWhile_append2_slash [OF assms(1)])
  then show ?thesis using x assms(2) by (simp add: path_base_def Let_def)
qed

lemma abs_name_last:
  assumes "good_elems cs" "cs \<noteq> []"
  obtains t c where "abs_name cs = t @ slash # c" "good_elem c"
proof -
  obtain ds c where cs: "cs = ds @ [c]" using assms(2) by (cases cs rule: rev_cases) auto
  show thesis
    using that [of "if ds = [] then [] else abs_name ds" c] assms cs
    by (auto simp: abs_name_def go_join_append)
qed

lemma abs_name_plain:
  assumes "good_elems cs" "cs \<noteq> []"
  shows "path_base (abs_name cs) \<noteq> ''.''" "\<not> has_suffix (abs_name cs) ''/''"
proof -
  obtain t c where c: "abs_name cs = t @ slash # c" "good_elem c"
    using abs_name_last [OF assms] by blast
  then show "path_base (abs_name cs) \<noteq> ''.''"
    by (simp add: path_base_last good_elem_def)
  obtain x r where "rev c = x # r" "x \<noteq> slash"
    using c(2) unfolding good_elem_def
    by (metis list.exhaust list.set_intros(1) rev_is_Nil_conv set_rev)
  then show "\<not> has_suffix (abs_name cs) ''/''" by (simp add: c(1) has_suffix_def)
qed

lemma Resolve_idem: "Resolve d (Resolve cwd name) = Resolve cwd name"
proof -
  define cs where "cs = path_elems (if has_prefix name ''/'' then name else path_join cwd name)"
  have cs: "good_elems cs" by (simp add: cs_def)
  have pre: "has_prefix (abs_name cs @ t) ''/''" for t by (simp add: abs_name_def)
  consider "cs = []" "Resolve cwd name = abs_name cs"
    | "cs \<noteq> []" "Resolve cwd name = abs_name cs"
    | "cs \<noteq> []" "Resolve cwd name = abs_name cs @ ''/''"
    unfolding Resolve_abs Let_def cs_def [symmetric]
    by (cases "has_suffix name ''/'' \<or> path_base name = ''.''"; cases "cs = []") simp_all
  then show ?thesis
  proof cases
    case 1
    then show ?thesis using pre [of "[]"] by (simp add: Resolve_abs [of d])
  next
    case 2
    then show ?thesis
      using pre [of "[]"] cs abs_name_plain [OF cs] by (simp add: Resolve_abs [of d])
  next
    case 3
    then show ?thesis using pre [of "''/''"] cs by (simp add: Resolve_abs [of d])
  qed
qed

section \<open>Mounts\<close>

lemma has_prefix_Cons [simp]: "has_prefix (a # s) (b # p) = (a = b \<and> has_prefix s p)"
  by simp

lemma in_mount_elems:
  assumes "good_elems cs" "good_elems ds" "ds \<noteq> []"
  shows "in_mount (abs_name ds) (abs_name cs) \<longleftrightarrow> (\<exists>es. cs = ds @ es)"
proof (cases "cs = []")
  case True
  have "go_join ''/'' ds \<noteq> []" using name_of_ne [OF assms(2)] assms(3) by (simp add: name_of_def)
  with True assms show ?thesis by (cases "go_join ''/'' ds") (auto simp: in_mount_def abs_name_def)
next
  case False
  then have "go_join ''/'' cs \<noteq> []" using name_of_ne [OF assms(1)] by (simp add: name_of_def)
  with False have "in_mount (abs_name ds) (abs_name cs) \<longleftrightarrow>
      cs = ds \<or> has_prefix (name_of cs) (name_of ds @ ''/'')"
    using assms abs_name_inj [of cs ds]
    by (auto simp: in_mount_def abs_name_def name_of_def)
  then show ?thesis using go_join_under [OF assms(2,1,3)] by (metis append_Nil2)
qed

lemma above_mount_elems:
  assumes "good_elems cs" "good_elems ds" "ds \<noteq> []"
  shows "(abs_name cs = abs_name ds \<or> has_prefix (abs_name ds) (abs_name cs @ ''/'') \<or> abs_name cs = ''/'')
    \<longleftrightarrow> (\<exists>es. ds = cs @ es)"
proof (cases "cs = []")
  case True
  then show ?thesis by (simp add: abs_name_def)
next
  case False
  then have "go_join ''/'' cs \<noteq> []" using name_of_ne [OF assms(1)] by (simp add: name_of_def)
  with False have "(abs_name cs = abs_name ds \<or> has_prefix (abs_name ds) (abs_name cs @ ''/'') \<or> abs_name cs = ''/'')
      \<longleftrightarrow> cs = ds \<or> has_prefix (name_of ds) (name_of cs @ ''/'')"
    using assms abs_name_inj [of cs ds] by (auto simp: abs_name_root abs_name_def name_of_def)
  then show ?thesis using go_join_under [OF assms(1,2) False] by (metis append_Nil2)
qed

text \<open>The elements of a mount point.\<close>

definition mount_elems :: "('w, 'h) mount \<Rightarrow> string list" where
  "mount_elems m = path_elems (mt_Path m)"

definition mount_ok :: "('w, 'h) mount \<Rightarrow> bool" where
  "mount_ok m = (mt_FS m \<noteq> None \<and> \<not> bad_mount_path (mt_Path m))"

lemma mount_path:
  assumes "mount_ok m"
  shows "mt_Path m = abs_name (mount_elems m)" "mount_elems m \<noteq> []" "good_elems (mount_elems m)"
proof -
  from assms obtain s where s: "mt_Path m = slash # s" "path_clean (mt_Path m) = mt_Path m"
      "mt_Path m \<noteq> ''/''"
    by (auto simp: mount_ok_def bad_mount_path_def has_prefix_iff)
  then show p: "mt_Path m = abs_name (mount_elems m)"
    by (metis mount_elems_def path_clean_abs_name path_elems_slash)
  show "good_elems (mount_elems m)" by (simp add: mount_elems_def)
  show "mount_elems m \<noteq> []" using p s(3) by (auto simp: abs_name_def)
qed

definition ns_ok :: "('w, 'h) namespace \<Rightarrow> bool" where
  "ns_ok ns =
     (list_all mount_ok (ns_mounts ns) \<and> distinct (map mt_Path (ns_mounts ns)) \<and>
      (\<forall>a \<in> set (ns_mounts ns). \<forall>b \<in> set (ns_mounts ns).
          mt_Path a = mt_Path b \<or> \<not> overlaps (mt_Path a) (mt_Path b)))"

lemma ns_ok_mount: "ns_ok ns \<Longrightarrow> m \<in> set (ns_mounts ns) \<Longrightarrow> mount_ok m"
  by (simp add: ns_ok_def list_all_iff)

lemma overlaps_elems:
  assumes "mount_ok a" "mount_ok b"
  shows "overlaps (mt_Path a) (mt_Path b) \<longleftrightarrow>
    (\<exists>es. mount_elems a = mount_elems b @ es \<or> mount_elems b = mount_elems a @ es)"
  using in_mount_elems [OF mount_path(3) [OF assms(1)] mount_path(3,2) [OF assms(2)]]
    in_mount_elems [OF mount_path(3) [OF assms(2)] mount_path(3,2) [OF assms(1)]]
  by (auto simp: overlaps_def in_mount_def mount_path(1) [OF assms(1)] mount_path(1) [OF assms(2)])

text \<open>The mounts that hold the name with elements \<open>cs\<close>; there is at most one.\<close>

definition holds :: "('w, 'h) mount \<Rightarrow> string list \<Rightarrow> bool" where
  "holds m cs = in_mount (mt_Path m) (abs_name cs)"

lemma holds_elems:
  "mount_ok m \<Longrightarrow> good_elems cs \<Longrightarrow> holds m cs \<longleftrightarrow> (\<exists>es. cs = mount_elems m @ es)"
  using in_mount_elems [OF _ mount_path(3,2)] mount_path(1) by (metis holds_def)

lemma holds_unique:
  assumes ok: "ns_ok ns" and "a \<in> set (ns_mounts ns)" "b \<in> set (ns_mounts ns)" "good_elems cs"
    and "holds a cs" "holds b cs"
  shows "a = b"
proof -
  note ab = ns_ok_mount [OF ok assms(2)] ns_ok_mount [OF ok assms(3)]
  obtain es fs where "cs = mount_elems a @ es" "cs = mount_elems b @ fs"
    using holds_elems [OF ab(1) assms(4)] holds_elems [OF ab(2) assms(4)] assms(5,6) by blast
  then have "\<exists>gs. mount_elems a = mount_elems b @ gs \<or> mount_elems b = mount_elems a @ gs"
    by (metis append_eq_append_conv2)
  then have "overlaps (mt_Path a) (mt_Path b)" by (simp add: overlaps_elems [OF ab])
  with ok assms(2,3) have "mt_Path a = mt_Path b" by (auto simp: ns_ok_def)
  moreover have "inj_on mt_Path (set (ns_mounts ns))"
    using ok by (simp add: ns_ok_def distinct_map)
  ultimately show ?thesis using assms(2,3) by (simp add: inj_on_def)
qed

definition mount_of :: "('w, 'h) namespace \<Rightarrow> string list \<Rightarrow> ('w, 'h) mount option" where
  "mount_of ns cs = find (\<lambda>m. holds m cs) (ns_mounts ns)"

lemma mount_of_Some:
  assumes "ns_ok ns" "good_elems cs"
  shows "mount_of ns cs = Some m \<longleftrightarrow> m \<in> set (ns_mounts ns) \<and> holds m cs"
proof
  assume "mount_of ns cs = Some m"
  then show "m \<in> set (ns_mounts ns) \<and> holds m cs"
    unfolding mount_of_def by (rule find_SomeD)
next
  assume m: "m \<in> set (ns_mounts ns) \<and> holds m cs"
  then have "mount_of ns cs \<noteq> None" by (auto simp: mount_of_def find_None_iff)
  then obtain x where x: "mount_of ns cs = Some x" by blast
  then have "x \<in> set (ns_mounts ns) \<and> holds x cs" unfolding mount_of_def by (rule find_SomeD)
  with holds_unique [OF assms(1) _ _ assms(2)] m x show "mount_of ns cs = Some m" by blast
qed

lemma mount_of_None: "mount_of ns cs = None \<longleftrightarrow> (\<forall>m \<in> set (ns_mounts ns). \<not> holds m cs)"
  by (auto simp: mount_of_def find_None_iff)

section \<open>Routes\<close>

lemma rel_root: "good_elems cs \<Longrightarrow> rel_name (trim_prefix (abs_name cs) ''/'') = name_of cs"
  using trim_prefix_append [of "''/''" "go_join ''/'' cs"] name_of_ne [of cs]
  by (cases "cs = []") (simp_all add: rel_name_def abs_name_def name_of_def)

lemma rel_mount:
  assumes "good_elems (ds @ es)" "ds \<noteq> []"
  shows "rel_name (trim_prefix (trim_prefix (abs_name (ds @ es)) (abs_name ds)) ''/'') = name_of es"
proof (cases "es = []")
  case True
  then show ?thesis
    using trim_prefix_append [of "abs_name ds" "[]"] by (simp add: rel_name_def trim_prefix_def)
next
  case False
  have "abs_name (ds @ es) = abs_name ds @ ''/'' @ go_join ''/'' es"
    using assms False by (simp add: abs_name_def go_join_append)
  then have "trim_prefix (trim_prefix (abs_name (ds @ es)) (abs_name ds)) ''/'' = go_join ''/'' es"
    using trim_prefix_append [of "abs_name ds"] trim_prefix_append [of "''/''"] by metis
  then show ?thesis
    using False name_of_ne [of es] assms by (simp add: rel_name_def name_of_def)
qed

text \<open>Where a name goes: the whole of \<open>route\<close> in terms of elements.\<close>

lemma route_elems:
  assumes "ns_ok ns"
  shows "route ns name =
    (if contains_nul name then Inl ErrInvalid
     else case mount_of ns (path_elems name) of
       Some m \<Rightarrow> Inr (mount_fs (the (mt_FS m)),
                     name_of (drop (length (mount_elems m)) (path_elems name)), mt_ReadOnly m)
     | None \<Rightarrow> Inr (root_fs, name_of (path_elems name), False))"
proof (cases "mount_of ns (path_elems name)")
  case None
  then show ?thesis
    by (simp add: route_def Let_def mount_of_def holds_def rel_root)
next
  case (Some m)
  then have m: "m \<in> set (ns_mounts ns)" "holds m (path_elems name)"
    by (simp_all add: mount_of_Some [OF assms])
  note ok = ns_ok_mount [OF assms m(1)]
  obtain es where es: "path_elems name = mount_elems m @ es"
    using m(2) holds_elems [OF ok] by auto
  have "rel_name (trim_prefix (trim_prefix (abs_name (path_elems name)) (mt_Path m)) ''/'') = name_of es"
    unfolding mount_path(1) [OF ok] es
    by (rule rel_mount) (use good_path_elems [of name] es mount_path(2) [OF ok] in simp_all)
  then show ?thesis
    using Some es by (simp add: route_def Let_def mount_of_def holds_def)
qed

lemma owner_elems:
  "ns_owner ns name = (case mount_of ns (path_elems name) of Some m \<Rightarrow> mt_Path m | None \<Rightarrow> ''/'')"
  by (simp add: ns_owner_def mount_of_def holds_def)

definition busy :: "('w, 'h) namespace \<Rightarrow> string list \<Rightarrow> bool" where
  "busy ns cs = (\<exists>m \<in> set (ns_mounts ns). \<exists>es. mount_elems m = cs @ es)"

lemma writable_elems:
  assumes "ns_ok ns"
  shows "ns_writable ns name =
    (if busy ns (path_elems name) then Inl (Errno EBUSY)
     else case route ns name of
       Inl e \<Rightarrow> Inl e
     | Inr (f, rel, ro) \<Rightarrow>
         (case fs_Write f of
            None \<Rightarrow> Inl (Errno EROFS)
          | Some w \<Rightarrow> if ro then Inl (Errno EROFS) else Inr (f, w, rel)))"
proof -
  have "(abs_name (path_elems name) = mt_Path m \<or> has_prefix (mt_Path m) (abs_name (path_elems name) @ ''/'')
          \<or> abs_name (path_elems name) = ''/'') \<longleftrightarrow> (\<exists>es. mount_elems m = path_elems name @ es)"
    if "m \<in> set (ns_mounts ns)" for m
    using above_mount_elems [OF good_path_elems, of "mount_elems m" name]
      mount_path [OF ns_ok_mount [OF assms that]] by simp
  then have "list_ex (\<lambda>m. abs_name (path_elems name) = mt_Path m
      \<or> has_prefix (mt_Path m) (abs_name (path_elems name) @ ''/'')
      \<or> abs_name (path_elems name) = ''/'') (ns_mounts ns) \<longleftrightarrow> busy ns (path_elems name)"
    by (auto simp: list_ex_iff busy_def)
  then show ?thesis by (simp add: ns_writable_def Let_def)
qed

end
