(* ===== verification/NamespaceSafe.thy ===== *)
theory NamespaceSafe
  imports NamespaceInv
begin

unbundle bit_operations_syntax

text \<open>
  What the calls of the namespace can do to the state behind it: a call on a name of the root
  changes only the root memory, a call on a name of a mount only the mounted filesystems, and no
  call removes or replaces a mount point or a directory above one.
\<close>

section \<open>The root and the mounts as writable filesystems\<close>

definition root_write :: "('w world, 'h vfile) writeFS" where
  "root_write = lift_write (\<lambda>s. (w_mem s, w_now s)) (\<lambda>t s. s\<lparr>w_mem := fst t\<rparr>) MemFile memory_write"

definition mount_write :: "('w, 'h) writeFS \<Rightarrow> ('w world, 'h vfile) writeFS" where
  "mount_write W = lift_write w_ext (\<lambda>e s. s\<lparr>w_ext := e\<rparr>) ExtFile W"

lemma root_fs_Write [simp]: "fs_Write root_fs = Some root_write"
  by (simp add: root_fs_def lift_fs_def memory_fs_def root_write_def)

lemma mount_fs_Write [simp]: "fs_Write (mount_fs F) = map_option mount_write (fs_Write F)"
  by (cases "fs_Write F") (simp_all add: mount_fs_def lift_fs_def mount_write_def)

lemma root_fs_simps [simp]:
  "fs_Stat root_fs n s = (mem_Stat n (w_mem s), s)"
  "fs_ReadDir root_fs n s = (mem_ReadDir n (w_mem s), s)"
  "fs_Open root_fs n s = (let (r, m) = mem_Open (w_now s) n (w_mem s)
                          in (map_sum id MemFile r, s\<lparr>w_mem := m\<rparr>))"
  "fs_Lstat root_fs = None" "fs_Readlink root_fs = None"
  by (simp_all add: root_fs_def lift_fs_def memory_fs_def lift_def lift_open_def with_clock_def
      Let_def case_prod_beta)

lemma root_write_simps [simp]:
  "wf_OpenFile root_write n fl p s = (let (r, m) = mem_OpenFile (w_now s) n fl p (w_mem s)
                                      in (map_sum id MemFile r, s\<lparr>w_mem := m\<rparr>))"
  "wf_Mkdir root_write n p s = (let (r, m) = mem_Mkdir (w_now s) n p (w_mem s) in (r, s\<lparr>w_mem := m\<rparr>))"
  "wf_Remove root_write n s = (let (r, m) = mem_Remove n (w_mem s) in (r, s\<lparr>w_mem := m\<rparr>))"
  "wf_Rename root_write a b s = (let (r, m) = mem_Rename a b (w_mem s) in (r, s\<lparr>w_mem := m\<rparr>))"
  "wf_Chmod root_write = Some (\<lambda>n p s. let (r, m) = mem_Chmod n p (w_mem s) in (r, s\<lparr>w_mem := m\<rparr>))"
  "wf_Chtimes root_write = Some (\<lambda>n a t s. let (r, m) = mem_Chtimes n a t (w_mem s) in (r, s\<lparr>w_mem := m\<rparr>))"
  by (simp_all add: root_write_def lift_write_def memory_write_def lift_def lift_open_def
      with_clock_def Let_def case_prod_beta fun_eq_iff)

lemma mount_fs_keeps [simp]:
  "w_mem (snd (fs_Stat (mount_fs F) n s)) = w_mem s"
  "w_mem (snd (fs_ReadDir (mount_fs F) n s)) = w_mem s"
  "w_mem (snd (fs_Open (mount_fs F) n s)) = w_mem s"
  "fs_Lstat (mount_fs F) = Some l \<Longrightarrow> w_mem (snd (l n s)) = w_mem s"
  "fs_Readlink (mount_fs F) = Some rl \<Longrightarrow> w_mem (snd (rl n s)) = w_mem s"
  by (auto simp: mount_fs_def lift_fs_def lift_def lift_open_def Let_def case_prod_beta)

lemma mount_write_keeps [simp]:
  "w_mem (snd (wf_OpenFile (mount_write W) n fl p s)) = w_mem s"
  "w_mem (snd (wf_Mkdir (mount_write W) n p s)) = w_mem s"
  "w_mem (snd (wf_Remove (mount_write W) n s)) = w_mem s"
  "w_mem (snd (wf_Rename (mount_write W) a b s)) = w_mem s"
  "wf_Chmod (mount_write W) = Some c \<Longrightarrow> w_mem (snd (c n p s)) = w_mem s"
  "wf_Chtimes (mount_write W) = Some d \<Longrightarrow> w_mem (snd (d n t u s)) = w_mem s"
  by (auto simp: mount_write_def lift_write_def lift_def lift_open_def Let_def case_prod_beta)

text \<open>The two ways a name can go.\<close>

lemma route_cases:
  assumes "ns_ok ns" "route ns name = Inr (f, rel, ro)"
  obtains (root) "mount_of ns (path_elems name) = None" "f = root_fs"
      "rel = name_of (path_elems name)" "\<not> ro"
  | (mount) m where "mount_of ns (path_elems name) = Some m" "f = mount_fs (the (mt_FS m))"
      "rel = name_of (drop (length (mount_elems m)) (path_elems name))" "ro = mt_ReadOnly m"
  using assms(2) unfolding route_elems [OF assms(1)]
  by (auto split: if_splits option.splits)

lemma writable_cases:
  assumes "ns_ok ns" "ns_writable ns name = Inr (f, w, rel)"
  obtains (root) "\<not> busy ns (path_elems name)" "mount_of ns (path_elems name) = None"
      "f = root_fs" "w = root_write" "rel = name_of (path_elems name)"
  | (mount) m W where "\<not> busy ns (path_elems name)" "mount_of ns (path_elems name) = Some m"
      "fs_Write (the (mt_FS m)) = Some W" "\<not> mt_ReadOnly m" "f = mount_fs (the (mt_FS m))"
      "w = mount_write W" "rel = name_of (drop (length (mount_elems m)) (path_elems name))"
proof -
  from assms(2) obtain ro where b: "\<not> busy ns (path_elems name)"
      and r: "route ns name = Inr (f, rel, ro)" "fs_Write f = Some w" "\<not> ro"
    unfolding writable_elems [OF assms(1)] by (auto split: if_splits sum.splits option.splits)
  from assms(1) r(1) show thesis
  proof (cases rule: route_cases)
    case root
    with b r(2) that(1) show thesis by simp
  next
    case (mount m)
    with b r(2,3) that(2) show thesis by auto
  qed
qed

section \<open>Calls that read\<close>

lemma Stat_mem [simp]:
  assumes "ns_ok ns"
  shows "w_mem (snd (ns_Stat ns name s)) = w_mem s"
proof (cases "route ns name")
  case (Inr r)
  obtain f rel ro where r: "r = (f, rel, ro)" by (cases r)
  have "w_mem (snd (fs_Stat f rel s)) = w_mem s"
    by (rule route_cases [OF assms Inr [unfolded r]]) simp_all
  then show ?thesis using Inr r
    by (auto simp: ns_Stat_def split: sum.splits prod.splits if_splits)
qed (simp add: ns_Stat_def)

lemma Lstat_mem [simp]:
  assumes "ns_ok ns"
  shows "w_mem (snd (ns_Lstat ns name s)) = w_mem s"
proof (cases "route ns name")
  case (Inr r)
  obtain f rel ro where r: "r = (f, rel, ro)" by (cases r)
  have "fs_Lstat f = Some l \<Longrightarrow> w_mem (snd (l rel s)) = w_mem s" for l
    by (rule route_cases [OF assms Inr [unfolded r]]) simp_all
  then show ?thesis using Inr r assms by (auto simp: ns_Lstat_def split: option.splits)
qed (simp add: ns_Lstat_def assms)

lemma check_slash_mem [simp]:
  assumes "ns_ok ns"
  shows "w_mem (snd (check_slash ns name s)) = w_mem s"
  using Stat_mem [OF assms, of name s]
  by (auto simp: check_slash_def split: sum.splits prod.splits)

lemma Readlink_mem [simp]:
  assumes "ns_ok ns"
  shows "w_mem (snd (ns_Readlink ns name s)) = w_mem s"
proof (cases "route ns name")
  case (Inr r)
  obtain f rel ro where r: "r = (f, rel, ro)" by (cases r)
  have "fs_Readlink f = Some l \<Longrightarrow> w_mem (snd (l rel s)) = w_mem s" for l
    by (rule route_cases [OF assms Inr [unfolded r]]) simp_all
  then show ?thesis using Inr r by (auto simp: ns_Readlink_def split: option.splits)
qed (simp add: ns_Readlink_def)

lemma ReadDir_mem [simp]:
  assumes "ns_ok ns"
  shows "w_mem (snd (ns_ReadDir ns name s)) = w_mem s"
proof (cases "route ns name")
  case (Inr r)
  obtain f rel ro where r: "r = (f, rel, ro)" by (cases r)
  have "w_mem (snd (fs_ReadDir f rel s)) = w_mem s"
    by (rule route_cases [OF assms Inr [unfolded r]]) simp_all
  then show ?thesis using Inr r by (simp add: ns_ReadDir_def)
qed (simp add: ns_ReadDir_def)

section \<open>What a call does to the root memory\<close>

text \<open>
  Every call does one of these to the root: the names of \<open>Remove\<close> and \<open>Rename\<close> are neither
  mount points nor above one.
\<close>

inductive root_effect :: "('w, 'h) namespace \<Rightarrow> memory \<Rightarrow> memory \<Rightarrow> bool" for ns where
  same: "root_effect ns m m"
| open_file: "root_effect ns m (snd (mem_OpenFile now name flag perm m))"
| mkdir: "root_effect ns m (snd (mem_Mkdir now name perm m))"
| remove: "good_elems cs \<Longrightarrow> \<not> busy ns cs \<Longrightarrow> root_effect ns m (snd (mem_Remove (name_of cs) m))"
| rename: "good_elems cs \<Longrightarrow> \<not> busy ns cs \<Longrightarrow> good_elems ds \<Longrightarrow> \<not> busy ns ds \<Longrightarrow>
    root_effect ns m (snd (mem_Rename (name_of cs) (name_of ds) m))"
| chmod: "root_effect ns m (snd (mem_Chmod name perm m))"
| chtimes: "root_effect ns m (snd (mem_Chtimes name a t m))"
| on_file: "file_step m m' \<Longrightarrow> root_effect ns m m'"

lemma Mkdir_effect:
  assumes ok: "ns_ok ns"
  shows "root_effect ns (w_mem s) (w_mem (snd (ns_Mkdir ns name perm s)))"
proof (cases "ns_writable ns name")
  case (Inr r)
  obtain f w rel where r: "r = (f, w, rel)" by (cases r)
  from ok Inr [unfolded r] show ?thesis
    by (cases rule: writable_cases)
      (use Inr r in \<open>auto simp: ns_Mkdir_def case_prod_beta intro: root_effect.intros\<close>)
qed (simp add: ns_Mkdir_def root_effect.same)

lemma Remove_effect:
  assumes ok: "ns_ok ns"
  shows "root_effect ns (w_mem s) (w_mem (snd (ns_Remove ns name dir s)))"
proof (cases "ns_writable ns name")
  case (Inr r)
  obtain f w rel where r: "r = (f, w, rel)" by (cases r)
  obtain i s1 where l: "ns_Lstat ns name s = (i, s1)" by fastforce
  then have s1: "w_mem s1 = w_mem s" using Lstat_mem [OF ok, of name s] by simp
  from ok Inr [unfolded r] show ?thesis
    by (cases rule: writable_cases)
      (use Inr r l s1 in \<open>auto simp: ns_Remove_def case_prod_beta split: sum.splits
        intro: root_effect.intros\<close>)
qed (simp add: ns_Remove_def root_effect.same)

lemma Chmod_effect:
  assumes ok: "ns_ok ns"
  shows "root_effect ns (w_mem s) (w_mem (snd (ns_Chmod ns name perm s)))"
proof (cases "ns_writable ns name")
  case (Inr r)
  obtain f w rel where r: "r = (f, w, rel)" by (cases r)
  from ok Inr [unfolded r] show ?thesis
    by (cases rule: writable_cases)
      (use Inr r in \<open>auto simp: ns_Chmod_def case_prod_beta split: option.splits
        intro: root_effect.intros\<close>)
qed (simp add: ns_Chmod_def root_effect.same)

lemma Chtimes_effect:
  assumes ok: "ns_ok ns"
  shows "root_effect ns (w_mem s) (w_mem (snd (ns_Chtimes ns name a t s)))"
proof (cases "ns_writable ns name")
  case (Inr r)
  obtain f w rel where r: "r = (f, w, rel)" by (cases r)
  from ok Inr [unfolded r] show ?thesis
    by (cases rule: writable_cases)
      (use Inr r in \<open>auto simp: ns_Chtimes_def case_prod_beta split: option.splits
        intro: root_effect.intros\<close>)
qed (simp add: ns_Chtimes_def root_effect.same)

lemma Open_effect:
  assumes ok: "ns_ok ns"
  shows "root_effect ns (w_mem s) (w_mem (snd (ns_Open ns name flag perm s)))"
proof -
  obtain c s1 where c: "check_slash ns name s = (c, s1)" by fastforce
  then have s1: "w_mem s1 = w_mem s" using check_slash_mem [OF ok, of name s] by simp
  show ?thesis
  proof (cases "route ns name")
    case (Inl e)
    then show ?thesis
      using c s1 by (auto simp: ns_Open_def root_effect.same split: option.splits)
  next
    case (Inr r)
    obtain f rel ro where r: "r = (f, rel, ro)" by (cases r)
    have fin: "root_effect ns (w_mem s) (w_mem (snd (fs_Open f rel s1)))"
      "fs_Write f = Some w \<Longrightarrow> root_effect ns (w_mem s) (w_mem (snd (wf_OpenFile w rel flag perm s1)))" for w
      using ok Inr [unfolded r]
      by (cases rule: route_cases; use s1 in \<open>auto simp: mem_Open_def case_prod_beta intro: root_effect.intros\<close>)+
    then show ?thesis
      using c s1 Inr r by (auto simp: ns_Open_def root_effect.same split: option.splits)
  qed
qed

lemma Rename_effect:
  assumes ok: "ns_ok ns"
  shows "root_effect ns (w_mem s) (w_mem (snd (ns_Rename ns old new s)))"
proof -
  obtain c s1 where c: "check_slash ns old s = (c, s1)" by fastforce
  obtain d s2 where d: "check_slash ns new s1 = (d, s2)" by fastforce
  have s1: "w_mem s1 = w_mem s" using check_slash_mem [OF ok, of old s] c by simp
  have s2: "w_mem s2 = w_mem s" using check_slash_mem [OF ok, of new s1] d s1 by simp
  have call: "root_effect ns (w_mem s) (w_mem (snd (wf_Rename w a b s2)))"
    if w: "ns_writable ns old = Inr (f, w, a)" and w': "ns_writable ns new = Inr (g, w', b)"
      and own: "ns_owner ns old = ns_owner ns new" for f w a g w' b
    using ok w
  proof (cases rule: writable_cases)
    case root
    have "mount_of ns (path_elems new) = None"
    proof (cases "mount_of ns (path_elems new)")
      case (Some m)
      then have "mt_Path m = ''/''" using own root(2) by (simp add: owner_elems)
      moreover have "mount_ok m"
        using Some ns_ok_mount [OF ok] by (simp add: mount_of_Some [OF ok])
      ultimately have False by (simp add: mount_ok_def bad_mount_path_def)
      then show ?thesis ..
    qed
    with ok w' have "b = name_of (path_elems new) \<and> \<not> busy ns (path_elems new)"
      by (cases rule: writable_cases [consumes 2]) simp_all
    then show ?thesis using root s2 by (auto simp: case_prod_beta intro: root_effect.intros)
  next
    case mount
    then show ?thesis using s2 by (simp add: root_effect.same)
  qed
  show ?thesis
    using c d s1 s2 call
    by (auto simp: ns_Rename_def root_effect.same split: option.splits sum.splits)
qed

section \<open>Mount points stay\<close>

definition mount_point :: "('w, 'h) mount \<Rightarrow> string" where
  "mount_point m = name_of (mount_elems m)"

text \<open>
  The invariant of a namespace: the mounts are disjoint, the root satisfies its own invariant,
  and every mount point is a directory of the root.
\<close>

definition ns_inv :: "('w, 'h) namespace \<Rightarrow> 'w world \<Rightarrow> bool" where
  "ns_inv ns s = (ns_ok ns \<and> mem_inv (w_mem s) \<and>
     (\<forall>m \<in> set (ns_mounts ns). is_dir_at (w_mem s) (mount_point m)))"

lemma snd_refines: "map_prod id g r = q \<Longrightarrow> g (snd r) = snd q"
  by (cases r) auto

lemma spec_find_keeps: "spec_find name flag a = Inr b \<Longrightarrow> a q = Some e \<Longrightarrow> b q = Some e"
  by (auto simp: spec_find_def split: if_splits option.splits)

lemma spec_open_keeps_dir:
  assumes "a q = Some DirE"
  shows "snd (spec_open name flag a) q = Some DirE"
proof (cases "spec_find name flag a")
  case (Inl e)
  with assms show ?thesis by (simp add: spec_open_def)
next
  case (Inr b)
  have "b q = Some DirE" by (rule spec_find_keeps [where a = a, OF Inr assms])
  with assms Inr show ?thesis by (auto simp: spec_open_def Let_def)
qed

lemma OpenFile_keeps_dir:
  assumes "mem_inv m" "is_dir_at m q"
  shows "is_dir_at (snd (mem_OpenFile now name flag perm m)) q"
proof -
  obtain r m' where r: "mem_OpenFile now name flag perm m = (r, m')" by fastforce
  have "abs_fs m' = snd (spec_open name flag (abs_fs m))"
    using OpenFile_refines [OF assms(1), of name flag now perm] r by (cases r) simp_all
  moreover have "snd (spec_open name flag (abs_fs m)) q = Some DirE"
    using assms(2) by (intro spec_open_keeps_dir) (simp add: abs_fs_DirE)
  ultimately show ?thesis using r by (simp add: abs_fs_DirE [symmetric])
qed

lemma Mkdir_keeps_dir:
  assumes "mem_inv m" "is_dir_at m q"
  shows "is_dir_at (snd (mem_Mkdir now name perm m)) q"
  using snd_refines [OF Mkdir_refines [OF assms(1), of now name perm]] assms(2)
  by (auto simp: abs_fs_DirE [symmetric] spec_mkdir_def split: if_splits option.splits)

lemma Remove_keeps_dir:
  assumes "mem_inv m" "is_dir_at m q" "q \<noteq> name"
  shows "is_dir_at (snd (mem_Remove name m)) q"
  using snd_refines [OF Remove_refines [OF assms(1), of name]] assms(2,3)
  by (auto simp: abs_fs_DirE [symmetric] spec_remove_def split: if_splits)

lemma Rename_keeps_dir:
  assumes "mem_inv m" "is_dir_at m q" "\<not> moves old q" "\<not> moves new q"
  shows "is_dir_at (snd (mem_Rename old new m)) q"
  using snd_refines [OF Rename_refines [OF assms(1), of old new]] assms(2-4)
  by (auto simp: abs_fs_DirE [symmetric] spec_rename_def rename_map_def split: if_splits option.splits)

lemma upd_node_mode:
  "(\<And>n. n_mode (f n) = n_mode n) \<Longrightarrow> n_mode (the_node (upd_node p f m) c) = n_mode (the_node m c)"
  by (cases "p < length (m_heap m)")
    (auto simp: the_node_upd_node, simp add: the_node_def upd_node_def list_update_beyond)

lemma is_dir_at_cong:
  "m_nodes m' = m_nodes m \<Longrightarrow> (\<And>c. n_mode (the_node m' c) = n_mode (the_node m c)) \<Longrightarrow>
   is_dir_at m' q = is_dir_at m q"
  by (simp add: is_dir_at_def node_at_def split: option.splits)

lemma resize_modes:
  "n_mode (the_node (snd (mf_resize now h sz m)) c) = n_mode (the_node m c)"
  by (simp add: mf_resize_def Let_def upd_node_mode)

lemma writeAt_same:
  "m_nodes (snd (mf_writeAt now h p off m)) = m_nodes m"
  "n_mode (the_node (snd (mf_writeAt now h p off m)) c) = n_mode (the_node m c)"
  using resize_frame(2) [of now h _ m] resize_modes [of now h _ m c]
  by (auto simp: mf_writeAt_def Let_def upd_node_mode split: option.splits prod.splits)
    (metis snd_conv)+

lemma file_step_same:
  "file_step m m' \<Longrightarrow> m_nodes m' = m_nodes m \<and> n_mode (the_node m' c) = n_mode (the_node m c)"
proof (induction rule: file_step.induct)
  case (close h m)
  then show ?case by (simp add: mf_Close_def Let_def upd_node_mode)
next
  case (read h m len)
  then show ?case by (simp add: mf_Read_def case_prod_beta)
next
  case (write_seq h m p now)
  then show ?case by (simp add: mf_Write_def Let_def case_prod_beta writeAt_same)
next
  case (write_at h m p now off)
  then show ?case by (simp add: mf_WriteAt_def writeAt_same)
next
  case (seek h m off whence)
  then show ?case by (simp add: mf_Seek_def Let_def split: option.splits)
next
  case (truncate h m now sz)
  then show ?case by (simp add: mf_Truncate_def resize_frame resize_modes)
next
  case (file_chtimes h m a t)
  then show ?case by (simp add: mf_Chtimes_def upd_node_mode)
next
  case (read_dir h m n)
  then show ?case by (simp add: mf_ReadDir_def Let_def split: option.splits sum.splits)
qed

lemma Chtimes_keeps_dir: "is_dir_at (snd (mem_Chtimes name a t m)) q = is_dir_at m q"
  by (auto simp: mem_Chtimes_def upd_node_mode split: sum.splits intro!: is_dir_at_cong)

lemma Chmod_keeps_dir:
  assumes "mem_inv m"
  shows "is_dir_at (snd (mem_Chmod name perm m)) q = is_dir_at m q"
proof (cases "mem_lookup m name")
  case (Inr p)
  then have "p < length (m_heap m)"
    using named_ptr(1) [OF mem_inv_parts(1) [OF assms]] by (auto simp: lookup_map_of)
  then show ?thesis using Inr by (auto simp: mem_Chmod_def is_dir_at_upd_node)
qed (simp add: mem_Chmod_def)

lemma moves_mount_point:
  assumes "mount_ok m" "good_elems cs" "cs \<noteq> []"
  shows "moves (name_of cs) (mount_point m) \<longleftrightarrow> (\<exists>es. mount_elems m = cs @ es)"
proof -
  have "moves (name_of cs) (mount_point m) \<longleftrightarrow>
      mount_elems m = cs \<or> (\<exists>es. es \<noteq> [] \<and> mount_elems m = cs @ es)"
    using go_join_under [OF assms(2) mount_path(3) [OF assms(1)] assms(3)]
      name_of_inj [OF mount_path(3) [OF assms(1)] assms(2)]
    unfolding moves_def mount_point_def by blast
  then show ?thesis by (metis append_Nil2)
qed

lemma root_effect_inv:
  assumes "root_effect ns m m'" and inv: "mem_inv m"
  shows "mem_inv m'"
  using assms by cases (auto intro: step_inv_lemmas file_step_inv)

lemma root_effect_dirs:
  assumes eff: "root_effect ns m m'" and ok: "ns_ok ns" and inv: "mem_inv m"
    and x: "x \<in> set (ns_mounts ns)" "is_dir_at m (mount_point x)"
  shows "is_dir_at m' (mount_point x)"
proof -
  note mo = ns_ok_mount [OF ok x(1)]
  have free: "cs \<noteq> []" "\<not> moves (name_of cs) (mount_point x)" "mount_point x \<noteq> name_of cs"
    if "good_elems cs" "\<not> busy ns cs" for cs
  proof -
    show cs: "cs \<noteq> []" using that x(1) by (auto simp: busy_def)
    show mv: "\<not> moves (name_of cs) (mount_point x)"
      using that x(1) moves_mount_point [OF mo that(1) cs] by (auto simp: busy_def)
    then show "mount_point x \<noteq> name_of cs" by (auto simp: moves_def)
  qed
  from eff show ?thesis
  proof cases
    case (on_file)
    then show ?thesis using x(2) file_step_same by (metis is_dir_at_cong)
  qed (use x(2) inv free in \<open>auto simp: Chmod_keeps_dir Chtimes_keeps_dir
        intro: OpenFile_keeps_dir Mkdir_keeps_dir Remove_keeps_dir Rename_keeps_dir\<close>)
qed

lemma ns_inv_effect:
  assumes "ns_inv ns s" "root_effect ns (w_mem s) (w_mem s')"
  shows "ns_inv ns s'"
  using assms root_effect_inv [OF assms(2)] root_effect_dirs [OF assms(2)] by (simp add: ns_inv_def)

end
