(* ===== verification/NamespaceNew.thy ===== *)
theory NamespaceNew
  imports NamespaceSafe
begin

unbundle bit_operations_syntax

text \<open>
  Construction and life of a namespace: \<open>NewNamespace\<close> accepts exactly disjoint well-formed
  mounts and makes their mount points; every later sequence of calls keeps the invariant.  Then
  the promises of the single calls: isolation of the root and the mounts from each other,
  protection of read-only mounts and of mount points, renames inside one filesystem only.
\<close>

section \<open>The directories of a new root\<close>

definition dirs_only :: "memory \<Rightarrow> bool" where
  "dirs_only m = (\<forall>p. abs_fs m p \<in> {None, Some DirE})"

text \<open>\<open>m'\<close> came from \<open>m\<close> by making directories.\<close>

definition grown :: "memory \<Rightarrow> memory \<Rightarrow> bool" where
  "grown m m' = (mem_inv m' \<and> dirs_only m' \<and> (\<forall>q. is_dir_at m q \<longrightarrow> is_dir_at m' q))"

lemma grown_trans: "grown a b \<Longrightarrow> grown b c \<Longrightarrow> grown a c"
  by (simp add: grown_def)

lemma grown_refl: "mem_inv m \<Longrightarrow> dirs_only m \<Longrightarrow> grown m m"
  by (simp add: grown_def)

lemma Mkdir_grows:
  assumes inv: "mem_inv m" and dirs: "dirs_only m" and r: "mem_Mkdir now d p m = (e, m')"
  shows "grown m m'"
    "e = None \<or> (\<exists>x. e = Some x \<and> errors_is x ErrExist) \<Longrightarrow> is_dir_at m' d"
proof -
  have ref: "(e, abs_fs m') = spec_mkdir d (abs_fs m)"
    using Mkdir_refines [OF inv, of now d p] r by simp
  have "abs_fs m' = abs_fs m \<or> abs_fs m' = (abs_fs m)(d \<mapsto> DirE)"
    using ref by (auto simp: spec_mkdir_def split: if_splits option.splits)
  then have "dirs_only m'"
    using dirs unfolding dirs_only_def by (elim disjE) (simp_all del: abs_fs_None)
  moreover have "mem_inv m'" using Mkdir_inv [OF inv, of now d p] r by simp
  moreover have "is_dir_at m q \<Longrightarrow> is_dir_at m' q" for q
    using Mkdir_keeps_dir [OF inv, of q now d p] r by simp
  ultimately show "grown m m'" by (simp add: grown_def)
  assume e: "e = None \<or> (\<exists>x. e = Some x \<and> errors_is x ErrExist)"
  have par: "spec_parent a d = Some x \<Longrightarrow> x \<in> {ErrNotExist, Errno ENOTDIR}" for a x
    by (auto simp: spec_parent_def split: option.splits entry.splits)
  show "is_dir_at m' d"
  proof (cases "abs_fs m d")
    case None
    then have "abs_fs m' d = Some DirE"
      using ref e par [of "abs_fs m"]
      by (auto simp: spec_mkdir_def pathErr_def split: if_splits option.splits)
    then show ?thesis by (simp add: abs_fs_DirE)
  next
    case (Some x)
    then have "is_dir_at m d" using dirs unfolding dirs_only_def
      by (metis abs_fs_DirE empty_iff insert_iff option.distinct(1))
    with \<open>grown m m'\<close> show ?thesis by (simp add: grown_def)
  qed
qed

lemma mkdir_each_grows:
  "mem_inv m \<Longrightarrow> dirs_only m \<Longrightarrow> grown m (snd (mkdir_each now ds m))"
proof (induction ds arbitrary: m)
  case (Cons d ds)
  obtain e m1 where r: "mem_Mkdir now d 0x1ED m = (e, m1)" by fastforce
  note g = Mkdir_grows(1) [OF Cons.prems r]
  have "grown m1 (snd (mkdir_each now ds m1))" using Cons.IH g by (simp add: grown_def)
  then show ?case using g r grown_trans [OF g] by (cases e) simp_all
qed (simp add: grown_refl)

lemma mkdir_parts_grows:
  "mem_inv m \<Longrightarrow> dirs_only m \<Longrightarrow> grown m (snd (mkdir_parts now done ds m)) \<and>
   (fst (mkdir_parts now done ds m) = None \<longrightarrow> ds \<noteq> [] \<longrightarrow>
      is_dir_at (snd (mkdir_parts now done ds m)) (go_join ''/'' (done @ ds)))"
proof (induction ds arbitrary: m "done")
  case (Cons d ds)
  let ?name = "go_join ''/'' (done @ [d])"
  obtain e m1 where r: "mem_Mkdir now ?name 0x1ED m = (e, m1)" by fastforce
  note g = Mkdir_grows [OF Cons.prems r]
  have IH: "grown m1 (snd (mkdir_parts now (done @ [d]) ds m1)) \<and>
     (fst (mkdir_parts now (done @ [d]) ds m1) = None \<longrightarrow> ds \<noteq> [] \<longrightarrow>
      is_dir_at (snd (mkdir_parts now (done @ [d]) ds m1)) (go_join ''/'' (done @ d # ds)))"
    using Cons.IH [of m1 "done @ [d]"] g(1) by (simp add: grown_def)
  show ?case
  proof (cases "e = None \<or> (\<exists>x. e = Some x \<and> errors_is x ErrExist)")
    case True
    then have "mkdir_parts now done (d # ds) m = mkdir_parts now (done @ [d]) ds m1"
      using r by auto
    moreover have "ds = [] \<Longrightarrow> is_dir_at (snd (mkdir_parts now (done @ [d]) ds m1)) (go_join ''/'' (done @ d # ds))"
      using g(2) [OF True] by simp
    ultimately show ?thesis using IH grown_trans [OF g(1)] by auto
  next
    case False
    then show ?thesis using r g(1) by auto
  qed
qed (simp add: grown_refl)

section \<open>New\<close>

lemma mount_fs_Stat_mem:
  "fs_Stat (mount_fs F) n s = (r, s1) \<Longrightarrow> w_mem s1 = w_mem s"
  using mount_fs_keeps(1) [of F n s] by simp

lemma split_mount_path:
  assumes "mount_ok m"
  shows "go_split slash (trim_prefix (mt_Path m) ''/'') = mount_elems m"
    "go_join ''/'' (mount_elems m) = mount_point m"
proof -
  note p = mount_path [OF assms]
  have "trim_prefix (mt_Path m) ''/'' = name_of (mount_elems m)"
    using trim_prefix_append [of "''/''" "go_join ''/'' (mount_elems m)"] p
    by (simp add: abs_name_def name_of_def)
  then show "go_split slash (trim_prefix (mt_Path m) ''/'') = mount_elems m"
    using go_split_name_of [OF p(3,2)] by simp
  show "go_join ''/'' (mount_elems m) = mount_point m" using p(2) by (simp add: mount_point_def name_of_def)
qed

text \<open>The mounts accepted so far.\<close>

definition accepted :: "('w, 'h) mount list \<Rightarrow> memory \<Rightarrow> bool" where
  "accepted ms m = (ns_ok \<lparr>ns_mounts = ms\<rparr> \<and> (\<forall>x \<in> set ms. is_dir_at m (mount_point x)))"

lemma accepted_Nil: "accepted [] m"
  by (simp add: accepted_def ns_ok_def)

lemma accepted_grown: "accepted ms m \<Longrightarrow> grown m m' \<Longrightarrow> accepted ms m'"
  by (simp add: accepted_def grown_def)

lemma overlaps_sym: "overlaps a b = overlaps b a"
  by (auto simp: overlaps_def)

lemma accepted_snoc:
  assumes "accepted ms m" "mount_ok x" "\<not> list_ex (\<lambda>y. overlaps (mt_Path x) (mt_Path y)) ms"
    "is_dir_at m (mount_point x)"
  shows "accepted (ms @ [x]) m"
proof -
  have no: "y \<in> set ms \<Longrightarrow> \<not> overlaps (mt_Path x) (mt_Path y) \<and> \<not> overlaps (mt_Path y) (mt_Path x)" for y
    using assms(3) overlaps_sym by (auto simp: list_ex_iff)
  then have "y \<in> set ms \<Longrightarrow> mt_Path x \<noteq> mt_Path y" for y by (auto simp: overlaps_def)
  then show ?thesis using assms(1,2,4) no by (auto simp: accepted_def ns_ok_def)
qed

lemma new_mounts_ok:
  assumes "new_mounts done ms s = (None, s')" "mem_inv (w_mem s)" "dirs_only (w_mem s)"
    "accepted done (w_mem s)"
  shows "mem_inv (w_mem s') \<and> accepted (done @ ms) (w_mem s') \<and> grown (w_mem s) (w_mem s')"
  using assms
proof (induction ms arbitrary: "done" s)
  case Nil
  then show ?case by (simp add: grown_refl)
next
  case (Cons x ms)
  let ?ds = "mount_elems x"
  note r = Cons.prems(1) and inv = Cons.prems(2) and dirs = Cons.prems(3) and acc = Cons.prems(4)
  from r obtain F where F: "mt_FS x = Some F" "\<not> bad_mount_path (mt_Path x)"
        "\<not> list_ex (\<lambda>y. overlaps (mt_Path x) (mt_Path y)) done"
      by (auto split: option.splits if_splits)
  then have ok: "mount_ok x" by (simp add: mount_ok_def)
  obtain i s1 where st: "fs_Stat (mount_fs F) ''.'' s = (i, s1)" by fastforce
  note m1 = mount_fs_Stat_mem [OF st]
  obtain e m2 where mk: "mkdir_parts (w_now s1) [] ?ds (w_mem s1) = (e, m2)" by fastforce
  from r F st mk have e: "e = None" and res: "new_mounts (done @ [x]) ms (s1\<lparr>w_mem := m2\<rparr>) = (None, s')"
      by (auto simp: split_mount_path(1) [OF ok] split: sum.splits if_splits option.splits)
  have g: "grown (w_mem s) m2" "is_dir_at m2 (mount_point x)"
      using mkdir_parts_grows [of "w_mem s" "w_now s1" "[]" ?ds] inv dirs mk m1 e
        mount_path(2) [OF ok] split_mount_path(2) [OF ok] by simp_all
  have "accepted (done @ [x]) m2"
      by (rule accepted_snoc [OF accepted_grown [OF acc g(1)] ok F(3) g(2)])
  with Cons.IH [OF res] g(1) have "mem_inv (w_mem s') \<and> accepted (done @ x # ms) (w_mem s') \<and>
      grown m2 (w_mem s')"
      by (simp add: grown_def)
  with grown_trans [OF g(1)] show ?case by blast
qed

lemma NewMemory_dirs: "dirs_only (NewMemory now counter maxBytes)"
  by (auto simp: dirs_only_def NewMemory_def newNode_def abs_fs_def node_at_def the_node_def
      entry_of_def Let_def)

lemma ns_ok_sorted:
  assumes "ns_ok \<lparr>ns_mounts = ms\<rparr>"
  shows "ns_ok \<lparr>ns_mounts = sort_key k ms\<rparr>"
proof -
  have "mset (map mt_Path (sort_key k ms)) = mset (map mt_Path ms)" by simp
  then have "distinct (map mt_Path (sort_key k ms)) = distinct (map mt_Path ms)"
    by (rule mset_eq_imp_distinct_iff)
  with assms show ?thesis by (simp add: ns_ok_def list_all_iff)
qed

lemma NewNamespace_inv:
  assumes "maxBytes \<le> max_int64"
    and r: "NewNamespace now counter mounts maxBytes ext = (Inr ns, s)"
  shows "ns_inv ns s" "set (ns_mounts ns) = set mounts"
proof -
  define m0 where "m0 = NewMemory now counter maxBytes"
  define s0 where "s0 = \<lparr>w_mem = m0, w_now = now, w_ext = ext\<rparr>"
  obtain m1 where m1: "mkdir_each now [''tmp'', ''work'', ''dev''] m0 = (None, m1)"
    and nm: "new_mounts [] mounts (s0\<lparr>w_mem := m1\<rparr>) = (None, s)"
    and ns: "ns = \<lparr>ns_mounts = sort_key (\<lambda>m. - int (length (mt_Path m))) mounts\<rparr>"
    using r by (auto simp: NewNamespace_def Let_def m0_def s0_def simp del: mkdir_each.simps
        split: option.splits prod.splits)
  have "mem_inv m0" unfolding m0_def by (rule NewMemory_inv [OF assms(1)])
  moreover have "dirs_only m0" by (simp add: m0_def NewMemory_dirs)
  ultimately have g: "grown m0 m1" using mkdir_each_grows [of m0 now] m1 by (metis snd_conv)
  have m1': "mem_inv m1" "dirs_only m1" using g by (simp_all add: grown_def)
  have "mem_inv (w_mem s)" "accepted mounts (w_mem s)"
    using new_mounts_ok [OF nm _ _ accepted_Nil] m1' by simp_all
  then show "ns_inv ns s"
    using ns_ok_sorted [of mounts] by (simp add: ns_inv_def accepted_def ns)
  show "set (ns_mounts ns) = set mounts" by (simp add: ns)
qed

section \<open>Reachable states\<close>

text \<open>
  One call on the namespace or on an open file of the root, any activity of the mounted
  filesystems (through their own open files, or behind the namespace's back), or time passing.
\<close>

inductive ns_step :: "('w, 'h) namespace \<Rightarrow> 'w world \<Rightarrow> 'w world \<Rightarrow> bool" for ns where
  open_name: "ns_step ns s (snd (ns_Open ns name flag perm s))"
| stat: "ns_step ns s (snd (ns_Stat ns name s))"
| lstat: "ns_step ns s (snd (ns_Lstat ns name s))"
| readlink: "ns_step ns s (snd (ns_Readlink ns name s))"
| readdir: "ns_step ns s (snd (ns_ReadDir ns name s))"
| mkdir: "ns_step ns s (snd (ns_Mkdir ns name perm s))"
| remove: "ns_step ns s (snd (ns_Remove ns name dir s))"
| rename: "ns_step ns s (snd (ns_Rename ns old new s))"
| chmod: "ns_step ns s (snd (ns_Chmod ns name perm s))"
| chtimes: "ns_step ns s (snd (ns_Chtimes ns name a t s))"
| root_file: "file_step (w_mem s) m \<Longrightarrow> ns_step ns s (s\<lparr>w_mem := m\<rparr>)"
| mounted: "ns_step ns s (s\<lparr>w_ext := e\<rparr>)"
| clock: "ns_step ns s (s\<lparr>w_now := t\<rparr>)"

lemma ns_step_effect:
  assumes "ns_ok ns" "ns_step ns s s'"
  shows "root_effect ns (w_mem s) (w_mem s')"
  using assms(2)
  by cases (auto simp: assms(1) Open_effect Mkdir_effect Remove_effect Rename_effect Chmod_effect
      Chtimes_effect intro: root_effect.same root_effect.on_file)

lemma ns_step_inv: "ns_inv ns s \<Longrightarrow> ns_step ns s s' \<Longrightarrow> ns_inv ns s'"
  using ns_inv_effect [OF _ ns_step_effect] by (auto simp: ns_inv_def)

lemma ns_steps_inv: "(ns_step ns)\<^sup>*\<^sup>* s s' \<Longrightarrow> ns_inv ns s \<Longrightarrow> ns_inv ns s'"
  by (induction rule: rtranclp_induct) (auto intro: ns_step_inv)

section \<open>Refused calls\<close>

lemma busy_refused:
  assumes ok: "ns_ok ns" and b: "busy ns (path_elems name)"
  shows "ns_Mkdir ns name p s = (Some (Errno EBUSY), s)"
    "ns_Remove ns name d s = (Some (Errno EBUSY), s)"
    "ns_Chmod ns name p s = (Some (Errno EBUSY), s)"
    "ns_Chtimes ns name a t s = (Some (Errno EBUSY), s)"
    "\<not> has_suffix name ''/'' \<Longrightarrow> \<not> has_suffix other ''/'' \<Longrightarrow>
       ns_Rename ns name other s = (Some (Errno EBUSY), s)"
proof -
  have w: "ns_writable ns name = Inl (Errno EBUSY)" by (simp add: writable_elems [OF ok] b)
  then show "ns_Mkdir ns name p s = (Some (Errno EBUSY), s)"
    "ns_Remove ns name d s = (Some (Errno EBUSY), s)"
    "ns_Chmod ns name p s = (Some (Errno EBUSY), s)"
    "ns_Chtimes ns name a t s = (Some (Errno EBUSY), s)"
    by (simp_all add: ns_Mkdir_def ns_Remove_def ns_Chmod_def ns_Chtimes_def)
  show "ns_Rename ns name other s = (Some (Errno EBUSY), s)"
    if "\<not> has_suffix name ''/''" "\<not> has_suffix other ''/''"
    using w that by (simp add: ns_Rename_def check_slash_def)
qed

lemma writable_read_only:
  assumes ok: "ns_ok ns" and m: "mount_of ns (path_elems name) = Some m"
    and ro: "mt_ReadOnly m \<or> fs_Write (the (mt_FS m)) = None"
    and fine: "\<not> contains_nul name" "path_elems name \<noteq> mount_elems m"
  shows "ns_writable ns name = Inl (Errno EROFS)"
proof -
  have mm: "m \<in> set (ns_mounts ns)" "holds m (path_elems name)"
    using m by (simp_all add: mount_of_Some [OF ok])
  note mo = ns_ok_mount [OF ok mm(1)]
  obtain es where es: "path_elems name = mount_elems m @ es"
    using mm(2) holds_elems [OF mo] by auto
  have "\<not> busy ns (path_elems name)"
  proof
    assume "busy ns (path_elems name)"
    then obtain x fs where x: "x \<in> set (ns_mounts ns)" "mount_elems x = mount_elems m @ es @ fs"
      by (auto simp: busy_def es)
    then have "overlaps (mt_Path x) (mt_Path m)"
      using overlaps_elems [OF ns_ok_mount [OF ok x(1)] mo] by auto
    then have "mt_Path x = mt_Path m" using ok x(1) mm(1) by (auto simp: ns_ok_def)
    then have "mount_elems x = mount_elems m" by (simp add: mount_elems_def)
    with x(2) es fine(2) show False by simp
  qed
  then show ?thesis
    using m ro fine(1) by (auto simp: writable_elems [OF ok] route_elems [OF ok] split: option.splits)
qed

lemma Rename_across:
  assumes ok: "ns_ok ns" and own: "ns_owner ns old \<noteq> ns_owner ns new"
    and slash: "\<not> has_suffix old ''/''" "\<not> has_suffix new ''/''"
  shows "snd (ns_Rename ns old new s) = s"
    "ns_writable ns old = Inr x \<Longrightarrow> ns_writable ns new = Inr y \<Longrightarrow>
       fst (ns_Rename ns old new s) = Some (Errno EXDEV)"
  using own slash by (auto simp: ns_Rename_def check_slash_def split: sum.splits)

end
