(* ===== verification/NamespaceMounts.thy ===== *)
theory NamespaceMounts
  imports NamespaceNew
begin

unbundle bit_operations_syntax

text \<open>
  Isolation: what a call on a name of the root cannot do to the mounted filesystems, and what no
  call can do to a filesystem mounted read-only.  The locale \<open>passive_fs\<close> is the contract of
  a filesystem whose reading methods leave a \<open>view\<close> of its state alone (its entries, say,
  but not its table of open files); \<open>Memory\<close> satisfies it.
\<close>

section \<open>Calls on names of the root\<close>

lemma root_call_ext:
  assumes ok: "ns_ok ns" and root: "mount_of ns (path_elems name) = None"
  shows "w_ext (snd (ns_Stat ns name s)) = w_ext s"
    "w_ext (snd (check_slash ns name s)) = w_ext s"
    "w_ext (snd (ns_Lstat ns name s)) = w_ext s"
    "w_ext (snd (ns_ReadDir ns name s)) = w_ext s"
    "w_ext (snd (ns_Open ns name flag perm s)) = w_ext s"
    "w_ext (snd (ns_Mkdir ns name perm s)) = w_ext s"
    "w_ext (snd (ns_Remove ns name dir s)) = w_ext s"
    "w_ext (snd (ns_Chmod ns name perm s)) = w_ext s"
    "w_ext (snd (ns_Chtimes ns name a t s)) = w_ext s"
proof -
  have r: "route ns name = (if contains_nul name then Inl ErrInvalid
      else Inr (root_fs, name_of (path_elems name), False))"
    by (simp add: route_elems [OF ok] root)
  have w: "ns_writable ns name = (if busy ns (path_elems name) then Inl (Errno EBUSY)
      else if contains_nul name then Inl ErrInvalid
      else Inr (root_fs, root_write, name_of (path_elems name)))"
    by (simp add: writable_elems [OF ok] r)
  show st: "w_ext (snd (ns_Stat ns name s)) = w_ext s" for s
    by (auto simp: ns_Stat_def r split: sum.splits)
  show cs: "w_ext (snd (check_slash ns name s)) = w_ext s" for s
    using st [of s] by (auto simp: check_slash_def split: prod.splits sum.splits)
  show ls: "w_ext (snd (ns_Lstat ns name s)) = w_ext s" for s
    using st [of s] by (simp add: ns_Lstat_def r)
  show "w_ext (snd (ns_ReadDir ns name s)) = w_ext s" by (simp add: ns_ReadDir_def r)
  obtain c s1 where c: "check_slash ns name s = (c, s1)" by fastforce
  then show "w_ext (snd (ns_Open ns name flag perm s)) = w_ext s"
    using cs [of s] by (simp add: ns_Open_def r case_prod_beta Let_def split: option.split)
  show "w_ext (snd (ns_Mkdir ns name perm s)) = w_ext s"
    by (simp add: ns_Mkdir_def w case_prod_beta)
  show "w_ext (snd (ns_Chmod ns name perm s)) = w_ext s"
    by (simp add: ns_Chmod_def w case_prod_beta)
  show "w_ext (snd (ns_Chtimes ns name a t s)) = w_ext s"
    by (simp add: ns_Chtimes_def w case_prod_beta)
  obtain i s2 where l: "ns_Lstat ns name s = (i, s2)" by fastforce
  then show "w_ext (snd (ns_Remove ns name dir s)) = w_ext s"
    using ls [of s] by (simp add: ns_Remove_def w case_prod_beta split: sum.split)
qed

text \<open>Calls on names of a mount leave the root memory alone.\<close>

lemma mount_call_mem:
  assumes ok: "ns_ok ns" and m: "mount_of ns (path_elems name) = Some x"
  shows "w_mem (snd (ns_Open ns name flag perm s)) = w_mem s"
    "w_mem (snd (ns_Mkdir ns name perm s)) = w_mem s"
    "w_mem (snd (ns_Remove ns name dir s)) = w_mem s"
    "w_mem (snd (ns_Chmod ns name perm s)) = w_mem s"
    "w_mem (snd (ns_Chtimes ns name a t s)) = w_mem s"
proof -
  let ?F = "mount_fs (the (mt_FS x))" and ?rel = "name_of (drop (length (mount_elems x)) (path_elems name))"
  have r: "route ns name = (if contains_nul name then Inl ErrInvalid
      else Inr (?F, ?rel, mt_ReadOnly x))"
    by (simp add: route_elems [OF ok] m)
  have w: "\<exists>W. w = mount_write W" if "ns_writable ns name = Inr (f, w, rel)" for f w rel
    using ok that by (cases rule: writable_cases) (use m in auto)
  obtain c s1 where c: "check_slash ns name s = (c, s1)" by fastforce
  then have s1: "w_mem s1 = w_mem s" using check_slash_mem [OF ok, of name s] by simp
  with c show "w_mem (snd (ns_Open ns name flag perm s)) = w_mem s"
    by (auto simp: ns_Open_def r split: option.splits)
  obtain i s2 where l: "ns_Lstat ns name s = (i, s2)" by fastforce
  then have s2: "w_mem s2 = w_mem s" using Lstat_mem [OF ok, of name s] by simp
  show "w_mem (snd (ns_Mkdir ns name perm s)) = w_mem s"
    "w_mem (snd (ns_Remove ns name dir s)) = w_mem s"
    "w_mem (snd (ns_Chmod ns name perm s)) = w_mem s"
    "w_mem (snd (ns_Chtimes ns name a t s)) = w_mem s"
    using w l s2 by (auto simp: ns_Mkdir_def ns_Remove_def ns_Chmod_def ns_Chtimes_def
        split: sum.splits option.splits)
qed

section \<open>Read-only mounts\<close>

locale passive_fs =
  fixes F :: "('w, 'h) filesys"
    and view :: "'w \<Rightarrow> 'v"
  assumes Open: "view (snd (fs_Open F n w)) = view w"
    and Stat: "view (snd (fs_Stat F n w)) = view w"
    and ReadDir: "view (snd (fs_ReadDir F n w)) = view w"
    and Lstat: "fs_Lstat F = Some l \<Longrightarrow> view (snd (l n w)) = view w"
    and Readlink: "fs_Readlink F = Some rl \<Longrightarrow> view (snd (rl n w)) = view w"
begin

lemma mounted:
  "view (w_ext (snd (fs_Open (mount_fs F) n s))) = view (w_ext s)"
  "view (w_ext (snd (fs_Stat (mount_fs F) n s))) = view (w_ext s)"
  "view (w_ext (snd (fs_ReadDir (mount_fs F) n s))) = view (w_ext s)"
  "fs_Lstat (mount_fs F) = Some l \<Longrightarrow> view (w_ext (snd (l n s))) = view (w_ext s)"
  "fs_Readlink (mount_fs F) = Some rl \<Longrightarrow> view (w_ext (snd (rl n s))) = view (w_ext s)"
  using Open Stat ReadDir Lstat Readlink
  by (auto simp: mount_fs_def lift_fs_def lift_def lift_open_def Let_def case_prod_beta)

lemma protected:
  assumes ok: "ns_ok ns" and m: "mount_of ns (path_elems name) = Some x" "mt_FS x = Some F"
    and ro: "mt_ReadOnly x \<or> fs_Write F = None"
  shows "view (w_ext (snd (ns_Stat ns name s))) = view (w_ext s)"
    "view (w_ext (snd (check_slash ns name s))) = view (w_ext s)"
    "view (w_ext (snd (ns_Lstat ns name s))) = view (w_ext s)"
    "view (w_ext (snd (ns_Readlink ns name s))) = view (w_ext s)"
    "view (w_ext (snd (ns_ReadDir ns name s))) = view (w_ext s)"
    "view (w_ext (snd (ns_Open ns name flag perm s))) = view (w_ext s)"
    "\<exists>e. ns_writable ns name = Inl e"
proof -
  let ?rel = "name_of (drop (length (mount_elems x)) (path_elems name))"
  have r: "route ns name = (if contains_nul name then Inl ErrInvalid
      else Inr (mount_fs F, ?rel, mt_ReadOnly x))"
    by (simp add: route_elems [OF ok] m)
  show st: "view (w_ext (snd (ns_Stat ns name s))) = view (w_ext s)" for s
    using mounted(2) [of ?rel s] by (auto simp: ns_Stat_def r split: sum.splits prod.splits)
  show cs: "view (w_ext (snd (check_slash ns name s))) = view (w_ext s)" for s
    using st [of s] by (auto simp: check_slash_def split: prod.splits sum.splits)
  show "view (w_ext (snd (ns_Lstat ns name s))) = view (w_ext s)"
    using st [of s] mounted(4) by (auto simp: ns_Lstat_def r split: option.splits)
  show "view (w_ext (snd (ns_Readlink ns name s))) = view (w_ext s)"
    using mounted(5) by (auto simp: ns_Readlink_def r split: option.splits)
  show "view (w_ext (snd (ns_ReadDir ns name s))) = view (w_ext s)"
    using mounted(3) by (simp add: ns_ReadDir_def r)
  obtain c s1 where c: "check_slash ns name s = (c, s1)" by fastforce
  then show "view (w_ext (snd (ns_Open ns name flag perm s))) = view (w_ext s)"
    using cs [of s] mounted(1) ro by (auto simp: ns_Open_def r split: option.splits)
  show "\<exists>e. ns_writable ns name = Inl e"
    using ro by (auto simp: writable_elems [OF ok] r split: option.splits)
qed

lemma protected_changes:
  assumes "ns_ok ns" "mount_of ns (path_elems name) = Some x" "mt_FS x = Some F"
    and "mt_ReadOnly x \<or> fs_Write F = None"
  shows "snd (ns_Mkdir ns name perm s) = s \<and> snd (ns_Remove ns name dir s) = s \<and>
    snd (ns_Chmod ns name perm s) = s \<and> snd (ns_Chtimes ns name a t s) = s"
  using protected(7) [OF assms]
  by (auto simp: ns_Mkdir_def ns_Remove_def ns_Chmod_def ns_Chtimes_def)

end

text \<open>A mounted \<open>Memory\<close>: opening a file for reading touches no entry.\<close>

lemma refs_abs_fs: "abs_fs (upd_node p (\<lambda>n. n\<lparr>n_refs := x n\<rparr>) m) = abs_fs m"
proof (cases "p < length (m_heap m)")
  case True
  then show ?thesis by (rule abs_fs_refs)
next
  case False
  then have "upd_node p (\<lambda>n. n\<lparr>n_refs := x n\<rparr>) m = m"
    by (simp add: upd_node_def list_update_beyond)
  then show ?thesis by simp
qed

lemma Open_abs_fs: "abs_fs (snd (mem_Open now n m)) = abs_fs m"
  by (auto simp: mem_Open_def mem_OpenFile_def open_node_def Let_def flag_defs has_flag_def
      refs_abs_fs split: sum.splits)

interpretation memory_mount: passive_fs memory_fs "\<lambda>s. abs_fs (fst s)"
  by unfold_locales
    (auto simp: memory_fs_def with_clock_def Let_def case_prod_beta Open_abs_fs)

end
