(* ===== verification/NamespaceClaims.thy ===== *)
theory NamespaceClaims
  imports NamespaceMounts
begin

unbundle bit_operations_syntax

text \<open>
  The properties of the namespace, with instances on \<open>demo\<close>: a namespace with one
  read-only memory filesystem mounted at \<open>/data\<close>.
\<close>

section \<open>A concrete namespace\<close>

type_synonym demo_world = "(memory \<times> time) world"

definition demo_mount :: "(memory \<times> time, fd) mount" where
  "demo_mount = \<lparr>mt_Path = ''/data'', mt_FS = Some memory_fs, mt_ReadOnly = True\<rparr>"

definition demo :: "(memory \<times> time, fd) namespace" where
  "demo = \<lparr>ns_mounts = [demo_mount]\<rparr>"

definition demo_world :: demo_world where
  "demo_world = snd (NewNamespace 0 0 [demo_mount] 1000 (NewMemory 0 9 100, 0)
                     :: (memory \<times> time, fd) namespace res \<times> demo_world)"

lemma New_result:
  "fst (NewNamespace now c ms mx e) = Inr ns \<Longrightarrow>
   ns = \<lparr>ns_mounts = sort_key (\<lambda>m. - int (length (mt_Path m))) ms\<rparr>"
  by (auto simp: NewNamespace_def Let_def simp del: mkdir_each.simps split: option.splits prod.splits)

lemma demo_New: "NewNamespace 0 0 [demo_mount] 1000 (NewMemory 0 9 100, 0) = (Inr demo, demo_world)"
proof -
  let ?r = "NewNamespace 0 0 [demo_mount] 1000 (NewMemory 0 9 100, 0)"
  have "is_ok (fst ?r)" by code_simp
  then obtain ns where ns: "fst ?r = Inr ns" by (cases "fst ?r") simp_all
  then have "ns = demo" using New_result [OF ns] by (simp add: demo_def)
  with ns show ?thesis by (simp add: demo_world_def prod_eq_iff)
qed

lemma demo_inv: "ns_inv demo demo_world"
  by (rule NewNamespace_inv(1) [OF _ demo_New]) (simp add: max_int64_def)

lemma demo_ok: "ns_ok demo"
  using demo_inv by (simp add: ns_inv_def)

lemma demo_elems: "mount_elems demo_mount = [''data'']"
  by code_simp

lemma demo_mount_of:
  "mount_of demo [''data''] = Some demo_mount" "mount_of demo [''data'', ''x''] = Some demo_mount"
  "mount_of demo [''tmp'', ''x''] = None"
  using demo_elems ns_ok_mount [OF demo_ok]
  by (simp_all add: mount_of_Some [OF demo_ok] mount_of_None holds_elems good_elem_def)
    (simp_all add: demo_def holds_elems demo_elems good_elem_def)

lemma elems_ex: "path_elems ''data/x'' = [''data'', ''x'']" "path_elems ''data'' = [''data'']"
  "path_elems ''tmp/x'' = [''tmp'', ''x'']"
  by code_simp+

section \<open>Names\<close>

lemma clean_elems_subset: "set (clean_elems True es) \<subseteq> set es"
proof -
  have "set (foldl (clean_step True) st es) \<subseteq> set st \<union> set es" for st
  proof (induction es arbitrary: st)
    case (Cons e es)
    have "set (clean_step True st e) \<subseteq> set st \<union> {e}" by (cases st) auto
    then show ?case unfolding foldl.simps list.set using Cons.IH [of "clean_step True st e"] by blast
  qed simp
  then show ?thesis by (fastforce simp: clean_elems_def)
qed

lemma name_split: "name_of (go_split slash s) = s"
  by (simp add: name_of_def go_join_split)

lemma path_elems_clean:
  "\<not> contains_nul s \<Longrightarrow> c \<in> set (path_elems s) \<Longrightarrow> \<not> contains_nul c"
  "valid_utf8 s \<Longrightarrow> c \<in> set (path_elems s) \<Longrightarrow> valid_utf8 c"
  using contains_nul_name_of [of "go_split slash s"] valid_utf8_name [of "go_split slash s"]
    clean_elems_subset [of "go_split slash s"]
  by (auto simp: name_split path_elems_def)

text \<open>C11: Whatever guest name a caller gives, with \<open>..\<close>, empty elements or a trailing slash, the
  name handed to the filesystem it is routed to consists of proper elements only, contains no NUL
  byte, and is a valid \<open>io/fs\<close> path if the name was valid UTF-8: no call escapes its mount.\<close>

theorem route_confined:
  assumes "ns_ok ns" "route ns name = Inr (f, rel, ro)"
  shows "\<exists>cs. rel = name_of cs \<and> good_elems cs \<and> \<not> contains_nul rel \<and>
    (valid_utf8 name \<longrightarrow> valid rel) \<and>
    (f = root_fs \<and> \<not> ro \<or>
     (\<exists>m \<in> set (ns_mounts ns). f = mount_fs (the (mt_FS m)) \<and> ro = mt_ReadOnly m \<and>
        path_elems name = mount_elems m @ cs))"
proof -
  have nul: "\<not> contains_nul name" using assms by (auto simp: route_def split: if_splits)
  have val: "\<not> contains_nul (name_of cs) \<and> (valid_utf8 name \<longrightarrow> valid (name_of cs))"
    if "good_elems cs" "set cs \<subseteq> set (path_elems name)" for cs
    using that path_elems_clean [of name] nul
    by (auto simp: contains_nul_name_of valid_def valid_path_name_of)
  from assms show ?thesis
  proof (cases rule: route_cases)
    case root
    then show ?thesis using val [of "path_elems name"] by auto
  next
    case (mount m)
    then have m: "m \<in> set (ns_mounts ns)" "holds m (path_elems name)"
      by (simp_all add: mount_of_Some [OF assms(1)])
    then obtain cs where cs: "path_elems name = mount_elems m @ cs"
      using holds_elems [OF ns_ok_mount [OF assms(1) m(1)]] by auto
    then have "good_elems cs" using good_path_elems [of name] by simp
    then show ?thesis using mount val [of cs] cs m(1) by auto
  qed
qed

theorem route_confined_witness:
  "\<exists>f ro cs. route demo ''/data/../data/./x//y/'' = Inr (f, ''x/y'', ro) \<and> ''x/y'' = name_of cs \<and>
    good_elems cs \<and> ro"
proof -
  have "(case route demo ''/data/../data/./x//y/'' of Inl e \<Rightarrow> False | Inr (f, rel, ro) \<Rightarrow> rel = ''x/y'' \<and> ro)"
    by code_simp
  then obtain f where r: "route demo ''/data/../data/./x//y/'' = Inr (f, ''x/y'', True)"
    by (cases "route demo ''/data/../data/./x//y/''") auto
  show ?thesis using route_confined [OF demo_ok r] r by blast
qed

text \<open>Resolving a name against any directory gives an absolute name made of proper elements,
  keeps a trailing slash (or final dot) exactly as a trailing slash, and is idempotent.\<close>

theorem resolve_normal_form:
  "\<exists>cs. good_elems cs \<and>
     Resolve cwd name = abs_name cs @
       (if cs \<noteq> [] \<and> (has_suffix name ''/'' \<or> path_base name = ''.'') then ''/'' else []) \<and>
     Resolve d (Resolve cwd name) = Resolve cwd name"
  by (intro exI [of _ "path_elems (if has_prefix name ''/'' then name else path_join cwd name)"])
    (simp add: Resolve_idem, simp add: Resolve_abs Let_def)

section \<open>Mounts\<close>

text \<open>The order of the mounts does not matter: since \<open>New\<close> refuses overlapping mounts, at most
  one of them holds a name, and every order of the list routes every name the same way.\<close>

theorem routing_order_irrelevant:
  assumes "ns_ok \<lparr>ns_mounts = ms\<rparr>" "mset ms' = mset ms"
  shows "route \<lparr>ns_mounts = ms'\<rparr> name = route \<lparr>ns_mounts = ms\<rparr> name"
proof -
  have set: "set ms' = set ms" using assms(2) by (rule mset_eq_setD)
  have "mset (map mt_Path ms') = mset (map mt_Path ms)" using assms(2) by simp
  then have "distinct (map mt_Path ms') = distinct (map mt_Path ms)" by (rule mset_eq_imp_distinct_iff)
  with assms(1) set have ok: "ns_ok \<lparr>ns_mounts = ms'\<rparr>" by (simp add: ns_ok_def list_all_iff)
  have "mount_of \<lparr>ns_mounts = ms'\<rparr> cs = mount_of \<lparr>ns_mounts = ms\<rparr> cs" if "good_elems cs" for cs
    using mount_of_Some [OF ok that] mount_of_Some [OF assms(1) that] set
    by (cases "mount_of \<lparr>ns_mounts = ms'\<rparr> cs"; cases "mount_of \<lparr>ns_mounts = ms\<rparr> cs")
      (auto simp del: not_None_eq)
  then show ?thesis by (simp add: route_elems [OF ok] route_elems [OF assms(1)])
qed

theorem routing_order_irrelevant_witness:
  "route \<lparr>ns_mounts = rev [demo_mount]\<rparr> ''/data/x'' = route \<lparr>ns_mounts = [demo_mount]\<rparr> ''/data/x''"
  by (rule routing_order_irrelevant) (simp_all add: demo_ok [unfolded demo_def])

text \<open>C9: In every state that calls on the namespace, on open files of the root and on the mounted
  filesystems can reach after \<open>New\<close>, the mounts are well formed and disjoint, the root memory
  satisfies its invariant, and every mount point is still a directory of the root.\<close>

theorem mount_points_stay:
  assumes "maxBytes \<le> max_int64" "NewNamespace now counter mounts maxBytes ext = (Inr ns, s)"
    and "(ns_step ns)\<^sup>*\<^sup>* s s'" "m \<in> set mounts"
  shows "mem_inv (w_mem s') \<and> mount_ok m \<and> is_dir_at (w_mem s') (mount_point m) \<and>
    (\<forall>m' \<in> set mounts. mt_Path m = mt_Path m' \<or> \<not> overlaps (mt_Path m) (mt_Path m'))"
  using ns_steps_inv [OF assms(3) NewNamespace_inv(1) [OF assms(1,2)]]
    NewNamespace_inv(2) [OF assms(1,2)] assms(4) ns_ok_mount [of ns m]
  by (auto simp: ns_inv_def ns_ok_def)

theorem mount_points_stay_witness:
  "is_dir_at (w_mem (snd (ns_Remove demo ''/data'' True demo_world))) ''data''"
proof -
  have "(ns_step demo)\<^sup>*\<^sup>* demo_world (snd (ns_Remove demo ''/data'' True demo_world))"
    by (rule r_into_rtranclp) (rule ns_step.remove)
  then have "is_dir_at (w_mem (snd (ns_Remove demo ''/data'' True demo_world))) (mount_point demo_mount)"
    using mount_points_stay [OF _ demo_New, of _ demo_mount] by (simp add: max_int64_def)
  then show ?thesis by (simp add: mount_point_def demo_elems)
qed

text \<open>C27: A call that would change a mount point, a directory above one or the root of a namespace
  with mounts fails with \<open>EBUSY\<close> and changes nothing.\<close>

theorem mount_points_busy:
  assumes "ns_ok ns" "m \<in> set (ns_mounts ns)" "mount_elems m = path_elems name @ es"
  shows "ns_Mkdir ns name p s = (Some (Errno EBUSY), s) \<and>
    ns_Remove ns name d s = (Some (Errno EBUSY), s) \<and>
    ns_Chmod ns name p s = (Some (Errno EBUSY), s) \<and>
    ns_Chtimes ns name a t s = (Some (Errno EBUSY), s) \<and>
    (\<not> has_suffix name ''/'' \<and> \<not> has_suffix other ''/'' \<longrightarrow>
       ns_Rename ns name other s = (Some (Errno EBUSY), s))"
proof -
  have "busy ns (path_elems name)" using assms(2,3) by (auto simp: busy_def)
  then show ?thesis by (simp add: busy_refused [OF assms(1)])
qed

theorem mount_points_busy_witness:
  "ns_Rename demo ''/data'' ''/tmp/x'' demo_world = (Some (Errno EBUSY), demo_world)"
proof -
  have "demo_mount \<in> set (ns_mounts demo)" by (simp add: demo_def)
  moreover have "mount_elems demo_mount = path_elems ''/data'' @ []" by (simp add: demo_elems elems_ex)
  moreover have "\<not> has_suffix ''/data'' ''/''" "\<not> has_suffix ''/tmp/x'' ''/''" by code_simp+
  ultimately show ?thesis using mount_points_busy [OF demo_ok] by blast
qed

text \<open>Below a mount that is read-only, or whose filesystem cannot be written, every changing call
  fails with \<open>EROFS\<close> and changes nothing; so does opening a file with any writing flag.\<close>

theorem read_only_mounts:
  assumes "ns_ok ns" "mount_of ns (path_elems name) = Some m"
    and "mt_ReadOnly m \<or> fs_Write (the (mt_FS m)) = None"
    and "\<not> contains_nul name" "path_elems name \<noteq> mount_elems m"
  shows "ns_Mkdir ns name p s = (Some (Errno EROFS), s) \<and>
    ns_Remove ns name d s = (Some (Errno EROFS), s) \<and>
    ns_Chmod ns name p s = (Some (Errno EROFS), s) \<and>
    ns_Chtimes ns name a t s = (Some (Errno EROFS), s) \<and>
    (has_flag flag (O_WRONLY OR O_RDWR OR O_CREATE OR O_TRUNC OR O_APPEND) \<longrightarrow>
     \<not> has_suffix name ''/'' \<longrightarrow> Resolve ''/'' name \<noteq> ''/dev/null'' \<longrightarrow>
       ns_Open ns name flag p s = (Inl (PathError ''open'' name (Errno EROFS)), s))"
proof -
  have "ns_writable ns name = Inl (Errno EROFS)" by (rule writable_read_only [OF assms])
  moreover have "route ns name = Inr (mount_fs (the (mt_FS m)),
      name_of (drop (length (mount_elems m)) (path_elems name)), mt_ReadOnly m)"
    using assms(2,4) by (simp add: route_elems [OF assms(1)])
  ultimately show ?thesis
    using assms(3) by (auto simp: ns_Mkdir_def ns_Remove_def ns_Chmod_def ns_Chtimes_def ns_Open_def
        check_slash_def split: option.split)
qed

theorem read_only_mounts_witness:
  "ns_Mkdir demo ''/data/x'' 0 demo_world = (Some (Errno EROFS), demo_world) \<and>
   ns_Open demo ''/data/x'' (O_WRONLY OR O_CREATE) 0 demo_world =
     (Inl (PathError ''open'' ''/data/x'' (Errno EROFS)), demo_world)"
proof -
  have c: "\<not> contains_nul ''/data/x''" "\<not> has_suffix ''/data/x'' ''/''" "Resolve ''/'' ''/data/x'' \<noteq> ''/dev/null''"
    "has_flag (O_WRONLY OR O_CREATE) (O_WRONLY OR O_RDWR OR O_CREATE OR O_TRUNC OR O_APPEND)"
    by code_simp+
  have "mount_of demo (path_elems ''/data/x'') = Some demo_mount" "mt_ReadOnly demo_mount"
    "path_elems ''/data/x'' \<noteq> mount_elems demo_mount"
    using demo_mount_of demo_elems
    by (simp_all add: elems_ex demo_mount_def [THEN arg_cong [where f = mt_ReadOnly]])
  then show ?thesis using read_only_mounts [OF demo_ok, of "''/data/x''"] c by blast
qed







text \<open>C25: On names of the root that are neither mount points nor above one, \<open>Mkdir\<close> and
  \<open>Rename\<close> of the namespace are those of the abstract filesystem, applied to the names'
  elements.\<close>

theorem namespace_refines_spec:
  assumes "ns_inv ns s" "ns_owner ns a = ''/''" "ns_owner ns b = ''/''"
    and "\<not> contains_nul a" "\<not> contains_nul b" "\<not> has_suffix a ''/''" "\<not> has_suffix b ''/''"
    and "\<forall>m \<in> set (ns_mounts ns). \<forall>es. mount_elems m \<noteq> path_elems a @ es \<and> mount_elems m \<noteq> path_elems b @ es"
  shows "map_prod id (\<lambda>w. abs_fs (w_mem w)) (ns_Mkdir ns a p s) =
      spec_mkdir (name_of (path_elems a)) (abs_fs (w_mem s)) \<and>
    map_prod id (\<lambda>w. abs_fs (w_mem w)) (ns_Rename ns a b s) =
      spec_rename (name_of (path_elems a)) (name_of (path_elems b)) (abs_fs (w_mem s))"
proof -
  have ok: "ns_ok ns" and inv: "mem_inv (w_mem s)" using assms(1) by (simp_all add: ns_inv_def)
  have none: "mount_of ns (path_elems x) = None" if "ns_owner ns x = ''/''" for x
  proof (cases "mount_of ns (path_elems x)")
    case (Some m)
    then have "mount_ok m" using ns_ok_mount [OF ok] by (simp add: mount_of_Some [OF ok])
    with Some that show ?thesis by (simp add: owner_elems mount_ok_def bad_mount_path_def)
  qed
  have w: "ns_writable ns a = Inr (root_fs, root_write, name_of (path_elems a))"
    "ns_writable ns b = Inr (root_fs, root_write, name_of (path_elems b))"
    using assms(4,5,8) none [OF assms(2)] none [OF assms(3)]
    by (auto simp: writable_elems [OF ok] route_elems [OF ok] busy_def)
  show ?thesis
    using mem.mkdir_spec [OF inv, of "w_now s" "name_of (path_elems a)" p]
      mem.rename_spec [OF inv, of "name_of (path_elems a)" "name_of (path_elems b)"] w assms(2,3,6,7)
    by (simp add: ns_Mkdir_def ns_Rename_def check_slash_def case_prod_beta map_prod_def)
qed

theorem namespace_refines_spec_witness:
  "map_prod id (\<lambda>w. abs_fs (w_mem w)) (ns_Mkdir demo ''/tmp/x'' 0x1ED demo_world) =
     spec_mkdir ''tmp/x'' (abs_fs (w_mem demo_world))"
proof -
  have "\<not> contains_nul ''/tmp/x''" "\<not> has_suffix ''/tmp/x'' ''/''"
    "name_of [''tmp'', ''x''] = ''tmp/x''" by code_simp+
  then show ?thesis
    using namespace_refines_spec [OF demo_inv, of "''/tmp/x''" "''/tmp/x''"]
    by (simp add: owner_elems elems_ex demo_mount_of demo_elems
        demo_def [THEN arg_cong [where f = ns_mounts]])
qed

section \<open>The null device\<close>

text \<open>\<open>/dev/null\<close> can be opened with any flags, without touching any filesystem, and is reported
  as a character device; but \<open>Mkdir\<close> does not know it: it makes a directory of that name, which
  no lookup will ever find.\<close>

theorem null_device:
  assumes "ns_inv ns s" "ns_mounts ns = []" "is_dir_at (w_mem s) ''dev''"
    and "node_at (w_mem s) ''dev/null'' = None" "length (m_nodes (w_mem s)) < max_nodes"
  shows "ns_Open ns ''/dev/null'' flag p s = (Inr NullFile, s) \<and>
    ns_Stat ns ''/dev/null'' s = (Inr nullInfo, s) \<and> \<not> info_is_dir nullInfo \<and>
    fst (ns_Mkdir ns ''/dev/null'' p s) = None \<and>
    is_dir_at (w_mem (snd (ns_Mkdir ns ''/dev/null'' p s))) ''dev/null'' \<and>
    fst (ns_Stat ns ''/dev/null'' (snd (ns_Mkdir ns ''/dev/null'' p s))) = Inr nullInfo"
proof -
  have e: "Resolve ''/'' ''/dev/null'' = ''/dev/null''" "\<not> has_suffix ''/dev/null'' ''/''"
    "path_elems ''/dev/null'' = [''dev'', ''null'']" "\<not> contains_nul ''/dev/null''"
    "name_of [''dev'', ''null''] = ''dev/null''" "valid ''dev/null''" "path_dir ''dev/null'' = ''dev''"
    "\<not> info_is_dir nullInfo"
    by code_simp+
  have ok: "ns_ok ns" and inv: "mem_inv (w_mem s)" using assms(1) by (simp_all add: ns_inv_def)
  have w: "ns_writable ns ''/dev/null'' = Inr (root_fs, root_write, ''dev/null'')"
    using assms(2) e by (simp add: writable_elems [OF ok] route_elems [OF ok] busy_def mount_of_def)
  have st: "ns_Stat ns ''/dev/null'' w = (Inr nullInfo, w)" for w
    by (simp add: ns_Stat_def e)
  have "spec_mkdir ''dev/null'' (abs_fs (w_mem s)) = (None, (abs_fs (w_mem s))(''dev/null'' \<mapsto> DirE))"
    using assms(3-5) e spec_full_abs [OF mem_inv_parts(1) [OF inv]]
    by (simp add: spec_mkdir_def spec_parent_def abs_fs_DirE [symmetric] node_at_def del: abs_fs_None)
      (simp add: abs_fs_absent)
  then have mk: "map_prod id abs_fs (mem_Mkdir (w_now s) ''dev/null'' p (w_mem s)) =
      (None, (abs_fs (w_mem s))(''dev/null'' \<mapsto> DirE))"
    using Mkdir_refines [OF inv] by simp
  then show ?thesis
    using st e w by (simp add: ns_Open_def check_slash_def ns_Mkdir_def case_prod_beta
        abs_fs_DirE [symmetric] map_prod_def)
qed

theorem null_device_witness:
  "fst (ns_Mkdir (\<lparr>ns_mounts = []\<rparr> :: (unit, unit) namespace) ''/dev/null'' 0x1ED
     (snd (NewNamespace 0 0 [] 100 () :: (unit, unit) namespace res \<times> unit world))) = None"
proof -
  let ?r = "NewNamespace 0 0 [] 100 () :: (unit, unit) namespace res \<times> unit world"
  have "is_ok (fst ?r)" by code_simp
  then obtain ns where ns: "fst ?r = Inr ns" by (cases "fst ?r") simp_all
  then have r: "?r = (Inr \<lparr>ns_mounts = []\<rparr>, snd ?r)"
    using New_result [OF ns] by (simp add: prod_eq_iff)
  have inv: "ns_inv (\<lparr>ns_mounts = []\<rparr> :: (unit, unit) namespace) (snd ?r)"
    by (rule NewNamespace_inv(1) [OF _ r]) (simp add: max_int64_def)
  have f: "is_dir_at (w_mem (snd ?r)) ''dev''" "map_of (m_nodes (w_mem (snd ?r))) ''dev/null'' = None"
    "length (m_nodes (w_mem (snd ?r))) = 4"
    by code_simp+
  have l: "length (m_nodes (w_mem (snd ?r))) < max_nodes" by (simp only: f(3)) (simp add: max_nodes_def)
  have n: "node_at (w_mem (snd ?r)) ''dev/null'' = None" by (simp only: node_at_def f(2) option.map)
  have m: "ns_mounts (\<lparr>ns_mounts = []\<rparr> :: (unit, unit) namespace) = []" by simp
  from null_device [OF inv m f(1) n l] show ?thesis by blast
qed

end
