(* ===== verification/Wasi.thy ===== *)
theory Wasi
  imports NamespaceNew
begin

unbundle bit_operations_syntax

text \<open>
  \<open>internal/fsys/wasi.go\<close>: the adapter between WASI's filesystem calls and the namespace, one
  definition per Go function.

  An open file (\<open>fs.File\<close>) is a record of its methods; the methods the adapter finds by type
  assertion are options.  What the adapter takes from wazero is an argument: the constants and the
  errno values are named, not numbered; an open flag is the record of the bits the source tests;
  \<open>sys.NewStat_t\<close> and the value of \<open>UTIME_OMIT\<close> are fields of the record \<open>wasi\<close>, next to
  the methods of the mounted filesystems' open files.
\<close>

section \<open>Open files as objects\<close>

record 's fileobj =
  fo_Stat :: "'s \<Rightarrow> fileInfo res \<times> 's"
  fo_Read :: "nat \<Rightarrow> 's \<Rightarrow> (byte list \<times> goerr option) \<times> 's"
  fo_Close :: "'s \<Rightarrow> goerr option \<times> 's"
  fo_ReadAt :: "(nat \<Rightarrow> int \<Rightarrow> 's \<Rightarrow> (byte list \<times> goerr option) \<times> 's) option"
  fo_Seek :: "(int \<Rightarrow> int \<Rightarrow> 's \<Rightarrow> int res \<times> 's) option"
  fo_Write :: "(byte list \<Rightarrow> 's \<Rightarrow> (int \<times> goerr option) \<times> 's) option"
  fo_WriteAt :: "(byte list \<Rightarrow> int \<Rightarrow> 's \<Rightarrow> (int \<times> goerr option) \<times> 's) option"
  fo_Truncate :: "(int \<Rightarrow> 's \<Rightarrow> goerr option \<times> 's) option"
  fo_Chtimes :: "(time \<Rightarrow> time \<Rightarrow> 's \<Rightarrow> goerr option \<times> 's) option"
  fo_Sync :: "('s \<Rightarrow> goerr option \<times> 's) option"
  fo_ReadDir :: "(int \<Rightarrow> 's \<Rightarrow> fileInfo list res \<times> 's) option"

definition lift_obj :: "('s \<Rightarrow> 't) \<Rightarrow> ('t \<Rightarrow> 's \<Rightarrow> 's) \<Rightarrow> 't fileobj \<Rightarrow> 's fileobj" where
  "lift_obj get put f =
     \<lparr>fo_Stat = lift get put (fo_Stat f),
      fo_Read = \<lambda>n. lift get put (fo_Read f n),
      fo_Close = lift get put (fo_Close f),
      fo_ReadAt = map_option (\<lambda>g n off. lift get put (g n off)) (fo_ReadAt f),
      fo_Seek = map_option (\<lambda>g off w. lift get put (g off w)) (fo_Seek f),
      fo_Write = map_option (\<lambda>g p. lift get put (g p)) (fo_Write f),
      fo_WriteAt = map_option (\<lambda>g p off. lift get put (g p off)) (fo_WriteAt f),
      fo_Truncate = map_option (\<lambda>g sz. lift get put (g sz)) (fo_Truncate f),
      fo_Chtimes = map_option (\<lambda>g a m. lift get put (g a m)) (fo_Chtimes f),
      fo_Sync = map_option (lift get put) (fo_Sync f),
      fo_ReadDir = map_option (\<lambda>g n. lift get put (g n)) (fo_ReadDir f)\<rparr>"

text \<open>\<open>*memoryFile\<close> has every method but \<open>Sync\<close>; \<open>*nullFile\<close> only the ones it defines.\<close>

definition memory_file :: "fd \<Rightarrow> (memory \<times> time) fileobj" where
  "memory_file h =
     \<lparr>fo_Stat = with_clock (\<lambda>now m. (mf_Stat h m, m)),
      fo_Read = \<lambda>n. with_clock (\<lambda>now. mf_Read h n),
      fo_Close = with_clock (\<lambda>now. mf_Close h),
      fo_ReadAt = Some (\<lambda>n off. with_clock (\<lambda>now m. (mf_ReadAt h n off m, m))),
      fo_Seek = Some (\<lambda>off w. with_clock (\<lambda>now. mf_Seek h off w)),
      fo_Write = Some (\<lambda>p. with_clock (\<lambda>now. mf_Write now h p)),
      fo_WriteAt = Some (\<lambda>p off. with_clock (\<lambda>now. mf_WriteAt now h p off)),
      fo_Truncate = Some (\<lambda>sz. with_clock (\<lambda>now. mf_Truncate now h sz)),
      fo_Chtimes = Some (\<lambda>a m. with_clock (\<lambda>now. mf_Chtimes h a m)),
      fo_Sync = None,
      fo_ReadDir = Some (\<lambda>n. with_clock (\<lambda>now. mf_ReadDir h n))\<rparr>"

definition null_file :: "'s fileobj" where
  "null_file =
     \<lparr>fo_Stat = \<lambda>s. (nullFile_Stat, s), fo_Read = \<lambda>n s. (nullFile_Read n, s),
      fo_Close = \<lambda>s. (nullFile_Close, s), fo_ReadAt = None, fo_Seek = None,
      fo_Write = Some (\<lambda>p s. (nullFile_Write p, s)), fo_WriteAt = None, fo_Truncate = None,
      fo_Chtimes = None, fo_Sync = None, fo_ReadDir = None\<rparr>"

section \<open>What wazero provides\<close>

datatype werrno =
    W_OK | W_EACCES | W_EBADF | W_EEXIST | W_EINVAL | W_EIO | W_EISDIR | W_ELOOP | W_ENOENT
  | W_ENOSYS | W_ENOTDIR | W_ENOTEMPTY | W_ENOTSUP | W_EPERM | W_EROFS

record wflags =
  wo_RDWR :: bool
  wo_WRONLY :: bool
  wo_APPEND :: bool
  wo_CREAT :: bool
  wo_EXCL :: bool
  wo_TRUNC :: bool
  wo_DIRECTORY :: bool
  wo_NOFOLLOW :: bool

text \<open>The fields of \<open>sys.Stat_t\<close> the adapter reads or sets.\<close>

record stat_t =
  st_Dev :: "64 word"
  st_Ino :: "64 word"
  st_Mode :: filemode
  st_Size :: int
  st_Atim :: int
  st_Mtim :: int

record ('w, 'h) wasi =
  ws_NS :: "('w, 'h) namespace"
  ws_Cwd :: string
  ws_file :: "'h \<Rightarrow> 'w fileobj"
  ws_NewStat :: "fileInfo \<Rightarrow> stat_t"
  ws_OMIT :: int

definition file_obj :: "('w, 'h) wasi \<Rightarrow> 'h vfile \<Rightarrow> 'w world fileobj" where
  "file_obj W f =
     (case f of
        NullFile \<Rightarrow> null_file
      | MemFile h \<Rightarrow> lift_obj (\<lambda>s. (w_mem s, w_now s)) (\<lambda>t s. s\<lparr>w_mem := fst t\<rparr>) (memory_file h)
      | ExtFile h \<Rightarrow> lift_obj w_ext (\<lambda>e s. s\<lparr>w_ext := e\<rparr>) (ws_file W h))"

section \<open>Errors, times and file descriptions\<close>

text \<open>\<open>errno\<close>: the first entry of the table that matches, in its order.\<close>

definition errno_table :: "(goerr \<times> werrno) list" where
  "errno_table =
     [(Errno EROFS, W_EROFS), (Errno ENOTDIR, W_ENOTDIR), (Errno EISDIR, W_EISDIR),
      (Errno ENOTEMPTY, W_ENOTEMPTY), (Errno ENOSPC, W_EIO), (Errno EBUSY, W_EPERM),
      (Errno EXDEV, W_ENOTSUP), (Errno ENOSYS, W_ENOSYS), (ErrNotExist, W_ENOENT),
      (ErrExist, W_EEXIST), (ErrPermission, W_EACCES), (ErrClosed, W_EBADF), (ErrInvalid, W_EINVAL)]"

definition wasi_errno :: "goerr option \<Rightarrow> werrno" where
  "wasi_errno e =
     (case e of
        None \<Rightarrow> W_OK
      | Some x \<Rightarrow>
          if errors_is x EOF then W_OK
          else case find (\<lambda>(t, n). errors_is x t) errno_table of
                 Some (t, n) \<Rightarrow> n
               | None \<Rightarrow> W_EIO)"

text \<open>\<open>fnv.New64a\<close> of the standard library.\<close>

definition fnv64a :: "string \<Rightarrow> 64 word" where
  "fnv64a s = foldl (\<lambda>h c. (h XOR of_nat (of_char c)) * 1099511628211) 14695981039346656037 s"

definition wasi_stat :: "('w, 'h) wasi \<Rightarrow> fileInfo \<Rightarrow> string \<Rightarrow> stat_t" where
  "wasi_stat W i name =
     (let s = ws_NewStat W i;
          s1 = (case fi_atime i of Some a \<Rightarrow> s\<lparr>st_Atim := i64 a\<rparr> | None \<Rightarrow> s)
      in case fi_id i of
           Some ino \<Rightarrow> s1\<lparr>st_Dev := NOT 0, st_Ino := ino\<rparr>
         | None \<Rightarrow>
             if st_Ino s1 \<noteq> 0 then s1
             else s1\<lparr>st_Dev := NOT 0 - 1, st_Ino := fnv64a name\<rparr>)"

definition timestamps :: "('w, 'h) wasi \<Rightarrow> stat_t \<Rightarrow> int \<Rightarrow> int \<Rightarrow> time \<times> time" where
  "timestamps W st a m =
     (if a = ws_OMIT W then st_Atim st else a, if m = ws_OMIT W then st_Mtim st else m)"

section \<open>Calls by name\<close>

definition wasi_name :: "('w, 'h) wasi \<Rightarrow> string \<Rightarrow> string" where
  "wasi_name W p = Resolve (ws_Cwd W) p"

record 'h wasiFile =
  wz_f :: "'h vfile"
  wz_metadataWritable :: bool
  wz_name :: string
  wz_readable :: bool
  wz_writable :: bool
  wz_appendMode :: bool
  wz_closed :: bool

text \<open>The flags of \<open>os.OpenFile\<close> for those of WASI.\<close>

definition go_flags :: "wflags \<Rightarrow> oflag" where
  "go_flags fl =
     (let f0 = (if wo_RDWR fl then O_RDWR else if wo_WRONLY fl then O_WRONLY else O_RDONLY);
          f1 = (if wo_APPEND fl then f0 OR O_APPEND else f0);
          f2 = (if wo_CREAT fl then f1 OR O_CREATE else f1);
          f3 = (if wo_EXCL fl then f2 OR O_EXCL else f2)
      in if wo_TRUNC fl then f3 OR O_TRUNC else f3)"

text \<open>
  The check of \<open>O_DIRECTORY\<close> before anything is opened: \<open>Some n\<close> makes \<open>OpenFile\<close>
  return the errno \<open>n\<close> and no file.
\<close>

definition must_be_dir :: "('w, 'h) wasi \<Rightarrow> string \<Rightarrow> 'w world \<Rightarrow> werrno option \<times> 'w world" where
  "must_be_dir W name s =
     (case ns_Stat (ws_NS W) name s of
        (Inl e, s1) \<Rightarrow> (Some (wasi_errno (Some e)), s1)
      | (Inr i, s1) \<Rightarrow> (if info_is_dir i then None else Some W_ENOTDIR, s1))"

text \<open>The check of \<open>O_NOFOLLOW\<close>: whether the name is a symbolic link.\<close>

definition is_symlink :: "('w, 'h) wasi \<Rightarrow> string \<Rightarrow> 'w world \<Rightarrow> bool \<times> 'w world" where
  "is_symlink W name s =
     (case ns_Lstat (ws_NS W) name s of
        (Inl e, s1) \<Rightarrow> (False, s1)
      | (Inr i, s1) \<Rightarrow> (fi_mode i AND ModeSymlink \<noteq> 0, s1))"

text \<open>The check of \<open>O_DIRECTORY\<close> on the open file, which is closed if it is no directory.\<close>

definition still_dir :: "('w, 'h) wasi \<Rightarrow> 'h vfile \<Rightarrow> 'w world \<Rightarrow> werrno option \<times> 'w world" where
  "still_dir W f s =
     (case fo_Stat (file_obj W f) s of
        (Inl e, s1) \<Rightarrow> (Some (wasi_errno (Some e)), snd (fo_Close (file_obj W f) s1))
      | (Inr i, s1) \<Rightarrow>
          if info_is_dir i then (None, s1)
          else (Some W_ENOTDIR, snd (fo_Close (file_obj W f) s1)))"

definition wasi_OpenFile ::
  "('w, 'h) wasi \<Rightarrow> string \<Rightarrow> wflags \<Rightarrow> filemode \<Rightarrow> 'w world \<Rightarrow> (werrno + 'h wasiFile) \<times> 'w world" where
  "wasi_OpenFile W p fl perm s =
     (let name = wasi_name W p
      in case (if wo_DIRECTORY fl then must_be_dir W name s else (None, s)) of
           (Some n, s1) \<Rightarrow> (Inl n, s1)
         | (None, s1) \<Rightarrow>
             (case (if wo_NOFOLLOW fl then is_symlink W name s1 else (False, s1)) of
                (True, s2) \<Rightarrow> (Inl W_ELOOP, s2)
              | (False, s2) \<Rightarrow>
                  let flag = go_flags fl
                  in (case ns_Open (ws_NS W) name flag perm s2 of
                        (Inl e, s3) \<Rightarrow> (Inl (wasi_errno (Some e)), s3)
                      | (Inr f, s3) \<Rightarrow>
                          (case (if wo_DIRECTORY fl then still_dir W f s3 else (None, s3)) of
                             (Some n, s4) \<Rightarrow> (Inl n, s4)
                           | (None, s4) \<Rightarrow>
                               (Inr \<lparr>wz_f = f,
                                     wz_metadataWritable = is_ok (ns_writable (ws_NS W) name),
                                     wz_name = name,
                                     wz_readable = \<not> has_flag flag O_WRONLY,
                                     wz_writable = has_flag flag (O_WRONLY OR O_RDWR),
                                     wz_appendMode = has_flag flag O_APPEND,
                                     wz_closed = False\<rparr>, s4)))))"

definition wasi_Stat :: "('w, 'h) wasi \<Rightarrow> string \<Rightarrow> 'w world \<Rightarrow> (werrno + stat_t) \<times> 'w world" where
  "wasi_Stat W p s =
     (case ns_Stat (ws_NS W) (wasi_name W p) s of
        (Inl e, s1) \<Rightarrow> (Inl (wasi_errno (Some e)), s1)
      | (Inr i, s1) \<Rightarrow> (Inr (wasi_stat W i (wasi_name W p)), s1))"

definition wasi_Lstat :: "('w, 'h) wasi \<Rightarrow> string \<Rightarrow> 'w world \<Rightarrow> (werrno + stat_t) \<times> 'w world" where
  "wasi_Lstat W p s =
     (case ns_Lstat (ws_NS W) (wasi_name W p) s of
        (Inl e, s1) \<Rightarrow> (Inl (wasi_errno (Some e)), s1)
      | (Inr i, s1) \<Rightarrow> (Inr (wasi_stat W i (wasi_name W p)), s1))"

text \<open>\<open>Readlink\<close> returns its string with the errno; on an error the string is empty.\<close>

definition wasi_Readlink :: "('w, 'h) wasi \<Rightarrow> string \<Rightarrow> 'w world \<Rightarrow> (string \<times> werrno) \<times> 'w world" where
  "wasi_Readlink W p s =
     (case ns_Readlink (ws_NS W) (wasi_name W p) s of
        (Inl e, s1) \<Rightarrow> (([], wasi_errno (Some e)), s1)
      | (Inr v, s1) \<Rightarrow> ((v, W_OK), s1))"

definition wasi_Mkdir :: "('w, 'h) wasi \<Rightarrow> string \<Rightarrow> filemode \<Rightarrow> 'w world \<Rightarrow> werrno \<times> 'w world" where
  "wasi_Mkdir W p perm s = apfst wasi_errno (ns_Mkdir (ws_NS W) (wasi_name W p) perm s)"

definition wasi_Unlink :: "('w, 'h) wasi \<Rightarrow> string \<Rightarrow> 'w world \<Rightarrow> werrno \<times> 'w world" where
  "wasi_Unlink W p s = apfst wasi_errno (ns_Remove (ws_NS W) (wasi_name W p) False s)"

definition wasi_Rmdir :: "('w, 'h) wasi \<Rightarrow> string \<Rightarrow> 'w world \<Rightarrow> werrno \<times> 'w world" where
  "wasi_Rmdir W p s = apfst wasi_errno (ns_Remove (ws_NS W) (wasi_name W p) True s)"

definition wasi_Rename :: "('w, 'h) wasi \<Rightarrow> string \<Rightarrow> string \<Rightarrow> 'w world \<Rightarrow> werrno \<times> 'w world" where
  "wasi_Rename W a b s =
     apfst wasi_errno (ns_Rename (ws_NS W) (wasi_name W a) (wasi_name W b) s)"

definition wasi_Chmod :: "('w, 'h) wasi \<Rightarrow> string \<Rightarrow> filemode \<Rightarrow> 'w world \<Rightarrow> werrno \<times> 'w world" where
  "wasi_Chmod W p perm s = apfst wasi_errno (ns_Chmod (ws_NS W) (wasi_name W p) perm s)"

definition wasi_Utimens :: "('w, 'h) wasi \<Rightarrow> string \<Rightarrow> int \<Rightarrow> int \<Rightarrow> 'w world \<Rightarrow> werrno \<times> 'w world" where
  "wasi_Utimens W p a m s =
     (case ns_Stat (ws_NS W) (wasi_name W p) s of
        (Inl e, s1) \<Rightarrow> (wasi_errno (Some e), s1)
      | (Inr i, s1) \<Rightarrow>
          let (at, mt) = timestamps W (wasi_stat W i (wasi_name W p)) a m
          in apfst wasi_errno (ns_Chtimes (ws_NS W) (wasi_name W p) at mt s1))"

section \<open>Calls on open files\<close>

definition wz_Stat :: "('w, 'h) wasi \<Rightarrow> 'h wasiFile \<Rightarrow> 'w world \<Rightarrow> (werrno + stat_t) \<times> 'w world" where
  "wz_Stat W f s =
     (if wz_closed f then (Inl W_EBADF, s)
      else case fo_Stat (file_obj W (wz_f f)) s of
        (Inl e, s1) \<Rightarrow> (Inl (wasi_errno (Some e)), s1)
      | (Inr i, s1) \<Rightarrow> (Inr (wasi_stat W i (wz_name f)), s1))"

definition wz_Read ::
  "('w, 'h) wasi \<Rightarrow> 'h wasiFile \<Rightarrow> nat \<Rightarrow> 'w world \<Rightarrow> (byte list \<times> werrno) \<times> 'w world" where
  "wz_Read W f n s =
     (if wz_closed f \<or> \<not> wz_readable f then (([], W_EBADF), s)
      else apfst (apsnd wasi_errno) (fo_Read (file_obj W (wz_f f)) n s))"

definition wz_Pread ::
  "('w, 'h) wasi \<Rightarrow> 'h wasiFile \<Rightarrow> nat \<Rightarrow> int \<Rightarrow> 'w world \<Rightarrow> (byte list \<times> werrno) \<times> 'w world" where
  "wz_Pread W f n off s =
     (if wz_closed f \<or> \<not> wz_readable f then (([], W_EBADF), s)
      else case fo_ReadAt (file_obj W (wz_f f)) of
        Some r \<Rightarrow> apfst (apsnd wasi_errno) (r n off s)
      | None \<Rightarrow> (([], W_ENOSYS), s))"

text \<open>\<open>Seek\<close> returns the position with the errno: 0 on an error.\<close>

definition wz_Seek ::
  "('w, 'h) wasi \<Rightarrow> 'h wasiFile \<Rightarrow> int \<Rightarrow> int \<Rightarrow> 'w world \<Rightarrow> (werrno + int) \<times> 'w world" where
  "wz_Seek W f off whence s =
     (if wz_closed f then (Inl W_EBADF, s)
      else case fo_Seek (file_obj W (wz_f f)) of
        Some k \<Rightarrow>
          (case k off whence s of
             (Inl e, s1) \<Rightarrow> (Inl (wasi_errno (Some e)), s1)
           | (Inr n, s1) \<Rightarrow> (Inr n, s1))
      | None \<Rightarrow> (Inl W_ENOSYS, s))"

definition wz_Write ::
  "('w, 'h) wasi \<Rightarrow> 'h wasiFile \<Rightarrow> byte list \<Rightarrow> 'w world \<Rightarrow> (int \<times> werrno) \<times> 'w world" where
  "wz_Write W f p s =
     (if wz_closed f \<or> \<not> wz_writable f then ((0, W_EBADF), s)
      else case fo_Write (file_obj W (wz_f f)) of
        Some w \<Rightarrow> apfst (apsnd wasi_errno) (w p s)
      | None \<Rightarrow> ((0, W_EBADF), s))"

definition wz_Pwrite ::
  "('w, 'h) wasi \<Rightarrow> 'h wasiFile \<Rightarrow> byte list \<Rightarrow> int \<Rightarrow> 'w world \<Rightarrow> (int \<times> werrno) \<times> 'w world" where
  "wz_Pwrite W f p off s =
     (if wz_closed f \<or> \<not> wz_writable f then ((0, W_EBADF), s)
      else case fo_WriteAt (file_obj W (wz_f f)) of
        Some w \<Rightarrow> apfst (apsnd wasi_errno) (w p off s)
      | None \<Rightarrow> ((0, W_ENOSYS), s))"

definition wz_Truncate :: "('w, 'h) wasi \<Rightarrow> 'h wasiFile \<Rightarrow> int \<Rightarrow> 'w world \<Rightarrow> werrno \<times> 'w world" where
  "wz_Truncate W f sz s =
     (if wz_closed f \<or> \<not> wz_writable f then (W_EBADF, s)
      else case fo_Truncate (file_obj W (wz_f f)) of
        Some t \<Rightarrow> apfst wasi_errno (t sz s)
      | None \<Rightarrow> (W_ENOSYS, s))"

definition wz_Utimens ::
  "('w, 'h) wasi \<Rightarrow> 'h wasiFile \<Rightarrow> int \<Rightarrow> int \<Rightarrow> 'w world \<Rightarrow> werrno \<times> 'w world" where
  "wz_Utimens W f a m s =
     (if wz_closed f then (W_EBADF, s)
      else if \<not> wz_metadataWritable f then (W_EROFS, s)
      else case wz_Stat W f s of
        (Inl n, s1) \<Rightarrow> (n, s1)
      | (Inr st, s1) \<Rightarrow>
          let (at, mt) = timestamps W st a m
          in (case fo_Chtimes (file_obj W (wz_f f)) of
                Some c \<Rightarrow> apfst wasi_errno (c at mt s1)
              | None \<Rightarrow> (W_ENOSYS, s1)))"

definition wz_Sync :: "('w, 'h) wasi \<Rightarrow> 'h wasiFile \<Rightarrow> 'w world \<Rightarrow> werrno \<times> 'w world" where
  "wz_Sync W f s =
     (if wz_closed f then (W_EBADF, s)
      else case fo_Sync (file_obj W (wz_f f)) of
        Some y \<Rightarrow> apfst wasi_errno (y s)
      | None \<Rightarrow> (W_OK, s))"

text \<open>A \<open>ws.Dirent\<close> is the name and the type of an entry.\<close>

definition wz_Readdir ::
  "('w, 'h) wasi \<Rightarrow> 'h wasiFile \<Rightarrow> int \<Rightarrow> 'w world \<Rightarrow> (werrno + (string \<times> filemode) list) \<times> 'w world" where
  "wz_Readdir W f n s =
     (if wz_closed f then (Inl W_EBADF, s)
      else case fo_ReadDir (file_obj W (wz_f f)) of
        None \<Rightarrow> (Inl W_ENOTDIR, s)
      | Some r \<Rightarrow>
          (case r n s of
             (Inl e, s1) \<Rightarrow>
               if \<not> errors_is e EOF then (Inl (wasi_errno (Some e)), s1) else (Inr [], s1)
           | (Inr es, s1) \<Rightarrow> (Inr (map (\<lambda>e. (fi_name e, mode_type (fi_mode e))) es), s1)))"

definition wz_Close ::
  "('w, 'h) wasi \<Rightarrow> 'h wasiFile \<Rightarrow> 'w world \<Rightarrow> werrno \<times> 'h wasiFile \<times> 'w world" where
  "wz_Close W f s =
     (if wz_closed f then (W_EBADF, f, s)
      else let (e, s1) = fo_Close (file_obj W (wz_f f)) s
           in (wasi_errno e, f\<lparr>wz_closed := True\<rparr>, s1))"

definition wz_IsDir :: "('w, 'h) wasi \<Rightarrow> 'h wasiFile \<Rightarrow> 'w world \<Rightarrow> (werrno + bool) \<times> 'w world" where
  "wz_IsDir W f s =
     (case wz_Stat W f s of
        (Inl n, s1) \<Rightarrow> (Inl n, s1)
      | (Inr st, s1) \<Rightarrow> (Inr (mode_is_dir (st_Mode st)), s1))"

definition wz_Dev :: "('w, 'h) wasi \<Rightarrow> 'h wasiFile \<Rightarrow> 'w world \<Rightarrow> (werrno + 64 word) \<times> 'w world" where
  "wz_Dev W f s =
     (case wz_Stat W f s of (Inl n, s1) \<Rightarrow> (Inl n, s1) | (Inr st, s1) \<Rightarrow> (Inr (st_Dev st), s1))"

definition wz_Ino :: "('w, 'h) wasi \<Rightarrow> 'h wasiFile \<Rightarrow> 'w world \<Rightarrow> (werrno + 64 word) \<times> 'w world" where
  "wz_Ino W f s =
     (case wz_Stat W f s of (Inl n, s1) \<Rightarrow> (Inl n, s1) | (Inr st, s1) \<Rightarrow> (Inr (st_Ino st), s1))"

end
