(* ===== verification/WasiSafe.thy ===== *)
theory WasiSafe
  imports Wasi NamespaceMounts
begin

unbundle bit_operations_syntax

text \<open>
  Lemmas on the WASI adapter: the errno table, that every call of the adapter is a sequence of
  calls of the namespace and of its open files, and what opening a directory cannot do.
\<close>

section \<open>The errno table\<close>

lemma errors_is_target:
  "(t, n) \<in> set errno_table \<Longrightarrow> errors_is (PathError op p e) t = errors_is e t"
  "(t, n) \<in> set errno_table \<Longrightarrow> errors_is (Wrapped m e) t = errors_is e t"
  "errors_is (PathError op p e) EOF = errors_is e EOF"
  "errors_is (Wrapped m e) EOF = errors_is e EOF"
  by (auto simp: errno_table_def)

lemma find_cong: "(\<And>x. x \<in> set xs \<Longrightarrow> P x = Q x) \<Longrightarrow> find P xs = find Q xs"
  by (induction xs) auto

lemma errno_wrapped:
  "wasi_errno (Some (PathError op p e)) = wasi_errno (Some e)"
  "wasi_errno (Some (Wrapped m e)) = wasi_errno (Some e)"
proof -
  have "find (\<lambda>(t, n). errors_is (PathError op p e) t) errno_table = find (\<lambda>(t, n). errors_is e t) errno_table"
    "find (\<lambda>(t, n). errors_is (Wrapped m e) t) errno_table = find (\<lambda>(t, n). errors_is e t) errno_table"
    by (rule find_cong, use errors_is_target in blast)+
  then show "wasi_errno (Some (PathError op p e)) = wasi_errno (Some e)"
    "wasi_errno (Some (Wrapped m e)) = wasi_errno (Some e)"
    by (simp_all add: wasi_errno_def errors_is_target(3,4))
qed

lemma errno_OK: "wasi_errno (Some e) = W_OK \<longleftrightarrow> errors_is e EOF"
proof (cases "find (\<lambda>(t, n). errors_is e t) errno_table")
  case None
  then show ?thesis by (simp add: wasi_errno_def)
next
  case (Some x)
  then have "x \<in> set errno_table" using find_SomeD [OF Some] by simp
  then have "snd x \<noteq> W_OK" by (auto simp: errno_table_def)
  moreover have "wasi_errno (Some e) = (if errors_is e EOF then W_OK else snd x)"
    using Some by (cases x) (simp add: wasi_errno_def)
  ultimately show ?thesis by simp
qed

section \<open>Calls on open files are steps of the namespace\<close>

text \<open>A handle of the root names one of its open files.\<close>

definition handle_ok :: "'w world \<Rightarrow> 'h vfile \<Rightarrow> bool" where
  "handle_ok s f = (case f of MemFile h \<Rightarrow> h < length (m_files (w_mem s)) | _ \<Rightarrow> True)"

abbreviation ns_reach :: "('w, 'h) namespace \<Rightarrow> 'w world \<Rightarrow> 'w world \<Rightarrow> bool" where
  "ns_reach ns \<equiv> (ns_step ns)\<^sup>*\<^sup>*"

lemma root_file_reach: "file_step (w_mem s) m \<Longrightarrow> ns_reach ns s (s\<lparr>w_mem := m\<rparr>)"
  by (rule r_into_rtranclp) (rule ns_step.root_file)

lemma mounted_reach: "ns_reach ns s (s\<lparr>w_ext := e\<rparr>)"
  by (rule r_into_rtranclp) (rule ns_step.mounted)

lemma file_obj_cases:
  obtains (null) "f = NullFile" "file_obj W f = null_file"
  | (mem) h where "f = MemFile h"
      "file_obj W f = lift_obj (\<lambda>s. (w_mem s, w_now s)) (\<lambda>t s. s\<lparr>w_mem := fst t\<rparr>) (memory_file h)"
  | (ext) h where "f = ExtFile h" "file_obj W f = lift_obj w_ext (\<lambda>e s. s\<lparr>w_ext := e\<rparr>) (ws_file W h)"
  by (cases f) (auto simp: file_obj_def)

lemmas obj_simps = lift_obj_def lift_def memory_file_def with_clock_def null_file_def Let_def case_prod_beta

lemma w_mem_self [simp]: "s\<lparr>w_mem := w_mem s\<rparr> = s"
  by (cases s) simp

lemma obj_reach:
  assumes "handle_ok s f"
  shows "ns_reach ns s (snd (fo_Stat (file_obj W f) s))"
    "ns_reach ns s (snd (fo_Read (file_obj W f) n s))"
    "ns_reach ns s (snd (fo_Close (file_obj W f) s))"
    "fo_ReadAt (file_obj W f) = Some ra \<Longrightarrow> ns_reach ns s (snd (ra n off s))"
    "fo_Seek (file_obj W f) = Some sk \<Longrightarrow> ns_reach ns s (snd (sk off wh s))"
    "fo_Write (file_obj W f) = Some wr \<Longrightarrow> go_slice p \<Longrightarrow> ns_reach ns s (snd (wr p s))"
    "fo_WriteAt (file_obj W f) = Some wa \<Longrightarrow> go_slice p \<Longrightarrow> ns_reach ns s (snd (wa p off s))"
    "fo_Truncate (file_obj W f) = Some tr \<Longrightarrow> ns_reach ns s (snd (tr sz s))"
    "fo_Chtimes (file_obj W f) = Some ct \<Longrightarrow> ns_reach ns s (snd (ct a t s))"
    "fo_Sync (file_obj W f) = Some sy \<Longrightarrow> ns_reach ns s (snd (sy s))"
    "fo_ReadDir (file_obj W f) = Some rd \<Longrightarrow> ns_reach ns s (snd (rd k s))"
proof -
  have h: "f = MemFile h \<Longrightarrow> h < length (m_files (w_mem s))" for h
    using assms by (simp add: handle_ok_def)
  show "ns_reach ns s (snd (fo_Stat (file_obj W f) s))"
    "ns_reach ns s (snd (fo_Read (file_obj W f) n s))"
    "ns_reach ns s (snd (fo_Close (file_obj W f) s))"
    "fo_ReadAt (file_obj W f) = Some ra \<Longrightarrow> ns_reach ns s (snd (ra n off s))"
    "fo_Seek (file_obj W f) = Some sk \<Longrightarrow> ns_reach ns s (snd (sk off wh s))"
    "fo_Write (file_obj W f) = Some wr \<Longrightarrow> go_slice p \<Longrightarrow> ns_reach ns s (snd (wr p s))"
    "fo_WriteAt (file_obj W f) = Some wa \<Longrightarrow> go_slice p \<Longrightarrow> ns_reach ns s (snd (wa p off s))"
    "fo_Truncate (file_obj W f) = Some tr \<Longrightarrow> ns_reach ns s (snd (tr sz s))"
    "fo_Chtimes (file_obj W f) = Some ct \<Longrightarrow> ns_reach ns s (snd (ct a t s))"
    "fo_Sync (file_obj W f) = Some sy \<Longrightarrow> ns_reach ns s (snd (sy s))"
    "fo_ReadDir (file_obj W f) = Some rd \<Longrightarrow> ns_reach ns s (snd (rd k s))"
    by (rule file_obj_cases [of f W];
        use h in \<open>auto simp: obj_simps intro: root_file_reach mounted_reach file_step.intros\<close>)+
qed

section \<open>Sequences of adapter calls\<close>

lemma OpenFile_handle:
  "fst (mem_OpenFile now n fl p m) = Inr h \<Longrightarrow> h < length (m_files (snd (mem_OpenFile now n fl p m)))"
  by (auto simp: mem_OpenFile_def Let_def split: sum.splits if_splits)

lemma map_sum_MemFile [simp]: "map_sum id MemFile r = Inr (MemFile h) \<longleftrightarrow> r = Inr h"
  by (cases r) auto

lemma mount_no_mem [simp]:
  "fs_Open (mount_fs F) n t \<noteq> (Inr (MemFile h), t')"
  "wf_OpenFile (mount_write X) n flag perm t \<noteq> (Inr (MemFile h), t')"
  by (auto simp: mount_fs_def lift_fs_def lift_open_def mount_write_def lift_write_def
      Let_def case_prod_beta map_sum_def split: sum.splits)

lemma Open_handle_ok:
  assumes ok: "ns_ok ns" and r: "ns_Open ns name flag perm s = (Inr f, s')"
  shows "handle_ok s' f"
proof (cases f)
  case (MemFile h)
  obtain c s1 where c: "check_slash ns name s = (c, s1)" by fastforce
  from r c have cN: "c = None" and nn: "Resolve ''/'' name \<noteq> ''/dev/null''"
    by (auto simp: ns_Open_def MemFile split: option.splits if_splits)
  obtain g rel ro where g: "route ns name = Inr (g, rel, ro)"
    using r c cN nn by (cases "route ns name") (auto simp: ns_Open_def)
  from ok g show ?thesis
  proof (cases rule: route_cases)
    case root
    then show ?thesis
      using r c cN nn g MemFile OpenFile_handle [of "w_now s1" rel flag perm "w_mem s1" h]
        OpenFile_handle [of "w_now s1" rel O_RDONLY 0 "w_mem s1" h]
      by (auto simp: ns_Open_def handle_ok_def mem_Open_def case_prod_beta split: if_splits sum.splits)
  next
    case (mount m)
    then show ?thesis
      using r c cN nn g MemFile mount_no_mem
      by (auto simp: ns_Open_def split: if_splits option.splits)
  qed
qed (simp_all add: handle_ok_def)

lemma stat_keeps_handle:
  "fo_Stat (file_obj W f) s = (r, s1) \<Longrightarrow> handle_ok s f \<Longrightarrow> handle_ok s1 f"
  by (auto simp: handle_ok_def file_obj_def obj_simps split: vfile.splits)

lemma still_dir_reach: "handle_ok s f \<Longrightarrow> ns_reach ns s (snd (still_dir W f s))"
proof -
  assume h: "handle_ok s f"
  obtain r s1 where r: "fo_Stat (file_obj W f) s = (r, s1)" by fastforce
  have st: "ns_reach ns s s1" using obj_reach(1) [OF h, of ns W] r by simp
  have "handle_ok s1 f" by (rule stat_keeps_handle [OF r h])
  then have "ns_reach ns s1 (snd (fo_Close (file_obj W f) s1))" by (rule obj_reach(3))
  with st have "ns_reach ns s (snd (fo_Close (file_obj W f) s1))" by (rule rtranclp_trans)
  with st show ?thesis by (simp add: still_dir_def r split: sum.split)
qed

lemma wasi_OpenFile_reach:
  assumes ok: "ns_ok (ws_NS W)"
  shows "ns_reach (ws_NS W) s (snd (wasi_OpenFile W p fl perm s))"
proof -
  let ?ns = "ws_NS W" and ?n = "wasi_name W p"
  obtain a s1 where a: "(if wo_DIRECTORY fl then must_be_dir W ?n s else (None, s)) = (a, s1)" by fastforce
  have "snd (must_be_dir W ?n s) = snd (ns_Stat ?ns ?n s)"
    by (simp add: must_be_dir_def case_prod_beta split: sum.split)
  then have r1: "ns_reach ?ns s s1"
    using a by (auto split: if_splits intro: r_into_rtranclp ns_step.stat)
  obtain b s2 where b: "(if wo_NOFOLLOW fl then is_symlink W ?n s1 else (False, s1)) = (b, s2)" by fastforce
  have "snd (is_symlink W ?n s1) = snd (ns_Lstat ?ns ?n s1)"
    by (simp add: is_symlink_def case_prod_beta split: sum.split)
  then have r2: "ns_reach ?ns s1 s2"
    using b by (auto split: if_splits) (metis ns_step.lstat r_into_rtranclp snd_conv)
  obtain r s3 where o: "ns_Open ?ns ?n (go_flags fl) perm s2 = (r, s3)" by fastforce
  then have r3: "ns_reach ?ns s2 s3" by (metis ns_step.open_name r_into_rtranclp snd_conv)
  have r4: "ns_reach ?ns s3 (snd (still_dir W f s3))" if "r = Inr f" for f
    using Open_handle_ok [OF ok o [unfolded that]] by (rule still_dir_reach)
  note to = r1 rtranclp_trans [OF r1 r2] rtranclp_trans [OF rtranclp_trans [OF r1 r2] r3]
  show ?thesis
  proof (cases a)
    case (Some n)
    then show ?thesis using to(1) a by (simp add: wasi_OpenFile_def Let_def)
  next
    case aN: None
    show ?thesis
    proof (cases b)
      case True
      then show ?thesis using to(2) a b aN by (simp add: wasi_OpenFile_def Let_def)
    next
      case bF: False
      show ?thesis
      proof (cases r)
        case (Inl e)
        then show ?thesis using to(3) a b o aN bF by (simp add: wasi_OpenFile_def Let_def)
      next
        case (Inr f)
        obtain d s4 where d: "(if wo_DIRECTORY fl then still_dir W f s3 else (None, s3)) = (d, s4)"
          by fastforce
        then have "ns_reach ?ns s3 s4" using r4 [OF Inr] by (auto split: if_splits)
        then have "ns_reach ?ns s s4" by (rule rtranclp_trans [OF to(3)])
        then show ?thesis
          using a b o d aN bF Inr by (cases d) (simp_all add: wasi_OpenFile_def Let_def)
      qed
    qed
  qed
qed

text \<open>One call of a WASI program: by name, or on an open file.\<close>

inductive wasi_step :: "('w, 'h) wasi \<Rightarrow> 'w world \<Rightarrow> 'w world \<Rightarrow> bool" for W where
  open_name: "wasi_step W s (snd (wasi_OpenFile W p fl perm s))"
| stat: "wasi_step W s (snd (wasi_Stat W p s))"
| lstat: "wasi_step W s (snd (wasi_Lstat W p s))"
| readlink: "wasi_step W s (snd (wasi_Readlink W p s))"
| mkdir: "wasi_step W s (snd (wasi_Mkdir W p perm s))"
| "unlink": "wasi_step W s (snd (wasi_Unlink W p s))"
| rmdir: "wasi_step W s (snd (wasi_Rmdir W p s))"
| rename: "wasi_step W s (snd (wasi_Rename W a b s))"
| chmod: "wasi_step W s (snd (wasi_Chmod W p perm s))"
| utimens: "wasi_step W s (snd (wasi_Utimens W p at mt s))"
| file_stat: "handle_ok s (wz_f f) \<Longrightarrow> wasi_step W s (snd (wz_Stat W f s))"
| read: "handle_ok s (wz_f f) \<Longrightarrow> wasi_step W s (snd (wz_Read W f n s))"
| pread: "handle_ok s (wz_f f) \<Longrightarrow> wasi_step W s (snd (wz_Pread W f n off s))"
| seek: "handle_ok s (wz_f f) \<Longrightarrow> wasi_step W s (snd (wz_Seek W f off wh s))"
| write_seq: "handle_ok s (wz_f f) \<Longrightarrow> go_slice bs \<Longrightarrow> wasi_step W s (snd (wz_Write W f bs s))"
| pwrite: "handle_ok s (wz_f f) \<Longrightarrow> go_slice bs \<Longrightarrow> wasi_step W s (snd (wz_Pwrite W f bs off s))"
| truncate: "handle_ok s (wz_f f) \<Longrightarrow> wasi_step W s (snd (wz_Truncate W f sz s))"
| file_utimens: "handle_ok s (wz_f f) \<Longrightarrow> wasi_step W s (snd (wz_Utimens W f at mt s))"
| sync: "handle_ok s (wz_f f) \<Longrightarrow> wasi_step W s (snd (wz_Sync W f s))"
| readdir: "handle_ok s (wz_f f) \<Longrightarrow> wasi_step W s (snd (wz_Readdir W f k s))"
| close: "handle_ok s (wz_f f) \<Longrightarrow> wasi_step W s (snd (snd (wz_Close W f s)))"

lemma ns_call_reach:
  "ns_reach ns s (snd (ns_Stat ns name s))" "ns_reach ns s (snd (ns_Lstat ns name s))"
  "ns_reach ns s (snd (ns_Readlink ns name s))" "ns_reach ns s (snd (ns_Mkdir ns name perm s))"
  "ns_reach ns s (snd (ns_Remove ns name d s))" "ns_reach ns s (snd (ns_Rename ns name other s))"
  "ns_reach ns s (snd (ns_Chmod ns name perm s))" "ns_reach ns s (snd (ns_Chtimes ns name a t s))"
  by (rule r_into_rtranclp, rule ns_step.intros)+

lemma wasi_step_reach:
  assumes "wasi_step W s s'" "ns_ok (ws_NS W)"
  shows "ns_reach (ws_NS W) s s'"
  using assms(1)
proof cases
  case (open_name p fl perm)
  then show ?thesis using wasi_OpenFile_reach [OF assms(2)] by simp
next
  case (utimens p at mt)
  obtain r s1 where r: "ns_Stat (ws_NS W) (wasi_name W p) s = (r, s1)" by fastforce
  have "ns_reach (ws_NS W) s s1" using ns_call_reach(1) [of "ws_NS W" s "wasi_name W p"] r by simp
  then show ?thesis
    using utimens r rtranclp_trans [OF _ ns_call_reach(8)]
    by (auto simp: wasi_Utimens_def case_prod_beta split: sum.splits)
next
  case (file_utimens f at mt)
  obtain r s1 where r: "wz_Stat W f s = (r, s1)" by fastforce
  show ?thesis
  proof (cases "wz_closed f")
    case True
    then show ?thesis using file_utimens by (simp add: wz_Utimens_def)
  next
    case False
    then obtain q where q: "fo_Stat (file_obj W (wz_f f)) s = (q, s1)"
      using r by (auto simp: wz_Stat_def split: sum.splits prod.splits)
    have st: "ns_reach (ws_NS W) s s1" using obj_reach(1) [OF file_utimens(2), of "ws_NS W" W] q by simp
    note ch = rtranclp_trans [OF st obj_reach(9) [OF stat_keeps_handle [OF q file_utimens(2)]]]
    show ?thesis
      using file_utimens(1) False r st ch
      by (auto simp: wz_Utimens_def case_prod_beta split: sum.split option.split)
  qed
next
  case (stat p)
  then show ?thesis using ns_call_reach(1) [of "ws_NS W" s "wasi_name W p"]
    by (auto simp: wasi_Stat_def case_prod_beta split: sum.splits)
next
  case (lstat p)
  then show ?thesis using ns_call_reach(2) [of "ws_NS W" s "wasi_name W p"]
    by (auto simp: wasi_Lstat_def case_prod_beta split: sum.splits)
next
  case (readlink p)
  then show ?thesis using ns_call_reach(3) [of "ws_NS W" s "wasi_name W p"]
    by (auto simp: wasi_Readlink_def case_prod_beta split: sum.splits)
next
  case (file_stat f)
  then show ?thesis using obj_reach(1) [of s "wz_f f" "ws_NS W" W]
    by (auto simp: wz_Stat_def case_prod_beta split: sum.splits)
next
  case (seek f off wh)
  then show ?thesis using obj_reach(5) [of s "wz_f f" W _ "ws_NS W" off wh]
    by (auto simp: wz_Seek_def case_prod_beta split: sum.splits option.splits)
next
  case (readdir f k)
  then show ?thesis using obj_reach(11) [of s "wz_f f" W _ "ws_NS W" k]
    by (auto simp: wz_Readdir_def case_prod_beta split: sum.splits option.splits)
next
  case (close f)
  then show ?thesis using obj_reach(3) [of s "wz_f f" "ws_NS W" W]
    by (auto simp: wz_Close_def case_prod_beta Let_def)
next
  case (read f n)
  then show ?thesis using obj_reach(2) [of s "wz_f f" "ws_NS W" W n] by (auto simp: wz_Read_def)
next
  case (pread f n off)
  then show ?thesis using obj_reach(4) [of s "wz_f f" W _ "ws_NS W" n off]
    by (auto simp: wz_Pread_def split: option.splits)
next
  case (write_seq f bs)
  then show ?thesis using obj_reach(6) [of s "wz_f f" W _ bs "ws_NS W"]
    by (auto simp: wz_Write_def split: option.splits)
next
  case (pwrite f bs off)
  then show ?thesis using obj_reach(7) [of s "wz_f f" W _ bs "ws_NS W" off]
    by (auto simp: wz_Pwrite_def split: option.splits)
next
  case (truncate f sz)
  then show ?thesis using obj_reach(8) [of s "wz_f f" W _ "ws_NS W" sz]
    by (auto simp: wz_Truncate_def split: option.splits)
next
  case (sync f)
  then show ?thesis using obj_reach(10) [of s "wz_f f" W _ "ws_NS W"]
    by (auto simp: wz_Sync_def split: option.splits)
qed (simp_all add: wasi_Mkdir_def wasi_Unlink_def wasi_Rmdir_def wasi_Rename_def wasi_Chmod_def ns_call_reach)

section \<open>Opening a directory\<close>

lemma OpenFile_dir_abs:
  assumes inv: "mem_inv m" and d: "abs_fs m n = Some DirE"
  shows "abs_fs (snd (mem_OpenFile now n fl p m)) = abs_fs m"
proof -
  obtain r m' where r: "mem_OpenFile now n fl p m = (r, m')" by fastforce
  have "snd (spec_open n fl (abs_fs m)) = abs_fs m"
    using d by (simp add: spec_open_def spec_find_def Let_def)
  then show ?thesis using OpenFile_refines [OF inv, of n fl now p] r by (cases r) simp_all
qed

lemma Close_abs_fs:
  assumes inv: "mem_inv m" and h: "h < length (m_files m)"
  shows "abs_fs (snd (mf_Close h m)) = abs_fs m"
proof (cases "f_closed (the_file m h)")
  case False
  let ?p = "f_node (the_file m h)"
  define m2 where "m2 = upd_node ?p (\<lambda>n. n\<lparr>n_refs := n_refs n - 1\<rparr>) (upd_file h (\<lambda>f. f\<lparr>f_closed := True\<rparr>) m)"
  note p = open_file_facts(1) [OF inv h]
  have m2: "abs_fs m2 = abs_fs m" unfolding m2_def by (simp add: refs_abs_fs)
  have "abs_fs ((upd_node ?p (\<lambda>n. n\<lparr>n_data := []\<rparr>) m2)\<lparr>m_used := u\<rparr>) = abs_fs m2"
    if un: "\<not> n_linked (the_node m2 ?p)" for u
  proof
    fix q
    have "map_of (m_nodes m) q \<noteq> Some ?p"
    proof
      assume "map_of (m_nodes m) q = Some ?p"
      then have "n_linked (the_node m ?p)" using named_ptr [OF mem_inv_parts(1) [OF inv]] by blast
      with un p show False by (simp add: m2_def the_node_upd_node)
    qed
    then show "abs_fs ((upd_node ?p (\<lambda>n. n\<lparr>n_data := []\<rparr>) m2)\<lparr>m_used := u\<rparr>) q = abs_fs m2 q"
      using p by (cases "map_of (m_nodes m) q")
        (auto simp: abs_fs_def node_at_def m2_def the_node_upd_node)
  qed
  then show ?thesis using False m2 by (simp add: mf_Close_def Let_def m2_def)
qed (simp add: mf_Close_def)

lemma still_dir_abs:
  assumes inv: "mem_inv (w_mem s)" and h: "handle_ok s f"
  shows "abs_fs (w_mem (snd (still_dir W f s))) = abs_fs (w_mem s)"
proof -
  have st: "fo_Stat (file_obj W f) s = (r, s1) \<Longrightarrow> w_mem s1 = w_mem s" for r s1
    by (auto simp: file_obj_def obj_simps split: vfile.splits)
  obtain r s1 where r: "fo_Stat (file_obj W f) s = (r, s1)" by fastforce
  have s1: "w_mem s1 = w_mem s" by (rule st [OF r])
  have cl: "abs_fs (w_mem (snd (fo_Close (file_obj W f) s1))) = abs_fs (w_mem s)"
  proof (rule file_obj_cases [of f W])
    fix k assume f: "f = MemFile k"
      "file_obj W f = lift_obj (\<lambda>s. (w_mem s, w_now s)) (\<lambda>t s. s\<lparr>w_mem := fst t\<rparr>) (memory_file k)"
    then have "k < length (m_files (w_mem s))" using h by (simp add: handle_ok_def)
    then show ?thesis using f(2) s1 Close_abs_fs [OF inv, of k] by (simp add: obj_simps)
  qed (simp_all add: s1 obj_simps)
  show ?thesis
    by (cases r) (simp_all add: still_dir_def r cl s1)
qed

lemma root_reads_pure:
  assumes ok: "ns_ok ns" and root: "mount_of ns (path_elems name) = None"
  shows "snd (ns_Stat ns name s) = s" "snd (ns_Lstat ns name s) = s" "snd (check_slash ns name s) = s"
proof -
  have r: "route ns name = (if contains_nul name then Inl ErrInvalid
      else Inr (root_fs, name_of (path_elems name), False))"
    by (simp add: route_elems [OF ok] root)
  show st: "snd (ns_Stat ns name s) = s" by (auto simp: ns_Stat_def r split: sum.splits)
  then show "snd (ns_Lstat ns name s) = s" by (simp add: ns_Lstat_def r)
  show "snd (check_slash ns name s) = s"
    using st by (auto simp: check_slash_def split: prod.splits sum.splits)
qed

lemma OpenFile_directory_abs:
  assumes inv: "ns_inv (ws_NS W) s" and d: "wo_DIRECTORY fl"
    and root: "mount_of (ws_NS W) (path_elems (wasi_name W p)) = None"
  shows "abs_fs (w_mem (snd (wasi_OpenFile W p fl perm s))) = abs_fs (w_mem s)"
proof -
  let ?ns = "ws_NS W" and ?n = "wasi_name W p"
  have ok: "ns_ok ?ns" and mi: "mem_inv (w_mem s)" using inv by (simp_all add: ns_inv_def)
  note pure = root_reads_pure [OF ok root, of s]
  obtain i where i: "ns_Stat ?ns ?n s = (i, s)" using pure(1) by (metis prod.collapse)
  obtain c where c: "check_slash ?ns ?n s = (c, s)" using pure(3) by (metis prod.collapse)
  obtain b where b: "(if wo_NOFOLLOW fl then is_symlink W ?n s else (False, s)) = (b, s)"
  proof -
    obtain r where "ns_Lstat ?ns ?n s = (r, s)" using pure(2) by (metis prod.collapse)
    then have "snd (is_symlink W ?n s) = s" by (cases r) (simp_all add: is_symlink_def)
    then show thesis
      using that by (cases "wo_NOFOLLOW fl"; cases "is_symlink W ?n s") simp_all
  qed
  show ?thesis
  proof (cases "\<exists>x. i = Inr x \<and> info_is_dir x")
    case False
    then show ?thesis using d i by (auto simp: wasi_OpenFile_def Let_def must_be_dir_def split: sum.split)
  next
    case True
    then obtain x where x: "i = Inr x" "info_is_dir x" by blast
    obtain r s3 where o: "ns_Open ?ns ?n (go_flags fl) perm s = (r, s3)" by fastforce
    have "\<not> info_is_dir nullInfo" by code_simp
    with i x have nn: "Resolve ''/'' ?n \<noteq> ''/dev/null''" by (auto simp: ns_Stat_def)
    have rel: "\<not> contains_nul ?n" "abs_fs (w_mem s) (name_of (path_elems ?n)) = Some DirE"
      using i x nn route_elems [OF ok, of ?n] root
      by (auto simp: ns_Stat_def mem_Stat_def infoFor_def info_is_dir_def lookup_map_of abs_fs_Some
          split: if_splits sum.splits)
    have s3: "abs_fs (w_mem s3) = abs_fs (w_mem s)"
      using o c nn rel root OpenFile_dir_abs [OF mi rel(2)]
      by (auto simp: ns_Open_def route_elems [OF ok] mem_Open_def case_prod_beta
          split: option.splits if_splits)
    have "ns_inv ?ns s3" using ns_step_inv [OF inv ns_step.open_name, of ?n "go_flags fl" perm] o by simp
    then have mi3: "mem_inv (w_mem s3)" by (simp add: ns_inv_def)
    have st: "abs_fs (w_mem (snd (still_dir W f s3))) = abs_fs (w_mem s)" if "r = Inr f" for f
      using still_dir_abs [OF mi3 Open_handle_ok [OF ok o [unfolded that]]] s3 by simp
    have "must_be_dir W ?n s = (None, s)" using i x by (simp add: must_be_dir_def)
    with d b o s3 st show ?thesis
      by (cases b; cases r) (auto simp: wasi_OpenFile_def Let_def split: prod.splits option.splits)
  qed
qed

end
