(* ===== verification/WasiClaims.thy ===== *)
theory WasiClaims
  imports WasiSafe NamespaceClaims
begin

unbundle bit_operations_syntax

text \<open>
  The properties of the WASI adapter, with instances on \<open>demo_wasi\<close>: a program in the root
  directory of the namespace \<open>demo\<close>.
\<close>

section \<open>A concrete adapter\<close>

definition demo_wasi :: "(memory \<times> time, fd) wasi" where
  "demo_wasi = \<lparr>ws_NS = demo, ws_Cwd = ''/'', ws_file = memory_file,
     ws_NewStat = \<lambda>i. \<lparr>st_Dev = 0, st_Ino = 0, st_Mode = fi_mode i, st_Size = fi_size i,
                        st_Atim = fi_mtime i, st_Mtim = fi_mtime i\<rparr>,
     ws_OMIT = - 1\<rparr>"

lemma demo_wasi_NS [simp]: "ws_NS demo_wasi = demo"
  by (simp add: demo_wasi_def)

definition rw_create :: wflags where
  "rw_create = \<lparr>wo_RDWR = True, wo_WRONLY = False, wo_APPEND = False, wo_CREAT = True,
     wo_EXCL = False, wo_TRUNC = True, wo_DIRECTORY = False, wo_NOFOLLOW = False\<rparr>"

text \<open>The state after the program created \<open>/tmp/x\<close>, and the handle it got.\<close>

definition demo_x :: "(memory \<times> time) world" where
  "demo_x = snd (wasi_OpenFile demo_wasi ''tmp/x'' rw_create 0x1A4 demo_world)"

definition demo_h :: "fd wasiFile" where
  "demo_h = \<lparr>wz_f = MemFile 0, wz_metadataWritable = True, wz_name = ''/tmp/x'', wz_readable = True,
     wz_writable = True, wz_appendMode = False, wz_closed = False\<rparr>"

lemma demo_steps_inv: "(wasi_step W)\<^sup>*\<^sup>* s s' \<Longrightarrow> ns_inv (ws_NS W) s \<Longrightarrow> ns_inv (ws_NS W) s'"
proof (induction rule: rtranclp_induct)
  case (step t u)
  then have inv: "ns_inv (ws_NS W) t" by simp
  then have "ns_ok (ws_NS W)" by (simp add: ns_inv_def)
  from wasi_step_reach [OF step.hyps(2) this] inv show ?case by (rule ns_steps_inv)
qed

lemma demo_x_inv: "ns_inv demo demo_x"
proof -
  have "wasi_step demo_wasi demo_world demo_x"
    unfolding demo_x_def by (rule wasi_step.open_name)
  then have "(wasi_step demo_wasi)\<^sup>*\<^sup>* demo_world demo_x" by (rule r_into_rtranclp)
  then show ?thesis using demo_steps_inv [of demo_wasi] demo_inv by simp
qed

section \<open>Errors\<close>

text \<open>Errors reach the guest faithfully: success is reported exactly for no error and for the end
  of file, an error keeps its number however it is wrapped, and the more specific number wins
  where several match (a full directory is \<open>ENOTEMPTY\<close>, not \<open>EEXIST\<close>).\<close>

theorem errno_faithful:
  "(wasi_errno e = W_OK \<longleftrightarrow> (case e of None \<Rightarrow> True | Some x \<Rightarrow> errors_is x EOF)) \<and>
   wasi_errno (Some (PathError op p x)) = wasi_errno (Some x) \<and>
   wasi_errno (Some (Wrapped m x)) = wasi_errno (Some x) \<and>
   map (\<lambda>x. wasi_errno (Some x))
     [Errno ENOENT, Errno EEXIST, Errno ENOTDIR, Errno EISDIR, Errno ENOTEMPTY, Errno ENOSPC, Errno EROFS,
      Errno EBUSY, Errno EXDEV, Errno ENOSYS, Errno EACCES, Errno EPERM, ErrNotExist, ErrExist,
      ErrPermission, ErrClosed, ErrInvalid, ErrLimit] =
     [W_ENOENT, W_EEXIST, W_ENOTDIR, W_EISDIR, W_ENOTEMPTY, W_EIO, W_EROFS,
      W_EPERM, W_ENOTSUP, W_ENOSYS, W_EACCES, W_EACCES, W_ENOENT, W_EEXIST,
      W_EACCES, W_EBADF, W_EINVAL, W_EIO]"
proof -
  have "wasi_errno e = W_OK \<longleftrightarrow> (case e of None \<Rightarrow> True | Some x \<Rightarrow> errors_is x EOF)"
    using errno_OK by (cases e) (simp_all add: wasi_errno_def)
  moreover have "map (\<lambda>x. wasi_errno (Some x))
     [Errno ENOENT, Errno EEXIST, Errno ENOTDIR, Errno EISDIR, Errno ENOTEMPTY, Errno ENOSPC, Errno EROFS,
      Errno EBUSY, Errno EXDEV, Errno ENOSYS, Errno EACCES, Errno EPERM, ErrNotExist, ErrExist,
      ErrPermission, ErrClosed, ErrInvalid, ErrLimit] =
     [W_ENOENT, W_EEXIST, W_ENOTDIR, W_EISDIR, W_ENOTEMPTY, W_EIO, W_EROFS,
      W_EPERM, W_ENOTSUP, W_ENOSYS, W_EACCES, W_EACCES, W_ENOENT, W_EEXIST,
      W_EACCES, W_EBADF, W_EINVAL, W_EIO]"
    by code_simp
  ultimately show ?thesis by (simp only: errno_wrapped simp_thms)
qed

section \<open>Safety\<close>

text \<open>C19: Whatever sequence of calls a WASI program makes, by name or on its open files, the root
  memory keeps its invariant and no mount point disappears.\<close>

theorem wasi_program_safe:
  assumes "ns_inv (ws_NS W) s" "(wasi_step W)\<^sup>*\<^sup>* s s'"
  shows "mem_inv (w_mem s') \<and> (\<forall>m \<in> set (ns_mounts (ws_NS W)). is_dir_at (w_mem s') (mount_point m))"
  using demo_steps_inv [OF assms(2,1)] by (simp add: ns_inv_def)

theorem wasi_program_safe_witness:
  "mem_inv (w_mem (snd (wz_Write demo_wasi demo_h [1, 2] demo_x)))"
proof -
  have "handle_ok demo_x (wz_f demo_h)" by code_simp
  then have "wasi_step demo_wasi demo_x (snd (wz_Write demo_wasi demo_h [1, 2] demo_x))"
    by (rule wasi_step.write_seq) (simp add: go_slice_def max_int64_def)
  then show ?thesis
    using wasi_program_safe [of demo_wasi demo_x] demo_x_inv by (simp add: r_into_rtranclp)
qed

text \<open>C26: Opening with \<open>O_DIRECTORY\<close>, whatever other flags are given, never creates, truncates or
  otherwise changes an entry of the root; in particular \<open>O_DIRECTORY|O_TRUNC\<close> does not empty a
  regular file before failing.\<close>

theorem directory_open_harmless:
  assumes "ns_inv (ws_NS W) s" "wo_DIRECTORY fl" "ns_owner (ws_NS W) (wasi_name W p) = ''/''"
  shows "abs_fs (w_mem (snd (wasi_OpenFile W p fl perm s))) = abs_fs (w_mem s)"
proof (cases "mount_of (ws_NS W) (path_elems (wasi_name W p))")
  case None
  then show ?thesis by (rule OpenFile_directory_abs [OF assms(1,2)])
next
  case (Some m)
  have ok: "ns_ok (ws_NS W)" using assms(1) by (simp add: ns_inv_def)
  then have "mount_ok m" using Some ns_ok_mount [OF ok] by (simp add: mount_of_Some [OF ok])
  then show ?thesis using Some assms(3) by (simp add: owner_elems mount_ok_def bad_mount_path_def)
qed

theorem directory_open_harmless_witness:
  "abs_fs (w_mem (snd (wasi_OpenFile demo_wasi ''tmp/x'' (rw_create\<lparr>wo_DIRECTORY := True\<rparr>) 0 demo_x)))
    = abs_fs (w_mem demo_x)"
proof -
  have n: "wasi_name demo_wasi ''tmp/x'' = ''/tmp/x''" by code_simp
  have "ns_owner demo ''/tmp/x'' = ''/''" by (simp add: owner_elems elems_ex demo_mount_of)
  then show ?thesis using directory_open_harmless [of demo_wasi demo_x _ "''tmp/x''"] demo_x_inv n by simp
qed

section \<open>Open files\<close>

text \<open>Every call on a closed handle returns \<open>EBADF\<close> and touches nothing.\<close>

theorem closed_handle_dead:
  assumes "wz_closed f"
  shows "wz_Stat W f s = (Inl W_EBADF, s) \<and> wz_Read W f n s = (([], W_EBADF), s) \<and>
    wz_Pread W f n off s = (([], W_EBADF), s) \<and> wz_Seek W f off wh s = (Inl W_EBADF, s) \<and>
    wz_Write W f bs s = ((0, W_EBADF), s) \<and> wz_Pwrite W f bs off s = ((0, W_EBADF), s) \<and>
    wz_Truncate W f sz s = (W_EBADF, s) \<and> wz_Utimens W f a m s = (W_EBADF, s) \<and>
    wz_Sync W f s = (W_EBADF, s) \<and> wz_Readdir W f k s = (Inl W_EBADF, s) \<and>
    wz_Close W f s = (W_EBADF, f, s)"
  using assms by (simp add: wz_Stat_def wz_Read_def wz_Pread_def wz_Seek_def wz_Write_def
      wz_Pwrite_def wz_Truncate_def wz_Utimens_def wz_Sync_def wz_Readdir_def wz_Close_def)

theorem closed_handle_dead_witness:
  "wz_Write demo_wasi (fst (snd (wz_Close demo_wasi demo_h demo_x))) [1] demo_x = ((0, W_EBADF), demo_x)"
proof -
  have "wz_closed (fst (snd (wz_Close demo_wasi demo_h demo_x)))"
    by (simp add: wz_Close_def demo_h_def Let_def case_prod_beta)
  from closed_handle_dead [OF this] show ?thesis by blast
qed

lemma go_flags_bits:
  "has_flag (go_flags fl) (O_WRONLY OR O_RDWR) = (wo_RDWR fl \<or> wo_WRONLY fl)"
  "has_flag (go_flags fl) O_WRONLY = (\<not> wo_RDWR fl \<and> wo_WRONLY fl)"
  "has_flag (go_flags fl) O_APPEND = wo_APPEND fl"
  by (cases fl; simp add: go_flags_def Let_def has_flag_def flag_defs)+

text \<open>C33: A handle can do exactly what the flags of its \<open>OpenFile\<close> allow: it is writable iff
  \<open>O_RDWR\<close> or \<open>O_WRONLY\<close> was given, readable iff it was not write-only, and a call its mode
  does not allow returns \<open>EBADF\<close> and changes nothing.\<close>

theorem access_modes:
  assumes "wasi_OpenFile W p fl perm s = (Inr f, s')"
  shows "wz_writable f = (wo_RDWR fl \<or> wo_WRONLY fl) \<and> wz_readable f = (wo_RDWR fl \<or> \<not> wo_WRONLY fl) \<and>
    wz_appendMode f = wo_APPEND fl \<and> \<not> wz_closed f \<and>
    (\<not> wo_RDWR fl \<and> \<not> wo_WRONLY fl \<longrightarrow>
       wz_Write W f bs t = ((0, W_EBADF), t) \<and> wz_Pwrite W f bs off t = ((0, W_EBADF), t) \<and>
       wz_Truncate W f sz t = (W_EBADF, t)) \<and>
    (\<not> wo_RDWR fl \<and> wo_WRONLY fl \<longrightarrow>
       wz_Read W f n t = (([], W_EBADF), t) \<and> wz_Pread W f n off t = (([], W_EBADF), t))"
proof -
  have f: "wz_writable f = has_flag (go_flags fl) (O_WRONLY OR O_RDWR)"
    "wz_readable f = (\<not> has_flag (go_flags fl) O_WRONLY)"
    "wz_appendMode f = has_flag (go_flags fl) O_APPEND" "\<not> wz_closed f"
    using assms by (auto simp: wasi_OpenFile_def Let_def split: prod.splits option.splits bool.splits sum.splits)
  then show ?thesis
    by (simp add: go_flags_bits wz_Write_def wz_Pwrite_def wz_Truncate_def wz_Read_def wz_Pread_def)
qed

theorem access_modes_witness:
  "\<exists>f s'. wasi_OpenFile demo_wasi ''tmp/x'' (rw_create\<lparr>wo_RDWR := False, wo_CREAT := False, wo_TRUNC := False\<rparr>) 0 demo_x = (Inr f, s') \<and>
     wz_Write demo_wasi f [1] s' = ((0, W_EBADF), s')"
proof -
  let ?fl = "rw_create\<lparr>wo_RDWR := False, wo_CREAT := False, wo_TRUNC := False\<rparr>"
  have "(case fst (wasi_OpenFile demo_wasi ''tmp/x'' ?fl 0 demo_x) of Inl e \<Rightarrow> False | Inr f \<Rightarrow> True)"
    by code_simp
  then obtain f s' where r: "wasi_OpenFile demo_wasi ''tmp/x'' ?fl 0 demo_x = (Inr f, s')"
    by (cases "wasi_OpenFile demo_wasi ''tmp/x'' ?fl 0 demo_x"; cases "fst (wasi_OpenFile demo_wasi ''tmp/x'' ?fl 0 demo_x)") auto
  have "\<not> wo_RDWR ?fl" "\<not> wo_WRONLY ?fl" by (simp_all add: rw_create_def)
  with access_modes [OF r] r show ?thesis by blast
qed

text \<open>\<open>Utimens\<close> on an open file of the root sets the times of the node the handle holds, whatever
  the file is called by now or even without a name; \<open>UTIME_OMIT\<close> keeps a time; no other node
  changes.\<close>

theorem utimens_follows_handle:
  assumes "ns_inv ns s" "wz_f f = MemFile h" "h < length (m_files (w_mem s))"
    and "\<not> wz_closed f" "wz_metadataWritable f" "\<not> f_closed (the_file (w_mem s) h)"
    and "\<And>i. st_Mtim (ws_NewStat W i) = fi_mtime i"
    and "in_i64 (n_atime (file_node (w_mem s) h))"
  shows "wz_Utimens W f a m s = (W_OK, s\<lparr>w_mem :=
    upd_node (f_node (the_file (w_mem s) h))
      (\<lambda>n. n\<lparr>n_atime := if a = ws_OMIT W then n_atime (file_node (w_mem s) h) else a,
             n_mtime := if m = ws_OMIT W then n_mtime (file_node (w_mem s) h) else m\<rparr>) (w_mem s)\<rparr>)"
  using assms(2-) i64_id [OF assms(8)]
  by (simp add: wz_Utimens_def wz_Stat_def file_obj_def obj_simps mf_Stat_def infoFor_def wasi_stat_def
      timestamps_def mf_Chtimes_def wasi_errno_def)

theorem utimens_follows_handle_witness:
  "fst (wz_Utimens demo_wasi demo_h (- 1) 77 demo_x) = W_OK"
proof -
  have h: "wz_f demo_h = MemFile 0" "\<not> wz_closed demo_h" "wz_metadataWritable demo_h"
    by (simp_all add: demo_h_def)
  have c: "0 < length (m_files (w_mem demo_x))" "\<not> f_closed (the_file (w_mem demo_x) 0)"
    "in_i64 (n_atime (file_node (w_mem demo_x) 0))"
    by code_simp+
  have "st_Mtim (ws_NewStat demo_wasi i) = fi_mtime i" for i by (simp add: demo_wasi_def)
  from utimens_follows_handle [OF demo_x_inv h(1) c(1) h(2,3) c(2) this c(3)]
  show ?thesis by simp
qed

section \<open>Removing\<close>

lemma Remove_root_result:
  assumes inv: "ns_inv ns s" and root: "mount_of ns (path_elems name) = None"
    and nn: "Resolve ''/'' name \<noteq> ''/dev/null''"
  shows "(case fst (ns_Remove ns name dir s) of Some e \<Rightarrow> \<not> errors_is e EOF | None \<Rightarrow>
     \<exists>x. abs_fs (w_mem s) (name_of (path_elems name)) = Some x \<and> (x = DirE) = dir \<and>
       (dir \<longrightarrow> \<not> spec_has_child (abs_fs (w_mem s)) (name_of (path_elems name))) \<and>
       abs_fs (w_mem (snd (ns_Remove ns name dir s))) =
         (abs_fs (w_mem s))(name_of (path_elems name) := None))"
proof -
  let ?rel = "name_of (path_elems name)"
  have ok: "ns_ok ns" and mi: "mem_inv (w_mem s)" using inv by (simp_all add: ns_inv_def)
  have r: "route ns name = (if contains_nul name then Inl ErrInvalid else Inr (root_fs, ?rel, False))"
    by (simp add: route_elems [OF ok] root)
  have w: "ns_writable ns name = (if busy ns (path_elems name) then Inl (Errno EBUSY)
      else if contains_nul name then Inl ErrInvalid else Inr (root_fs, root_write, ?rel))"
    by (simp add: writable_elems [OF ok] r)
  obtain i where l: "ns_Lstat ns name s = (i, s)"
    using root_reads_pure(2) [OF ok root, of s] by (metis prod.collapse)
  have lstat: "ns_Lstat ns name s = ns_Stat ns name s \<or> contains_nul name"
    by (simp add: ns_Lstat_def r)
  show ?thesis
  proof (cases "busy ns (path_elems name) \<or> contains_nul name")
    case True
    then show ?thesis by (auto simp: ns_Remove_def w)
  next
    case False
    with lstat l have st: "ns_Stat ns name s = (i, s)" by simp
    show ?thesis
    proof (cases i)
      case (Inl e)
      then have "\<not> errors_is e EOF"
        using st nn False by (auto simp: ns_Stat_def r mem_Stat_def mem_lookup_def pathErr_def
            split: if_splits sum.splits option.splits)
      then show ?thesis using False l Inl by (simp add: ns_Remove_def w)
    next
      case (Inr x)
      then obtain c where c: "valid ?rel" "map_of (m_nodes (w_mem s)) ?rel = Some c"
          "info_is_dir x = mode_is_dir (n_mode (the_node (w_mem s) c))"
        using st nn False by (auto simp: ns_Stat_def r mem_Stat_def lookup_map_of infoFor_def info_is_dir_def
            split: if_splits sum.splits)
      have ref: "map_prod id abs_fs (mem_Remove ?rel (w_mem s)) = spec_remove ?rel (abs_fs (w_mem s))"
        by (rule Remove_refines [OF mi])
      obtain e m' where m': "mem_Remove ?rel (w_mem s) = (e, m')" by fastforce
      have res: "ns_Remove ns name dir s =
          (if info_is_dir x \<noteq> dir then (Some (Errno (if dir then ENOTDIR else EISDIR)), s) else (e, s\<lparr>w_mem := m'\<rparr>))"
        using False l Inr m' by (simp add: ns_Remove_def w)
      have a: "abs_fs (w_mem s) ?rel = Some (entry_of (the_node (w_mem s) c))" using c(2) by (rule abs_fs_Some)
      show ?thesis
      proof (cases "info_is_dir x = dir")
        case True
        show ?thesis
          using ref m' res True c(1,3) a
          by (auto simp: spec_remove_def pathErr_def split: if_splits)
      qed (simp add: res)
    qed
  qed
qed

text \<open>\<open>Unlink\<close> succeeds only on a file of the root and \<open>Rmdir\<close> only on an empty directory;
  success removes exactly that entry.\<close>

theorem unlink_rmdir_exact:
  assumes "ns_inv (ws_NS W) s" "ns_owner (ws_NS W) (wasi_name W p) = ''/''"
    and "Resolve ''/'' (wasi_name W p) \<noteq> ''/dev/null''"
  defines "rel \<equiv> name_of (path_elems (wasi_name W p))"
  shows "(fst (wasi_Unlink W p s) = W_OK \<longrightarrow>
      (\<exists>d. abs_fs (w_mem s) rel = Some (FileE d)) \<and>
      abs_fs (w_mem (snd (wasi_Unlink W p s))) = (abs_fs (w_mem s))(rel := None)) \<and>
    (fst (wasi_Rmdir W p s) = W_OK \<longrightarrow>
      abs_fs (w_mem s) rel = Some DirE \<and> \<not> spec_has_child (abs_fs (w_mem s)) rel \<and>
      abs_fs (w_mem (snd (wasi_Rmdir W p s))) = (abs_fs (w_mem s))(rel := None))"
proof -
  have ok: "ns_ok (ws_NS W)" using assms(1) by (simp add: ns_inv_def)
  have root: "mount_of (ws_NS W) (path_elems (wasi_name W p)) = None"
  proof (cases "mount_of (ws_NS W) (path_elems (wasi_name W p))")
    case (Some m)
    then have "mount_ok m" using ns_ok_mount [OF ok] by (simp add: mount_of_Some [OF ok])
    then show ?thesis using Some assms(2) by (simp add: owner_elems mount_ok_def bad_mount_path_def)
  qed
  have is_file: "(x = DirE) = False \<Longrightarrow> \<exists>d. x = FileE d" for x by (cases x) auto
  note res = Remove_root_result [OF assms(1) root assms(3), folded rel_def]
  have ok_None: "wasi_errno e = W_OK \<longleftrightarrow> (case e of None \<Rightarrow> True | Some x \<Rightarrow> errors_is x EOF)" for e
    using errno_OK by (cases e) (simp_all add: wasi_errno_def)
  show ?thesis
    using res [of False] res [of True] is_file
    by (auto simp: wasi_Unlink_def wasi_Rmdir_def ok_None split: option.splits)
qed

theorem unlink_rmdir_exact_witness:
  "abs_fs (w_mem (snd (wasi_Unlink demo_wasi ''tmp/x'' demo_x))) = (abs_fs (w_mem demo_x))(''tmp/x'' := None)"
proof -
  have n: "wasi_name demo_wasi ''tmp/x'' = ''/tmp/x''" "Resolve ''/'' ''/tmp/x'' \<noteq> ''/dev/null''"
    "fst (wasi_Unlink demo_wasi ''tmp/x'' demo_x) = W_OK" "name_of [''tmp'', ''x''] = ''tmp/x''"
    by code_simp+
  have own: "ns_owner demo ''/tmp/x'' = ''/''" by (simp add: owner_elems elems_ex demo_mount_of)
  show ?thesis
    using unlink_rmdir_exact [of demo_wasi demo_x "''tmp/x''"] demo_x_inv n own by (simp add: elems_ex)
qed

end
