(* ===== verification/CommandFS.thy ===== *)
theory CommandFS
  imports Namespace Paging
begin

unbundle bit_operations_syntax

text \<open>
  \<open>internal/wasm/embed.go\<close> and \<open>internal/wasm/fs.go\<close>: the table of embedded executables,
  the filesystem that shows one file per command name, and its open files.  The bytes of the
  artifacts (\<open>go:embed\<close>) are an argument \<open>art\<close>, from artifact name to contents; of
  the standard library, \<open>strings.Fields\<close>, \<open>sort.SearchStrings\<close> and \<open>bytes.Reader\<close>
  are modelled.
\<close>

section \<open>The embedded modules\<close>

record module =
  md_Name :: string
  md_Project :: string
  md_Version :: string
  md_Wasm :: "byte list"
  md_Commands :: "string list"
  md_Multicall :: bool

definition Argv :: "module \<Rightarrow> string list \<Rightarrow> string list" where
  "Argv m args = (if md_Multicall m \<and> hd args \<noteq> md_Name m then md_Name m # args else args)"

text \<open>\<open>strings.Fields\<close> on ASCII text: the maximal pieces without white space.\<close>

definition is_space :: "char \<Rightarrow> bool" where
  "is_space c = (c \<in> {CHR '' '', CHR 0x09, CHR 0x0A, CHR 0x0B, CHR 0x0C, CHR 0x0D})"

fun fields_acc :: "string \<Rightarrow> string \<Rightarrow> string list" where
  "fields_acc cur [] = (if cur = [] then [] else [rev cur])"
| "fields_acc cur (c # s) =
     (if is_space c then (if cur = [] then fields_acc [] s else rev cur # fields_acc [] s)
      else fields_acc (c # cur) s)"

definition go_fields :: "string \<Rightarrow> string list" where
  "go_fields s = fields_acc [] s"

definition coreutilsCommands :: string where
  "coreutilsCommands = ''arch base32 base64 basename basenc cat comm cp csplit cut date dd dir dircolors dirname echo expand expr factor false fmt fold head join link ln ls mkdir mktemp mv nl nproc numfmt od paste pathchk pr printenv printf ptx pwd readlink realpath rm rmdir seq shred shuf sleep sort split sum tail tee test touch tr true truncate tsort tty uname unexpand uniq unlink vdir wc yes cksum b2sum md5sum sha1sum sha224sum sha256sum sha384sum sha512sum''"

definition Version :: string where
  "Version = ''0.11.0''"

definition Modules :: "(string \<Rightarrow> byte list) \<Rightarrow> module list" where
  "Modules art =
     [\<lparr>md_Name = ''coreutils'', md_Project = ''coreutils'', md_Version = Version, md_Wasm = art ''coreutils'',
       md_Commands = sort (''['' # go_fields coreutilsCommands), md_Multicall = True\<rparr>,
      \<lparr>md_Name = ''grep'', md_Project = ''grep'', md_Version = ''0.2.0'', md_Wasm = art ''grep'',
       md_Commands = [''grep''], md_Multicall = False\<rparr>,
      \<lparr>md_Name = ''find'', md_Project = ''findutils'', md_Version = ''0.10.0'', md_Wasm = art ''find'',
       md_Commands = [''find''], md_Multicall = False\<rparr>,
      \<lparr>md_Name = ''diffutils'', md_Project = ''diffutils'', md_Version = ''0.5.0'', md_Wasm = art ''diffutils'',
       md_Commands = [''cmp'', ''diff''], md_Multicall = False\<rparr>,
      \<lparr>md_Name = ''sed'', md_Project = ''sed'', md_Version = ''0.2.0'', md_Wasm = art ''sed'',
       md_Commands = [''sed''], md_Multicall = False\<rparr>,
      \<lparr>md_Name = ''rg'', md_Project = ''ripgrep'', md_Version = ''15.2.0'', md_Wasm = art ''rg'',
       md_Commands = [''rg''], md_Multicall = False\<rparr>]"

text \<open>The names a module answers to, in the order in which \<open>byCommand\<close> enters them.\<close>

definition module_names :: "module \<Rightarrow> string list" where
  "module_names m = (if md_Multicall m then [md_Name m] else []) @ md_Commands m"

definition byCommand :: "module list \<Rightarrow> (string \<times> module) list" where
  "byCommand ms =
     foldl (\<lambda>t m. foldl (\<lambda>t c. AList.update c m t) t (module_names m)) [] ms"

definition Lookup :: "(string \<Rightarrow> byte list) \<Rightarrow> string \<Rightarrow> module option" where
  "Lookup art c = map_of (byCommand (Modules art)) c"

definition Commands :: "(string \<Rightarrow> byte list) \<Rightarrow> string list" where
  "Commands art = sort (map fst (byCommand (Modules art)))"

section \<open>The command filesystem\<close>

text \<open>\<open>sort.SearchStrings\<close>: binary search for the first name not below the given one.\<close>

function search_loop :: "string list \<Rightarrow> string \<Rightarrow> nat \<Rightarrow> nat \<Rightarrow> nat" where
  "search_loop ns x i j =
     (if i < j
      then let h = (i + j) div 2
           in if ns ! h < x then search_loop ns x (h + 1) j else search_loop ns x i h
      else i)"
  by pat_completeness auto

termination search_loop
  by (relation "measure (\<lambda>(ns, x, i, j). j - i)") auto

declare search_loop.simps [simp del]

definition SearchStrings :: "string list \<Rightarrow> string \<Rightarrow> nat" where
  "SearchStrings ns x = search_loop ns x 0 (length ns)"

record commandInfo =
  ci_name :: string
  ci_module :: "module option"

definition ci_IsDir :: "commandInfo \<Rightarrow> bool" where
  "ci_IsDir i = (ci_name i = ''.'')"

definition ci_Size :: "commandInfo \<Rightarrow> int" where
  "ci_Size i = (case ci_module i of None \<Rightarrow> 0 | Some m \<Rightarrow> int (length (md_Wasm m)))"

definition ci_Mode :: "commandInfo \<Rightarrow> filemode" where
  "ci_Mode i = (if ci_IsDir i then ModeDir OR 0x16D else 0x16D)"

text \<open>A \<open>commandInfo\<close> seen as \<open>fs.FileInfo\<close>.\<close>

definition ci_info :: "commandInfo \<Rightarrow> fileInfo" where
  "ci_info i = \<lparr>fi_name = ci_name i, fi_size = ci_Size i, fi_mode = ci_Mode i, fi_mtime = 0,
                fi_atime = None, fi_id = None\<rparr>"

text \<open>\<open>bytes.Reader\<close>: the bytes and the read position.\<close>

record reader =
  rd_s :: "byte list"
  rd_i :: int

record commandFile =
  cf_reader :: "reader option"
  cf_info :: commandInfo
  cf_names :: "string list"
  cf_offset :: nat
  cf_closed :: bool

definition reader_Read :: "nat \<Rightarrow> reader \<Rightarrow> (byte list \<times> goerr option) \<times> reader" where
  "reader_Read n r =
     (if int (length (rd_s r)) \<le> rd_i r then (([], Some EOF), r)
      else let bs = take n (drop (nat (rd_i r)) (rd_s r))
           in ((bs, None), r\<lparr>rd_i := i64 (rd_i r + int (length bs))\<rparr>))"

definition reader_ReadAt :: "nat \<Rightarrow> int \<Rightarrow> reader \<Rightarrow> byte list \<times> goerr option" where
  "reader_ReadAt n off r =
     (if off < 0 then ([], Some (ErrText ''bytes.Reader.ReadAt: negative offset''))
      else if int (length (rd_s r)) \<le> off then ([], Some EOF)
      else let bs = take n (drop (nat off) (rd_s r))
           in (bs, if length bs < n then Some EOF else None))"

definition reader_Seek :: "int \<Rightarrow> int \<Rightarrow> reader \<Rightarrow> int res \<times> reader" where
  "reader_Seek off whence r =
     (let base = (if whence = 0 then Some off
                  else if whence = 1 then Some (i64 (rd_i r + off))
                  else if whence = 2 then Some (i64 (int (length (rd_s r)) + off))
                  else None)
      in case base of
           None \<Rightarrow> (Inl (ErrText ''bytes.Reader.Seek: invalid whence''), r)
         | Some p \<Rightarrow>
             if p < 0 then (Inl (ErrText ''bytes.Reader.Seek: negative position''), r)
             else (Inr p, r\<lparr>rd_i := p\<rparr>))"

text \<open>\<open>FS\<close>: the sorted names the filesystem shows.\<close>

definition command_names :: "(string \<Rightarrow> byte list) \<Rightarrow> string list \<Rightarrow> string list" where
  "command_names art extra = sort (Commands art @ extra)"

definition cfs_Open :: "(string \<Rightarrow> byte list) \<Rightarrow> string list \<Rightarrow> string \<Rightarrow> commandFile res" where
  "cfs_Open art names name =
     (if \<not> valid_path name then Inl (PathError ''open'' name ErrInvalid)
      else if name = ''.''
      then Inr \<lparr>cf_reader = None, cf_info = \<lparr>ci_name = name, ci_module = None\<rparr>, cf_names = names,
                cf_offset = 0, cf_closed = False\<rparr>
      else
        let i = SearchStrings names name
        in if i = length names \<or> names ! i \<noteq> name then Inl (PathError ''open'' name ErrNotExist)
           else
             let m = Lookup art name;
                 data = (case m of None \<Rightarrow> [] | Some md \<Rightarrow> md_Wasm md)
             in Inr \<lparr>cf_reader = Some \<lparr>rd_s = data, rd_i = 0\<rparr>,
                     cf_info = \<lparr>ci_name = name, ci_module = m\<rparr>, cf_names = [],
                     cf_offset = 0, cf_closed = False\<rparr>)"

section \<open>Open command files\<close>

definition cf_Stat :: "commandFile \<Rightarrow> fileInfo res" where
  "cf_Stat f = (if cf_closed f then Inl ErrClosed else Inr (ci_info (cf_info f)))"

definition cf_Close :: "commandFile \<Rightarrow> goerr option \<times> commandFile" where
  "cf_Close f = (if cf_closed f then (Some ErrClosed, f) else (None, f\<lparr>cf_closed := True\<rparr>))"

definition cf_Read :: "nat \<Rightarrow> commandFile \<Rightarrow> (byte list \<times> goerr option) \<times> commandFile" where
  "cf_Read n f =
     (if cf_closed f then (([], Some ErrClosed), f)
      else if ci_IsDir (cf_info f) then (([], Some ErrInvalid), f)
      else let (r, rd) = reader_Read n (the (cf_reader f)) in (r, f\<lparr>cf_reader := Some rd\<rparr>))"

definition cf_ReadAt :: "nat \<Rightarrow> int \<Rightarrow> commandFile \<Rightarrow> byte list \<times> goerr option" where
  "cf_ReadAt n off f =
     (if cf_closed f then ([], Some ErrClosed)
      else if ci_IsDir (cf_info f) then ([], Some ErrInvalid)
      else reader_ReadAt n off (the (cf_reader f)))"

definition cf_Seek :: "int \<Rightarrow> int \<Rightarrow> commandFile \<Rightarrow> int res \<times> commandFile" where
  "cf_Seek off whence f =
     (if cf_closed f then (Inl ErrClosed, f)
      else if ci_IsDir (cf_info f)
      then (if off \<noteq> 0 \<or> whence \<noteq> 0 then (Inl ErrInvalid, f) else (Inr 0, f\<lparr>cf_offset := 0\<rparr>))
      else let (r, rd) = reader_Seek off whence (the (cf_reader f)) in (r, f\<lparr>cf_reader := Some rd\<rparr>))"

definition cf_ReadDir :: "(string \<Rightarrow> byte list) \<Rightarrow> int \<Rightarrow> commandFile \<Rightarrow> fileInfo list res \<times> commandFile" where
  "cf_ReadDir art n f =
     (if cf_closed f then (Inl ErrClosed, f)
      else if \<not> ci_IsDir (cf_info f) then (Inl ErrInvalid, f)
      else if 0 < n \<and> cf_offset f = length (cf_names f) then (Inl EOF, f)
      else
        let end = (if 0 < n \<and> n < int (length (cf_names f)) - int (cf_offset f)
                   then cf_offset f + nat n else length (cf_names f));
            entries = map (\<lambda>name. ci_info \<lparr>ci_name = name, ci_module = Lookup art name\<rparr>)
                        (take (end - cf_offset f) (drop (cf_offset f) (cf_names f)))
        in (Inr entries, f\<lparr>cf_offset := end\<rparr>))"

section \<open>As a mounted filesystem\<close>

text \<open>
  The state of a mounted command filesystem is the list of its open files.  It has no method but
  \<open>Open\<close>: \<open>fs.Stat\<close> opens, asks and closes, \<open>fs.ReadDir\<close> opens, reads everything, sorts
  and closes.
\<close>

definition cfs_mounted_Open ::
  "(string \<Rightarrow> byte list) \<Rightarrow> string list \<Rightarrow> string \<Rightarrow> commandFile list \<Rightarrow> nat res \<times> commandFile list" where
  "cfs_mounted_Open art names name fs =
     (case cfs_Open art names name of
        Inl e \<Rightarrow> (Inl e, fs)
      | Inr f \<Rightarrow> (Inr (length fs), fs @ [f]))"

definition cfs_mounted_Stat ::
  "(string \<Rightarrow> byte list) \<Rightarrow> string list \<Rightarrow> string \<Rightarrow> commandFile list \<Rightarrow> fileInfo res \<times> commandFile list" where
  "cfs_mounted_Stat art names name fs =
     (case cfs_Open art names name of
        Inl e \<Rightarrow> (Inl e, fs)
      | Inr f \<Rightarrow> (cf_Stat f, fs @ [snd (cf_Close f)]))"

definition cfs_mounted_ReadDir ::
  "(string \<Rightarrow> byte list) \<Rightarrow> string list \<Rightarrow> string \<Rightarrow> commandFile list \<Rightarrow> fileInfo list res \<times> commandFile list" where
  "cfs_mounted_ReadDir art names name fs =
     (case cfs_Open art names name of
        Inl e \<Rightarrow> (Inl e, fs)
      | Inr f \<Rightarrow>
          let (r, f') = cf_ReadDir art (- 1) f
          in (map_sum id (sort_key fi_name) r, fs @ [snd (cf_Close f')]))"

definition command_fs :: "(string \<Rightarrow> byte list) \<Rightarrow> string list \<Rightarrow> (commandFile list, nat) filesys" where
  "command_fs art extra =
     (let names = command_names art extra
      in \<lparr>fs_Open = cfs_mounted_Open art names, fs_Stat = cfs_mounted_Stat art names,
          fs_ReadDir = cfs_mounted_ReadDir art names,
          fs_Lstat = None, fs_Readlink = None, fs_Write = None\<rparr>)"

section \<open>Lemmas\<close>

subsection \<open>Binary search\<close>

lemma search_loop_step:
  "\<not> i < j \<Longrightarrow> search_loop ns x i j = i"
  "i < j \<Longrightarrow> ns ! ((i + j) div 2) < x \<Longrightarrow> search_loop ns x i j = search_loop ns x ((i + j) div 2 + 1) j"
  "i < j \<Longrightarrow> \<not> ns ! ((i + j) div 2) < x \<Longrightarrow> search_loop ns x i j = search_loop ns x i ((i + j) div 2)"
  by (subst search_loop.simps, simp add: Let_def)+

text \<open>Everything before the result lies below the name, everything from it on does not.\<close>

lemma search_loop_spec:
  assumes sorted: "sorted ns"
  shows "i \<le> j \<Longrightarrow> j \<le> length ns \<Longrightarrow> \<forall>k < i. ns ! k < x \<Longrightarrow>
   \<forall>k. j \<le> k \<longrightarrow> k < length ns \<longrightarrow> \<not> ns ! k < x \<Longrightarrow>
   search_loop ns x i j \<le> length ns \<and> (\<forall>k < search_loop ns x i j. ns ! k < x) \<and>
   (\<forall>k. search_loop ns x i j \<le> k \<longrightarrow> k < length ns \<longrightarrow> \<not> ns ! k < x)"
proof (induction "j - i" arbitrary: i j rule: less_induct)
  case less
  show ?case
  proof (cases "i < j")
    case True
    define h where "h = (i + j) div 2"
    have h: "i \<le> h" "h < j" "h < length ns" using True less.prems(2) by (auto simp: h_def)
    show ?thesis
    proof (cases "ns ! h < x")
      case below: True
      have eq: "search_loop ns x i j = search_loop ns x (h + 1) j"
        using search_loop_step(2) [OF True, of ns x] below by (simp add: h_def)
      have "\<forall>k < h + 1. ns ! k < x"
      proof (intro allI impI)
        fix k assume "k < h + 1"
        then have "ns ! k \<le> ns ! h" using sorted_nth_mono [OF sorted, of k h] h(3) by simp
        then show "ns ! k < x" using below by (rule le_less_trans)
      qed
      then show ?thesis
        unfolding eq using h less.prems(2,4) by (intro less.hyps) auto
    next
      case above: False
      have eq: "search_loop ns x i j = search_loop ns x i h"
        using search_loop_step(3) [OF True, of ns x] above by (simp add: h_def)
      have "\<forall>k. h \<le> k \<longrightarrow> k < length ns \<longrightarrow> \<not> ns ! k < x"
      proof (intro allI impI notI)
        fix k assume k: "h \<le> k" "k < length ns" and "ns ! k < x"
        have "ns ! h \<le> ns ! k" using sorted_nth_mono [OF sorted k(1)] k(2) by simp
        from le_less_trans [OF this \<open>ns ! k < x\<close>] above show False by simp
      qed
      then show ?thesis
        unfolding eq using h less.prems(3) by (intro less.hyps) auto
    qed
  next
    case False
    then show ?thesis using less.prems by (simp add: search_loop_step(1))
  qed
qed

lemma SearchStrings_finds:
  assumes "sorted ns"
  shows "(SearchStrings ns x < length ns \<and> ns ! SearchStrings ns x = x) \<longleftrightarrow> x \<in> set ns"
proof -
  let ?i = "SearchStrings ns x"
  have spec: "\<forall>k < ?i. ns ! k < x" "\<forall>k. ?i \<le> k \<longrightarrow> k < length ns \<longrightarrow> \<not> ns ! k < x" "?i \<le> length ns"
    using search_loop_spec [OF assms, of 0 "length ns" x] unfolding SearchStrings_def by auto
  show ?thesis
  proof
    assume "x \<in> set ns"
    then obtain k where k: "k < length ns" "ns ! k = x" by (auto simp: in_set_conv_nth)
    then have "?i \<le> k" using spec(1) by (metis less_irrefl not_le)
    then have "?i < length ns" "ns ! ?i \<le> x" using k sorted_nth_mono [OF assms, of ?i k] by auto
    with spec(2) show "?i < length ns \<and> ns ! ?i = x" by (meson le_less order_refl)
  next
    assume "?i < length ns \<and> ns ! ?i = x"
    then show "x \<in> set ns" by (metis nth_mem)
  qed
qed

subsection \<open>The table\<close>

lemma byCommand_step:
  "map_of (foldl (\<lambda>t c. AList.update c m t) t cs) = (\<lambda>c. if c \<in> set cs then Some m else map_of t c)"
  by (induction cs arbitrary: t) (auto simp: update_conv')

lemma map_of_byCommand:
  "map_of (byCommand ms) c = map_option (\<lambda>m. m) (find (\<lambda>m. c \<in> set (module_names m)) (rev ms))"
proof -
  have "map_of (foldl (\<lambda>t m. foldl (\<lambda>t c. AList.update c m t) t (module_names m)) t ms) c =
      (case find (\<lambda>m. c \<in> set (module_names m)) (rev ms) of Some m \<Rightarrow> Some m | None \<Rightarrow> map_of t c)" for t
  proof (induction ms rule: rev_induct)
    case (snoc m ms)
    then show ?case by (simp add: byCommand_step)
  qed simp
  then show ?thesis by (simp add: byCommand_def option.case_eq_if map_option_case)
qed

lemma distinct_byCommand: "distinct (map fst (byCommand ms))"
proof -
  have inner: "distinct (map fst t) \<Longrightarrow> distinct (map fst (foldl (\<lambda>t c. AList.update c m t) t cs))"
    for t cs and m :: module
    by (induction cs arbitrary: t) (simp_all add: distinct_update)
  have "distinct (map fst t) \<Longrightarrow>
      distinct (map fst (foldl (\<lambda>t m. foldl (\<lambda>t c. AList.update c m t) t (module_names m)) t ms))" for t
    by (induction ms arbitrary: t) (simp_all add: inner)
  then show ?thesis by (simp add: byCommand_def)
qed

lemma Commands_sorted: "sorted (Commands art)" "distinct (Commands art)"
  using distinct_byCommand by (simp_all add: Commands_def)

lemma Commands_Lookup: "c \<in> set (Commands art) \<longleftrightarrow> Lookup art c \<noteq> None"
  by (simp add: Commands_def Lookup_def map_of_eq_None_iff)

lemma Lookup_Modules:
  assumes "Lookup art c = Some m"
  shows "m \<in> set (Modules art)" "c \<in> set (module_names m)"
proof -
  have "find (\<lambda>m. c \<in> set (module_names m)) (rev (Modules art)) = Some m"
    using assms unfolding Lookup_def map_of_byCommand by (simp add: option.map_ident)
  from find_SomeD [OF this] show "m \<in> set (Modules art)" "c \<in> set (module_names m)" by auto
qed

subsection \<open>Directories in pages\<close>

definition command_entries :: "(string \<Rightarrow> byte list) \<Rightarrow> commandFile \<Rightarrow> fileInfo list" where
  "command_entries art f =
     map (\<lambda>name. ci_info \<lparr>ci_name = name, ci_module = Lookup art name\<rparr>) (drop (cf_offset f) (cf_names f))"

definition command_dir_ok :: "commandFile \<Rightarrow> bool" where
  "command_dir_ok f = (\<not> cf_closed f \<and> ci_IsDir (cf_info f) \<and> cf_offset f \<le> length (cf_names f))"

interpretation command_dir: pager command_dir_ok "command_entries art" "cf_ReadDir art" for art
proof (unfold_locales, goal_cases page eof whole)
  case (page f n)
  then have "cf_offset f < length (cf_names f)" by (simp add: command_entries_def)
  then show ?case
    using page by (auto simp: cf_ReadDir_def command_dir_ok_def command_entries_def Let_def take_map
        drop_map add.commute)
next
  case (eof f n)
  then show ?case by (simp add: cf_ReadDir_def command_dir_ok_def command_entries_def)
next
  case (whole f n)
  then show ?case by (simp add: cf_ReadDir_def command_dir_ok_def command_entries_def)
qed

end
