(* ===== verification/CommandClaims.thy ===== *)
theory CommandClaims
  imports CommandFS NamespaceMounts
begin

unbundle bit_operations_syntax

text \<open>The properties of the module table and of the command filesystem.\<close>

section \<open>The module table\<close>

lemma module_names_distinct: "distinct (concat (map module_names (Modules art)))"
  by code_simp

lemma module_names_valid: "list_all valid_path (concat (map module_names (Modules art)))"
  by code_simp

lemma distinct_concat_owner:
  "distinct (concat xss) \<Longrightarrow> i < length xss \<Longrightarrow> j < length xss \<Longrightarrow> c \<in> set (xss ! i) \<Longrightarrow> c \<in> set (xss ! j) \<Longrightarrow> i = j"
proof (induction xss arbitrary: i j)
  case (Cons xs xss)
  have "c \<in> set xs \<Longrightarrow> k < length xss \<Longrightarrow> c \<notin> set (xss ! k)" for k
    using Cons.prems(1) nth_mem by fastforce
  with Cons show ?case by (cases i; cases j) auto
qed simp

lemma Lookup_unique:
  assumes "m \<in> set (Modules art)" "c \<in> set (module_names m)"
  shows "Lookup art c = Some m"
proof -
  let ?ns = "map module_names (Modules art)"
  obtain i where i: "i < length (Modules art)" "Modules art ! i = m" using assms(1) by (auto simp: in_set_conv_nth)
  have "find (\<lambda>m. c \<in> set (module_names m)) (rev (Modules art)) \<noteq> None"
    using assms by (auto simp: find_None_iff)
  then obtain m' where m': "find (\<lambda>m. c \<in> set (module_names m)) (rev (Modules art)) = Some m'" by blast
  from find_SomeD [OF m'] obtain j where j: "j < length (Modules art)" "Modules art ! j = m'" "c \<in> set (module_names m')"
    by (auto simp: in_set_conv_nth)
  have "i = j"
    by (rule distinct_concat_owner [OF module_names_distinct, of i art j c]) (use i j assms(2) in simp_all)
  then show ?thesis using m' i j by (simp add: Lookup_def map_of_byCommand option.map_ident)
qed

lemma Commands_iff: "c \<in> set (Commands art) \<longleftrightarrow> (\<exists>m \<in> set (Modules art). c \<in> set (module_names m))"
proof
  assume "c \<in> set (Commands art)"
  then obtain m where "Lookup art c = Some m" by (auto simp: Commands_Lookup)
  then show "\<exists>m \<in> set (Modules art). c \<in> set (module_names m)"
    using Lookup_Modules by blast
next
  assume "\<exists>m \<in> set (Modules art). c \<in> set (module_names m)"
  then obtain m where m: "m \<in> set (Modules art)" "c \<in> set (module_names m)" by blast
  then show "c \<in> set (Commands art)" by (simp add: Commands_Lookup Lookup_unique [OF m])
qed

text \<open>Every command name belongs to exactly one embedded module, so the order in which the table
  is filled does not matter; \<open>Lookup\<close> finds that module, \<open>Commands\<close> lists exactly those
  names, sorted and without repetition, and each is a name the filesystem can show.\<close>

theorem commands_unambiguous:
  "(Lookup art c = Some m \<longleftrightarrow> m \<in> set (Modules art) \<and> c \<in> set (module_names m)) \<and>
   (c \<in> set (Commands art) \<longleftrightarrow> (\<exists>m \<in> set (Modules art). c \<in> set (module_names m))) \<and>
   sorted (Commands art) \<and> distinct (Commands art) \<and> list_all valid_path (Commands art)"
proof -
  have l: "Lookup art c = Some m \<longleftrightarrow> m \<in> set (Modules art) \<and> c \<in> set (module_names m)" for c m
    using Lookup_Modules [of art c m] Lookup_unique [of m art c] by blast
  have "valid_path c" if "c \<in> set (Commands art)" for c
    using that Commands_iff [of c art] module_names_valid [of art] by (auto simp: list_all_iff)
  then show ?thesis using l Commands_iff Commands_sorted by (auto simp: list_all_iff)
qed

theorem commands_unambiguous_witness:
  "map_option md_Name (Lookup (\<lambda>_. []) ''cat'') = Some ''coreutils''"
proof -
  let ?m = "hd (Modules (\<lambda>_. []))"
  have "?m \<in> set (Modules (\<lambda>_. []))" by (simp add: Modules_def)
  moreover have "''cat'' \<in> set (module_names ?m)" "md_Name ?m = ''coreutils''" by code_simp+
  ultimately show ?thesis using commands_unambiguous [of "\<lambda>_. []" "''cat''" ?m] by simp
qed

section \<open>The command filesystem\<close>

lemma command_names_sorted: "sorted (command_names art extra)"
  by (simp add: command_names_def)

lemma cfs_Open_found:
  assumes "valid_path name" "name \<noteq> ''.''"
  shows "cfs_Open art (command_names art extra) name =
      (if name \<notin> set (Commands art) \<union> set extra then Inl (PathError ''open'' name ErrNotExist)
       else Inr \<lparr>cf_reader = Some \<lparr>rd_s = (case Lookup art name of None \<Rightarrow> [] | Some md \<Rightarrow> md_Wasm md), rd_i = 0\<rparr>,
                 cf_info = \<lparr>ci_name = name, ci_module = Lookup art name\<rparr>, cf_names = [],
                 cf_offset = 0, cf_closed = False\<rparr>)"
proof -
  let ?ns = "command_names art extra"
  have set: "set ?ns = set (Commands art) \<union> set extra" by (simp add: command_names_def)
  have "(SearchStrings ?ns name = length ?ns \<or> ?ns ! SearchStrings ?ns name \<noteq> name) \<longleftrightarrow> name \<notin> set ?ns"
    using SearchStrings_finds [OF command_names_sorted, of art extra name]
      search_loop_spec [OF command_names_sorted, of 0 "length ?ns" art extra name]
    unfolding SearchStrings_def by fastforce
  then show ?thesis using assms set by (simp add: cfs_Open_def Let_def)
qed

text \<open>C30: The binary search of \<open>Open\<close> finds exactly the registered names: a valid path opens iff it is
  the root, an embedded command or an extra name; the file of a command holds its module's bytes,
  the file of an extra name is empty.\<close>

theorem command_open_exact:
  assumes "valid_path name" "name \<noteq> ''.''"
  shows "(is_ok (cfs_Open art (command_names art extra) name) \<longleftrightarrow>
      name \<in> set (Commands art) \<union> set extra) \<and>
    (\<forall>f. cfs_Open art (command_names art extra) name = Inr f \<longrightarrow>
      fi_name (ci_info (cf_info f)) = name \<and>
      (\<forall>n. fst (fst (cf_Read n f)) =
         take n (case Lookup art name of None \<Rightarrow> [] | Some m \<Rightarrow> md_Wasm m)))"
  using assms(2) unfolding cfs_Open_found [OF assms]
  by (auto simp: cf_Read_def ci_IsDir_def ci_info_def reader_Read_def Let_def)

theorem command_open_exact_witness:
  "is_ok (cfs_Open (\<lambda>_. [0]) (command_names (\<lambda>_. [0]) [''hello'']) ''hello'') \<and>
   \<not> is_ok (cfs_Open (\<lambda>_. [0]) (command_names (\<lambda>_. [0]) [''hello'']) ''helo'')"
proof -
  have v: "valid_path ''hello''" "''hello'' \<noteq> ''.''" "valid_path ''helo''" "''helo'' \<noteq> ''.''"
    "list_all (\<lambda>m. ''helo'' \<notin> set (module_names m)) (Modules (\<lambda>_. [0]))"
    by code_simp+
  then have "''helo'' \<notin> set (Commands (\<lambda>_. [0]))" by (simp add: Commands_iff list_all_iff)
  show ?thesis
    using command_open_exact [OF v(1,2), of "\<lambda>_. [0]" "[''hello'']"]
      command_open_exact [OF v(3,4), of "\<lambda>_. [0]" "[''hello'']"] \<open>''helo'' \<notin> set (Commands (\<lambda>_. [0]))\<close>
    by simp
qed

text \<open>Reading the command directory in pages of any positive size lists every name once, in sorted
  order, and ends with \<open>io.EOF\<close>; reading it at once gives the same list.\<close>

theorem command_paging:
  assumes "cfs_Open art (command_names art extra) ''.'' = Inr f" "0 < n"
    and "length (command_names art extra) < k"
  shows "\<exists>ps. read_pages k (cf_ReadDir art) n f = (ps, Some EOF) \<and>
    map fi_name (concat ps) = command_names art extra \<and>
    fst (cf_ReadDir art 0 f) = Inr (concat ps)"
proof -
  have f: "f = \<lparr>cf_reader = None, cf_info = \<lparr>ci_name = ''.'', ci_module = None\<rparr>,
      cf_names = command_names art extra, cf_offset = 0, cf_closed = False\<rparr>"
    using assms(1) by (auto simp: cfs_Open_def valid_path_def)
  have ok: "command_dir_ok f" by (simp add: command_dir_ok_def f ci_IsDir_def)
  have es: "command_entries art f =
      map (\<lambda>name. ci_info \<lparr>ci_name = name, ci_module = Lookup art name\<rparr>) (command_names art extra)"
    by (simp add: command_entries_def f)
  have len: "length (command_entries art f) < k" using assms(3) es by simp
  from command_dir.pages_complete [OF ok assms(2) len] obtain ps where
    ps: "read_pages k (cf_ReadDir art) n f = (ps, Some EOF)" "concat ps = command_entries art f" by blast
  have "fst (cf_ReadDir art 0 f) = Inr (concat ps)"
    using command_dir.whole_is_pages [OF ok assms(2) len] ps by simp
  moreover have "map fi_name (concat ps) = command_names art extra"
    unfolding ps(2) es by (simp add: ci_info_def comp_def)
  ultimately show ?thesis using ps(1) by blast
qed

theorem command_paging_witness:
  "\<exists>f k ps. cfs_Open (\<lambda>_. []) (command_names (\<lambda>_. []) [''hello'']) ''.'' = Inr f \<and>
     read_pages k (cf_ReadDir (\<lambda>_. [])) 3 f = (ps, Some EOF) \<and>
     map fi_name (concat ps) = command_names (\<lambda>_. []) [''hello'']"
proof -
  let ?ns = "command_names (\<lambda>_. []) [''hello'']"
  obtain f where f: "cfs_Open (\<lambda>_. []) ?ns ''.'' = Inr f" by (simp add: cfs_Open_def valid_path_def)
  have "length ?ns < Suc (length ?ns)" by simp
  from command_paging [OF f _ this, of 3] f show ?thesis by fastforce
qed

section \<open>Mounted\<close>

text \<open>The mounted command filesystem is passive: no call changes what it shows.\<close>

lemma cfs_Open_names: "cfs_Open art names n = Inr f \<Longrightarrow> cf_names f = [] \<or> cf_names f = names"
  by (auto simp: cfs_Open_def Let_def split: if_splits)

interpretation command_mount: passive_fs "command_fs art extra"
    "\<lambda>fs. \<forall>f \<in> set fs. cf_names f = [] \<or> cf_names f = command_names art extra"
    for art extra
proof (unfold_locales, goal_cases Open Stat ReadDir)
  case (Open n fs)
  then show ?case
    using cfs_Open_names [of art "command_names art extra" n]
    by (auto simp: command_fs_def Let_def cfs_mounted_Open_def split: sum.split)
next
  case (Stat n fs)
  have "cf_names (snd (cf_Close f)) = cf_names f" for f by (simp add: cf_Close_def)
  then show ?case
    using cfs_Open_names [of art "command_names art extra" n]
    by (auto simp: command_fs_def Let_def cfs_mounted_Stat_def split: sum.split)
next
  case (ReadDir n fs)
  have "cf_names (snd (cf_Close f)) = cf_names f" "cf_names (snd (cf_ReadDir art k f)) = cf_names f" for f k
    by (simp_all add: cf_Close_def cf_ReadDir_def Let_def)
  then show ?case
    using cfs_Open_names [of art "command_names art extra" n]
    by (auto simp: command_fs_def Let_def cfs_mounted_ReadDir_def case_prod_beta split: sum.split)
qed (simp_all add: command_fs_def Let_def)

end
