(* ===== verification/GoText.thy ===== *)
theory GoText
  imports GoPath
begin

text \<open>
  The parts of Go's \<open>strings\<close> and \<open>strconv\<close> packages the shell uses: decimal numbers,
  replacing, searching.  Strings are lists of bytes, as in the rest of the development.
\<close>

section \<open>Quoting\<close>

text \<open>
  \<open>strconv.Quote\<close>, also the verb \<open>%q\<close> of \<open>fmt\<close>.  Bytes of printable non-ASCII
  characters stay as they are; that Go escapes the unprintable ones is not modelled.
\<close>

definition hex_char :: "nat \<Rightarrow> char" where
  "hex_char d = char_of (if d < 10 then 48 + d else 87 + d)"

definition quote_byte :: "char \<Rightarrow> string" where
  "quote_byte c =
     (if c = CHR 0x22 \<or> c = CHR 0x5C then [CHR 0x5C, c]
      else if c = CHR 0x07 then CHR 0x5C # ''a'' else if c = CHR 0x08 then CHR 0x5C # ''b''
      else if c = CHR 0x0C then CHR 0x5C # ''f'' else if c = CHR 0x0A then CHR 0x5C # ''n''
      else if c = CHR 0x0D then CHR 0x5C # ''r'' else if c = CHR 0x09 then CHR 0x5C # ''t''
      else if c = CHR 0x0B then CHR 0x5C # ''v''
      else if of_char c < (32 :: nat) \<or> c = CHR 0x7F
      then [CHR 0x5C, CHR ''x'', hex_char (of_char c div 16), hex_char (of_char c mod 16)]
      else [c])"

definition go_quote :: "string \<Rightarrow> string" where
  "go_quote s = [CHR 0x22] @ concat (map quote_byte s) @ [CHR 0x22]"

section \<open>Decimal numbers\<close>

definition digit_char :: "nat \<Rightarrow> char" where
  "digit_char d = char_of (48 + d)"

definition is_digit :: "char \<Rightarrow> bool" where
  "is_digit c = (48 \<le> (of_char c :: nat) \<and> (of_char c :: nat) \<le> 57)"

definition digit_val :: "char \<Rightarrow> nat" where
  "digit_val c = of_char c - 48"

fun nat_text :: "nat \<Rightarrow> string" where
  "nat_text n = (if n < 10 then [digit_char n] else nat_text (n div 10) @ [digit_char (n mod 10)])"

declare nat_text.simps [simp del]

text \<open>\<open>strconv.Itoa\<close>.\<close>

definition go_Itoa :: "int \<Rightarrow> string" where
  "go_Itoa i = (if i < 0 then CHR ''-'' # nat_text (nat (- i)) else nat_text (nat i))"

definition digits_val :: "string \<Rightarrow> nat" where
  "digits_val ds = foldl (\<lambda>a c. 10 * a + digit_val c) 0 ds"

text \<open>
  \<open>strconv.Atoi\<close>: an optional sign and decimal digits.  A number outside of \<open>int64\<close> is an
  error that comes with the nearest \<open>int64\<close>, any other error comes with 0.
\<close>

definition go_Atoi :: "string \<Rightarrow> int \<times> goerr option" where
  "go_Atoi s =
     (let neg = (s \<noteq> [] \<and> hd s = CHR ''-'');
          ds = (if s \<noteq> [] \<and> (hd s = CHR ''-'' \<or> hd s = CHR ''+'') then tl s else s)
      in if ds = [] \<or> \<not> list_all is_digit ds
         then (0, Some (ErrText (''strconv.Atoi: parsing '' @ go_quote s @ '': invalid syntax'')))
         else
           let v = (if neg then - int (digits_val ds) else int (digits_val ds))
           in if v < - max_int64 - 1
              then (- max_int64 - 1, Some (ErrText (''strconv.Atoi: parsing '' @ go_quote s @ '': value out of range'')))
              else if max_int64 < v
              then (max_int64, Some (ErrText (''strconv.Atoi: parsing '' @ go_quote s @ '': value out of range'')))
              else (v, None))"

lemma digit_char_simps [simp]:
  "d < 10 \<Longrightarrow> is_digit (digit_char d)"
  "d < 10 \<Longrightarrow> digit_val (digit_char d) = d"
  by (simp_all add: is_digit_def digit_val_def digit_char_def)

lemma nat_text_ne [simp]: "nat_text n \<noteq> []"
  by (subst nat_text.simps) simp

lemma nat_text_digits: "list_all is_digit (nat_text n)"
proof (induction n rule: nat_text.induct)
  case (1 n)
  then show ?case by (subst nat_text.simps) simp
qed

lemma digits_val_snoc: "digits_val (ds @ [c]) = 10 * digits_val ds + digit_val c"
  by (simp add: digits_val_def)

lemma digits_val_nat_text: "digits_val (nat_text n) = n"
proof (induction n rule: nat_text.induct)
  case (1 n)
  show ?case
  proof (cases "n < 10")
    case True
    then show ?thesis by (subst nat_text.simps) (simp add: digits_val_def)
  next
    case False
    then have "digits_val (nat_text n) = 10 * (n div 10) + n mod 10"
      by (subst nat_text.simps) (simp add: digits_val_snoc 1)
    then show ?thesis by simp
  qed
qed

lemma digit_not_sign: "is_digit c \<Longrightarrow> c \<noteq> CHR ''-'' \<and> c \<noteq> CHR ''+''"
  by (auto simp: is_digit_def)

lemma Atoi_Itoa:
  assumes "in_i64 i"
  shows "go_Atoi (go_Itoa i) = (i, None)"
proof -
  have hd: "hd (nat_text n) \<noteq> CHR ''-'' \<and> hd (nat_text n) \<noteq> CHR ''+''" for n
    using nat_text_digits [of n] nat_text_ne [of n] digit_not_sign
    by (cases "nat_text n") auto
  show ?thesis
    using assms hd nat_text_digits
    by (auto simp: go_Atoi_def go_Itoa_def Let_def digits_val_nat_text in_i64_def max_int64_def)
qed

section \<open>Searching and replacing\<close>

text \<open>\<open>strings.IndexByte\<close>, with \<open>None\<close> for a negative result.\<close>

fun index_byte :: "string \<Rightarrow> char \<Rightarrow> nat option" where
  "index_byte [] c = None"
| "index_byte (x # s) c = (if x = c then Some 0 else map_option Suc (index_byte s c))"

lemma index_byte_Some: "index_byte s c = Some k \<Longrightarrow> k < length s"
  by (induction s arbitrary: k) (auto split: if_splits)

lemma index_byte_append: "c \<notin> set s \<Longrightarrow> index_byte (s @ c # t) c = Some (length s)"
  by (induction s) auto

text \<open>\<open>strings.ReplaceAll\<close> for a text to replace that is not empty.\<close>

function replace_all :: "string \<Rightarrow> string \<Rightarrow> string \<Rightarrow> string" where
  "replace_all old new s =
     (if s = [] then []
      else if old \<noteq> [] \<and> has_prefix s old
      then new @ replace_all old new (drop (length old) s)
      else hd s # replace_all old new (tl s))"
  by pat_completeness auto

termination replace_all
  by (relation "measure (\<lambda>(old, new, s). length s)") auto

declare replace_all.simps [simp del]

lemma replace_all_Nil [simp]: "replace_all old new [] = []"
  by (subst replace_all.simps) simp

text \<open>Text without the first byte of what is sought stays; the text itself is replaced.\<close>

lemma replace_all_absent:
  assumes "old = x # xs" "x \<notin> set s"
  shows "replace_all old new (s @ t) = s @ replace_all old new t"
  using assms(2)
proof (induction s)
  case (Cons a s)
  then show ?case using assms(1) by (subst replace_all.simps) auto
qed simp

lemma replace_all_hit:
  assumes "old \<noteq> []"
  shows "replace_all old new (old @ t) = new @ replace_all old new t"
  using assms by (subst replace_all.simps) simp

end
