(* ===== verification/Xargs.thy ===== *)
theory Xargs
  imports GoText
begin

text \<open>
  The pure parts of the builtin \<open>xargs\<close> of \<open>internal/shell/shell.go\<close>: option parsing, the
  splitting of its input into items, the batches of one invocation each, and the argument vector
  of a batch.  What it does with them is in \<open>ShellExec\<close>.
\<close>

section \<open>Splitting the input\<close>

abbreviation (input) backslash :: char where "backslash \<equiv> CHR 0x5C"
abbreviation (input) single_quote :: char where "single_quote \<equiv> CHR 0x27"
abbreviation (input) double_quote :: char where "double_quote \<equiv> CHR 0x22"
abbreviation (input) newline :: char where "newline \<equiv> CHR 0x0A"
abbreviation (input) tab :: char where "tab \<equiv> CHR 0x09"

text \<open>
  The loop of \<open>xargsSplit\<close> over the rest of the input, with the items so far, the current item
  and whether there is one.
\<close>

function split_loop :: "string \<Rightarrow> string list \<Rightarrow> string \<Rightarrow> bool \<Rightarrow> string list res" where
  "split_loop [] items cur inItem = Inr (if inItem then items @ [cur] else items)"
| "split_loop (c # s) items cur inItem =
     (if c = backslash then
        (case s of
           [] \<Rightarrow> Inl (ErrText ''backslash at end of input'')
         | d # t \<Rightarrow> split_loop t items (cur @ [d]) True)
      else if c = single_quote \<or> c = double_quote then
        (case index_byte s c of
           None \<Rightarrow> Inl (ErrText (''unmatched '' @ (if c = double_quote then ''double'' else ''single'') @
                  '' quote; by default quotes are special to xargs unless you use the -0 option''))
         | Some end \<Rightarrow>
             if newline \<in> set (take end s)
             then Inl (ErrText (''unmatched '' @ (if c = double_quote then ''double'' else ''single'') @
                  '' quote; by default quotes are special to xargs unless you use the -0 option''))
             else split_loop (drop (end + 1) s) items (cur @ take end s) True)
      else if c = CHR '' '' \<or> c = tab \<or> c = newline then
        (if inItem then split_loop s (items @ [cur]) [] False
         else split_loop s items cur inItem)
      else split_loop s items (cur @ [c]) True)"
  by pat_completeness auto

termination split_loop
  by (relation "measure (\<lambda>(s, items, cur, inItem). length s)") auto

definition xargsSplit :: "string \<Rightarrow> string list res" where
  "xargsSplit s = split_loop s [] [] False"

section \<open>Options\<close>

record xopts =
  xo_nul :: bool
  xo_skipEmpty :: bool
  xo_trace :: bool
  xo_per :: int
  xo_replace :: string

definition no_xopts :: xopts where
  "no_xopts = \<lparr>xo_nul = False, xo_skipEmpty = False, xo_trace = False, xo_per = 0, xo_replace = []\<rparr>"

text \<open>
  The loop over the arguments: what \<open>fail\<close> reports, or the options and the command that follows
  them.  \<open>opt_value\<close> is the value of \<open>-n\<close> and \<open>-I\<close>, attached or the next argument.
\<close>

definition opt_value :: "string \<Rightarrow> string list \<Rightarrow> string + string \<times> string list" where
  "opt_value a as =
     (if drop 2 a \<noteq> [] then Inr (drop 2 a, as)
      else case as of
        [] \<Rightarrow> Inl (''option requires an argument -- '' @ [single_quote] @ drop 1 (take 2 a) @ [single_quote])
      | v # as' \<Rightarrow> Inr (v, as'))"

lemma opt_value_length: "opt_value a as = Inr b \<Longrightarrow> (v, as') = b \<Longrightarrow> length as' \<le> length as"
  by (auto simp: opt_value_def split: if_splits list.splits)

function xargs_opts :: "xopts \<Rightarrow> string list \<Rightarrow> string + xopts \<times> string list" where
  "xargs_opts x [] = Inr (x, [])"
| "xargs_opts x (a # as) =
     (if \<not> (has_prefix a ''-'' \<and> a \<noteq> ''-'') then Inr (x, a # as)
      else if a = ''--'' then Inr (x, as)
      else if has_prefix a ''--'' then
        (if a = ''--null'' then xargs_opts (x\<lparr>xo_nul := True\<rparr>) as
         else if a = ''--no-run-if-empty'' then xargs_opts (x\<lparr>xo_skipEmpty := True\<rparr>) as
         else if a = ''--verbose'' then xargs_opts (x\<lparr>xo_trace := True\<rparr>) as
         else Inl (''unsupported option '' @ a))
      else if take 2 a = ''-0'' \<and> drop 2 a = [] then xargs_opts (x\<lparr>xo_nul := True\<rparr>) as
      else if take 2 a = ''-r'' \<and> drop 2 a = [] then xargs_opts (x\<lparr>xo_skipEmpty := True\<rparr>) as
      else if take 2 a = ''-t'' \<and> drop 2 a = [] then xargs_opts (x\<lparr>xo_trace := True\<rparr>) as
      else if take 2 a = ''-n'' \<or> take 2 a = ''-I'' then
        (case opt_value a as of
           Inl msg \<Rightarrow> Inl msg
         | Inr (v, as') \<Rightarrow>
             if take 2 a = ''-I'' then xargs_opts (x\<lparr>xo_replace := v, xo_per := 1\<rparr>) as'
             else if snd (go_Atoi v) \<noteq> None \<or> fst (go_Atoi v) \<le> 0
             then Inl ''invalid number for -n option''
             else xargs_opts (x\<lparr>xo_per := fst (go_Atoi v)\<rparr>) as')
      else Inl (''unsupported option '' @ a))"
  by pat_completeness auto

termination xargs_opts
proof (relation "measure (\<lambda>(x, as). length as)", goal_cases)
  case 1
  show ?case by (rule wf_measure)
qed (simp_all only: in_measure prod.case list.size(4) add_0_right add_Suc_right lessI less_Suc_eq_le
    opt_value_length)

text \<open>The command to run: \<open>echo\<close> if the arguments name none.\<close>

definition xargs_cmd :: "string list \<Rightarrow> string list" where
  "xargs_cmd cmd = (if cmd = [] then [''echo''] else cmd)"

section \<open>Items, batches and arguments\<close>

definition trim_left :: "string \<Rightarrow> string" where
  "trim_left s = dropWhile (\<lambda>c. c = CHR '' '' \<or> c = tab) s"

definition xargs_items :: "xopts \<Rightarrow> string \<Rightarrow> string list res" where
  "xargs_items x input =
     (if xo_nul x
      then Inr (if input = [] then [] else go_split (CHR 0x00) (trim_suffix input [CHR 0x00]))
      else if xo_replace x \<noteq> []
      then Inr (filter (\<lambda>l. l \<noteq> []) (map trim_left (go_split newline (trim_suffix input [newline]))))
      else xargsSplit input)"

text \<open>
  The successive values of \<open>batch\<close> in the loop of \<open>xargs\<close>, which runs at least once and as
  long as items are left.
\<close>

definition next_batch :: "int \<Rightarrow> string list \<Rightarrow> string list" where
  "next_batch per items = (if 0 < per \<and> per < int (length items) then take (nat per) items else items)"

function xargs_batches :: "int \<Rightarrow> string list \<Rightarrow> string list list" where
  "xargs_batches per items =
     (let batch = next_batch per items; rest = drop (length batch) items
      in batch # (if rest = [] then [] else xargs_batches per rest))"
  by pat_completeness auto

termination xargs_batches
  by (relation "measure (\<lambda>(per, items). length items)") (auto simp: next_batch_def split: if_splits)

declare xargs_batches.simps [simp del]

definition xargs_argv :: "xopts \<Rightarrow> string list \<Rightarrow> string list \<Rightarrow> string list" where
  "xargs_argv x cmd batch =
     (if xo_replace x \<noteq> []
      then (if length batch = 1 then hd cmd # map (replace_all (xo_replace x) (hd batch)) (tl cmd) else cmd)
      else cmd @ batch)"

section \<open>What the parts compute\<close>

text \<open>
  A text for a list of items: every byte escaped by a backslash, an empty item as a pair of
  quotes, a blank after each.
\<close>

definition quote_item :: "string \<Rightarrow> string" where
  "quote_item s = (if s = [] then [single_quote, single_quote] else concat (map (\<lambda>c. [backslash, c]) s))"

definition quote_items :: "string list \<Rightarrow> string" where
  "quote_items xs = concat (map (\<lambda>s. quote_item s @ '' '') xs)"

lemma split_loop_escaped:
  "split_loop (concat (map (\<lambda>c. [backslash, c]) s) @ t) items cur True = split_loop t items (cur @ s) True"
  by (induction s arbitrary: cur) auto

lemma split_loop_quoted:
  "split_loop (quote_item s @ '' '' @ t) items [] False = split_loop t (items @ [s]) [] False"
  by (cases s) (simp_all add: quote_item_def split_loop_escaped)

lemma split_loop_items: "split_loop (quote_items xs) items [] False = Inr (items @ xs)"
proof (induction xs arbitrary: items)
  case (Cons x xs)
  have "quote_items (x # xs) = quote_item x @ '' '' @ quote_items xs" by (simp add: quote_items_def)
  then show ?case using Cons [of "items @ [x]"] split_loop_quoted [of x "quote_items xs" items] by simp
qed (simp add: quote_items_def)

text \<open>Batches partition the items, in order; only an empty list of items gives an empty batch.\<close>

lemma batches_partition:
  "concat (xargs_batches per items) = items \<and>
   (\<forall>b \<in> set (xargs_batches per items). (items \<noteq> [] \<longrightarrow> b \<noteq> []) \<and> (0 < per \<longrightarrow> int (length b) \<le> per))"
proof (induction per items rule: xargs_batches.induct)
  case (1 per items)
  let ?b = "next_batch per items"
  let ?rest = "drop (length ?b) items"
  have split: "?b @ ?rest = items" by (auto simp: next_batch_def)
  have b: "items \<noteq> [] \<Longrightarrow> ?b \<noteq> []" "0 < per \<Longrightarrow> int (length ?b) \<le> per"
    by (auto simp: next_batch_def)
  show ?case
  proof (cases "?rest = []")
    case True
    then have "xargs_batches per items = [?b]" by (subst xargs_batches.simps) (simp add: Let_def)
    moreover have "?b = items" using split True by simp
    ultimately show ?thesis using b by simp
  next
    case False
    then have e: "xargs_batches per items = ?b # xargs_batches per ?rest"
      by (subst xargs_batches.simps) (simp add: Let_def)
    have "concat (xargs_batches per ?rest) = ?rest \<and>
        (\<forall>b \<in> set (xargs_batches per ?rest). (?rest \<noteq> [] \<longrightarrow> b \<noteq> []) \<and> (0 < per \<longrightarrow> int (length b) \<le> per))"
      by (rule 1) (use False in simp_all)
    then show ?thesis using b split False unfolding e by auto
  qed
qed

end
