(* ===== verification/ShellSyntax.thy ===== *)
theory ShellSyntax
  imports Xargs
begin

text \<open>
  The syntax trees of \<open>mvdan.cc/sh/v3/syntax\<close> as \<open>internal/shell/shell.go\<close> reads them, and
  what the shell does before it executes a script: \<open>Parse\<close> with its visitor,
  \<open>validateRedirect\<close> and \<open>stripHeredocTabs\<close>.

  The parser is not part of the repository: its functions are the fields of a record, an
  argument of the definitions that call them.  A word is a list of literal texts and other parts;
  those, and arithmetic expressions, are opaque and have the type \<open>'x\<close>.
\<close>

section \<open>Syntax trees\<close>

datatype redir_op =
    RdrOut | AppOut | RdrIn | DplIn | DplOut | ClbOut | Hdoc | DashHdoc | WordHdoc | RdrAll | AppAll
  | OtherRedir string

datatype binary_op = AndStmt | OrStmt | Pipe | PipeAll

datatype 'x part = Lit string | OtherPart 'x

type_synonym 'x word = "'x part list"

datatype 'x assign = Assign (as_Name: string) (as_Naked: bool) (as_Append: bool)
  (as_Array: bool) (as_Value: "'x word option")

text \<open>An argument of \<open>export\<close>: an assignment, or (\<open>Name\<close> is \<open>nil\<close>) a word.\<close>

datatype 'x declarg = DeclAssign "'x assign" | DeclWord "'x word"

datatype 'x redirect = Redirect (rd_Op: redir_op) (rd_N: "string option")
  (rd_Word: "'x word") (rd_Hdoc: "'x word")

text \<open>The items of a word loop are absent when there is no \<open>in\<close>.\<close>

datatype 'x loop = WordIter string "'x word list option" | CStyleLoop 'x

text \<open>
  \<open>st_Background\<close> stands for any of the flags \<open>Background\<close>, \<open>Coprocess\<close> and
  \<open>Disown\<close>.  \<open>OtherCmd\<close> is any further kind of command, with the name of its Go type.
\<close>

datatype 'x stmt = Stmt (st_Cmd: "'x cmd option") (st_Redirs: "'x redirect list")
    (st_Negated: bool) (st_Background: bool)
and 'x cmd =
    CallExpr "'x assign list" "'x word list"
  | Block "'x stmt list"
  | Subshell "'x stmt list"
  | BinaryCmd binary_op "'x stmt" "'x stmt"
  | IfClause "'x stmt list" "'x stmt list" "'x cmd option"
  | ForClause bool "'x loop" "'x stmt list"
  | WhileClause bool "'x stmt list" "'x stmt list"
  | FuncDecl "string option" "'x stmt option"
  | DeclClause string "'x declarg list"
  | ArithmCmd 'x
  | OtherCmd string "'x list" "'x stmt list"

section \<open>Redirections\<close>

text \<open>The token of an operator (\<open>RedirOperator.String\<close>).\<close>

fun op_text :: "redir_op \<Rightarrow> string" where
  "op_text RdrOut = ''>''" | "op_text AppOut = ''>>''" | "op_text RdrIn = ''<''"
| "op_text DplIn = ''<&''" | "op_text DplOut = ''>&''" | "op_text ClbOut = ''>|''"
| "op_text Hdoc = ''<<''" | "op_text DashHdoc = ''<<-''" | "op_text WordHdoc = ''<<<''"
| "op_text RdrAll = ''&>''" | "op_text AppAll = ''&>>''" | "op_text (OtherRedir s) = s"

definition validateRedirect :: "redir_op \<Rightarrow> string option \<Rightarrow> goerr option" where
  "validateRedirect rop n =
     (let fd = (case n of None \<Rightarrow> [] | Some v \<Rightarrow> v)
      in if rop \<in> {RdrIn, Hdoc, DashHdoc, WordHdoc} \<and> (fd = [] \<or> fd = ''0'') then None
         else if rop \<in> {RdrOut, AppOut, ClbOut, DplOut} \<and> (fd = [] \<or> fd = ''1'' \<or> fd = ''2'') then None
         else if rop \<in> {RdrAll, AppAll} \<and> fd = [] then None
         else Some (ErrText (''unsupported redirection: '' @ fd @ op_text rop)))"

text \<open>
  \<open>stripHeredocTabs\<close>: \<open>start\<close> says whether the next byte begins a line.  Go reads the
  literal by runes; on valid UTF-8, which is all the parser accepts, that is byte by byte here, as
  tab and newline are bytes of their own.
\<close>

fun strip_lit :: "bool \<Rightarrow> string \<Rightarrow> string \<times> bool" where
  "strip_lit start [] = ([], start)"
| "strip_lit start (c # s) =
     (if start \<and> c = tab then strip_lit start s
      else let (t, b) = strip_lit (c = newline) s in (c # t, b))"

fun strip_parts :: "bool \<Rightarrow> 'x part list \<Rightarrow> 'x part list" where
  "strip_parts start [] = []"
| "strip_parts start (Lit s # ps) = (let (t, b) = strip_lit start s in Lit t # strip_parts b ps)"
| "strip_parts start (OtherPart x # ps) = OtherPart x # strip_parts False ps"

definition stripHeredocTabs :: "'x word \<Rightarrow> 'x word" where
  "stripHeredocTabs w = strip_parts True w"

section \<open>Parsing\<close>

text \<open>
  What the visitor of \<open>Parse\<close> tells apart in a node of the tree, and the calls it gets from
  \<open>syntax.Walk\<close>: one with each node, and one with \<open>nil\<close> after the children of a node.
\<close>

datatype syn_node =
    NStmt bool
  | NProcSubst
  | NAssign bool
  | NFuncDecl bool
  | NForClause bool bool
  | NDeclClause string
  | NUnsupported string
  | NRedirect redir_op "string option"
  | NOther

datatype event = Enter syn_node | Leave

fun visit_node :: "syn_node \<Rightarrow> goerr option" where
  "visit_node (NStmt background) =
     (if background then Some (ErrText ''background jobs are not supported'') else None)"
| "visit_node NProcSubst = Some (ErrText ''process substitution is not supported'')"
| "visit_node (NAssign array) =
     (if array then Some (ErrText ''array assignments are not supported'') else None)"
| "visit_node (NFuncDecl valid_decl) =
     (if valid_decl then None else Some (ErrText ''invalid function declaration''))"
| "visit_node (NForClause select word_iter) =
     (if \<not> word_iter then Some (ErrText ''C-style for loops are not supported'')
      else if select then Some (ErrText ''select is not supported'') else None)"
| "visit_node (NDeclClause variant) =
     (if variant \<noteq> ''export'' then Some (ErrText (variant @ '' is not supported'')) else None)"
| "visit_node (NUnsupported kind) = Some (ErrText (''unsupported shell construct '' @ kind))"
| "visit_node (NRedirect rop n) = validateRedirect rop n"
| "visit_node NOther = None"

text \<open>The closure's variables: \<open>e\<close>, \<open>depth\<close> and \<open>count\<close>.\<close>

fun visit :: "goerr option \<times> int \<times> int \<Rightarrow> event \<Rightarrow> goerr option \<times> int \<times> int" where
  "visit (Some e, depth, n) ev = (Some e, depth, n)"
| "visit (None, depth, n) Leave = (None, depth - 1, n)"
| "visit (None, depth, n) (Enter nd) =
     (if 128 < depth + 1 \<or> 20000 < n + 1 then (Some ErrLimit, depth + 1, n + 1)
      else (visit_node nd, depth + 1, n + 1))"

text \<open>The functions of the parser package.\<close>

record 'x parser =
  pa_Parse :: "string \<Rightarrow> 'x stmt list res"
  pa_Walk :: "'x stmt list \<Rightarrow> event list"
  pa_ValidName :: "string \<Rightarrow> bool"

definition MaxScript :: nat where
  "MaxScript = 1048576"

definition maxExpansion :: nat where
  "maxExpansion = 1048576"

definition Parse :: "('x, 'b) parser_scheme \<Rightarrow> string \<Rightarrow> 'x stmt list res" where
  "Parse P src =
     (if MaxScript < length src then Inl ErrLimit
      else case pa_Parse P src of
        Inl e \<Rightarrow> Inl e
      | Inr f \<Rightarrow> (case foldl visit (None, 0, 0) (pa_Walk P f) of
                   (Some e, _, _) \<Rightarrow> Inl e
                 | (None, _, _) \<Rightarrow> Inr f))"

section \<open>What the checks guarantee\<close>

text \<open>A script that passes has had every node accepted, within the two limits.\<close>

lemma foldl_visit_Some: "foldl visit (Some e, d, n) evs = (Some e, d, n)"
  by (induction evs) auto

definition enters :: "event list \<Rightarrow> syn_node list" where
  "enters evs = concat (map (\<lambda>ev. case ev of Enter nd \<Rightarrow> [nd] | Leave \<Rightarrow> []) evs)"

lemma foldl_visit_None:
  assumes "foldl visit (None, d, n) evs = (None, d', n')"
  shows "(\<forall>nd \<in> set (enters evs). visit_node nd = None) \<and> n' = n + int (length (enters evs)) \<and>
    (n \<le> 20000 \<longrightarrow> n' \<le> 20000)"
  using assms
proof (induction evs arbitrary: d n)
  case (Cons ev evs)
  show ?case
  proof (cases ev)
    case (Enter nd)
    show ?thesis
    proof (cases "128 < d + 1 \<or> 20000 < n + 1")
      case True
      then show ?thesis using Cons.prems Enter by (simp add: foldl_visit_Some)
    next
      case False
      then have "foldl visit (visit_node nd, d + 1, n + 1) evs = (None, d', n')"
        using Cons.prems Enter by (simp split: if_splits)
      moreover from this have v: "visit_node nd = None"
        by (cases "visit_node nd") (simp_all add: foldl_visit_Some)
      ultimately show ?thesis using Cons.IH [of "d + 1" "n + 1"] Enter False by (auto simp: enters_def)
    qed
  next
    case Leave
    then show ?thesis using Cons by (auto simp: enters_def)
  qed
qed (simp add: enters_def)

lemma Parse_accepts:
  assumes "Parse P src = Inr f"
  shows "length src \<le> MaxScript \<and> pa_Parse P src = Inr f \<and>
    length (enters (pa_Walk P f)) \<le> 20000 \<and> (\<forall>nd \<in> set (enters (pa_Walk P f)). visit_node nd = None)"
proof -
  obtain d n where v: "foldl visit (None, 0, 0) (pa_Walk P f) = (None, d, n)"
    using assms by (auto simp: Parse_def split: if_splits sum.splits option.splits prod.splits)
  show ?thesis using assms foldl_visit_None [OF v]
    by (auto simp: Parse_def split: if_splits sum.splits option.splits prod.splits)
qed

text \<open>Tabs are stripped line by line.\<close>

lemma strip_lit_line:
  "newline \<notin> set s \<Longrightarrow> fst (strip_lit b s) = (if b then dropWhile (\<lambda>c. c = tab) s else s)"
  by (induction b s rule: strip_lit.induct) (auto simp: case_prod_beta Let_def)

lemma strip_lit_newline:
  "newline \<notin> set s \<Longrightarrow>
   fst (strip_lit b (s @ newline # t)) =
     (if b then dropWhile (\<lambda>c. c = tab) s else s) @ newline # fst (strip_lit True t)"
  by (induction b s rule: strip_lit.induct) (auto simp: case_prod_beta Let_def)

lemma strip_lit_lines:
  "list_all (\<lambda>l. newline \<notin> set l) ls \<Longrightarrow> ls \<noteq> [] \<Longrightarrow>
   fst (strip_lit True (go_join [newline] ls)) = go_join [newline] (map (dropWhile (\<lambda>c. c = tab)) ls)"
proof (induction ls rule: induct_list012)
  case (3 x y zs)
  then show ?case by (simp add: strip_lit_newline)
qed (simp_all add: strip_lit_line)

end
