(* ===== verification/ShellState.thy ===== *)
theory ShellState
  imports ShellSyntax "HOL-Library.AList" Namespace
begin

text \<open>
  The state of a shell in \<open>internal/shell/shell.go\<close>: its variables, functions, positional
  parameters, working directory and the depth of nesting.  A function's body is an option, as a
  pointer is.  A Go map is an association list with
  distinct keys, as in \<open>Memory\<close>.  The filesystem and the command handler of the Go struct are
  shared by all shells of a run; they belong to the world the shell acts on (\<open>ShellProc\<close>).
\<close>

section \<open>Variables\<close>

text \<open>
  \<open>expand.Variable\<close>: the fields the repository reads or sets.  \<open>IsSet\<close> is the field
  \<open>Set\<close>; how \<open>String\<close> reads a variable that is no plain string is up to the library.
\<close>

datatype vkind = KString | KIndexed | KOther nat

record variable =
  v_Set :: bool
  v_Kind :: vkind
  v_Str :: string
  v_List :: "string list"
  v_Exported :: bool

definition zero_variable :: variable where
  "zero_variable = \<lparr>v_Set = False, v_Kind = KOther 0, v_Str = [], v_List = [], v_Exported = False\<rparr>"

definition variable_of :: "string \<Rightarrow> bool \<Rightarrow> variable" where
  "variable_of v exported = \<lparr>v_Set = True, v_Kind = KString, v_Str = v, v_List = [], v_Exported = exported\<rparr>"

type_synonym variables = "(string \<times> variable) list"

definition vars_Get :: "variables \<Rightarrow> string \<Rightarrow> variable" where
  "vars_Get vs k = (case map_of vs k of Some v \<Rightarrow> v | None \<Rightarrow> zero_variable)"

definition max_vars :: nat where
  "max_vars = 10000"

definition vars_Set :: "variables \<Rightarrow> string \<Rightarrow> variable \<Rightarrow> goerr option \<times> variables" where
  "vars_Set vs k v =
     (if maxExpansion < length (v_Str v) \<or> max_vars < length vs then (Some ErrLimit, vs)
      else (None, AList.update k (v\<lparr>v_Exported := v_Exported v \<or> v_Exported (vars_Get vs k)\<rparr>) vs))"

section \<open>Shells\<close>

record 'x shell =
  sh_Cwd :: string
  sh_Exited :: bool
  sh_vars :: variables
  sh_funcs :: "(string \<times> 'x stmt option) list"
  sh_status :: int
  sh_subStatus :: int
  sh_args :: "string list"
  sh_depth :: nat

text \<open>
  Names reserved by the shell.  \<open>New\<close> sets the default variables, those of \<open>env\<close> and then
  \<open>PWD\<close>.
\<close>

definition IsBuiltin :: "string \<Rightarrow> bool" where
  "IsBuiltin name =
     (name \<in> {'':'', ''true'', ''false'', ''cd'', ''pwd'', ''export'', ''unset'', ''exit'', ''return'',
              ''break'', ''continue'', ''bash'', ''sh'', ''xargs''})"

definition set_exported :: "(string \<times> string) list \<Rightarrow> variables \<Rightarrow> variables" where
  "set_exported env vs = foldl (\<lambda>vs (k, v). AList.update k (variable_of v True) vs) vs env"

definition NewShell :: "string \<Rightarrow> (string \<times> string) list \<Rightarrow> 'x shell" where
  "NewShell cwd env =
     \<lparr>sh_Cwd = cwd, sh_Exited = False,
      sh_vars = AList.update ''PWD'' (variable_of cwd True)
        (set_exported env
          (set_exported [(''HOME'', ''/work''), (''PATH'', ''/usr/bin:/bin''), (''TMPDIR'', ''/tmp''),
            (''LC_ALL'', ''C''), (''TZ'', ''UTC'')] [])),
      sh_funcs = [], sh_status = 0, sh_subStatus = 0, sh_args = [], sh_depth = 0\<rparr>"

text \<open>
  \<open>clone\<close> copies the maps and the arguments, so that the copy can change without the
  original: a HOL value is its own copy.
\<close>

definition sh_clone :: "'x shell \<Rightarrow> 'x shell" where
  "sh_clone s = s\<lparr>sh_vars := sh_vars s, sh_funcs := sh_funcs s, sh_args := sh_args s\<rparr>"

text \<open>The exported variables, for a command; \<open>str\<close> is \<open>expand.Variable.String\<close>.\<close>

definition sh_exported :: "(variable \<Rightarrow> string) \<Rightarrow> 'x shell \<Rightarrow> (string \<times> string) list" where
  "sh_exported str s =
     map (\<lambda>(k, v). (k, str v)) (filter (\<lambda>(k, v). v_Exported v \<and> v_Set v) (sh_vars s))"

text \<open>
  \<open>environment.Get\<close> and \<open>globEnvironment.Get\<close>: the special parameters, positional
  parameters and variables.
\<close>

definition env_Get :: "'x shell \<Rightarrow> string \<Rightarrow> variable" where
  "env_Get s k =
     (if k = ''?'' then variable_of (go_Itoa (sh_status s)) False
      else if k = ''#'' then variable_of (go_Itoa (int (length (sh_args s)))) False
      else if k = ''@'' \<or> k = ''*'' then
        \<lparr>v_Set = True, v_Kind = KIndexed, v_Str = [], v_List = sh_args s, v_Exported = False\<rparr>
      else if k = ''$'' \<or> k = ''PPID'' then variable_of ''1'' False
      else if k = ''0'' then
        (if v_Set (vars_Get (sh_vars s) k) then vars_Get (sh_vars s) k else variable_of ''shale'' False)
      else if has_prefix k ''HOME '' then variable_of (''~'' @ trim_prefix k ''HOME '') False
      else if snd (go_Atoi k) = None \<and> 0 < fst (go_Atoi k) \<and> fst (go_Atoi k) \<le> int (length (sh_args s))
      then variable_of (sh_args s ! nat (fst (go_Atoi k) - 1)) False
      else vars_Get (sh_vars s) k)"

definition glob_Get :: "'x shell \<Rightarrow> string \<Rightarrow> variable" where
  "glob_Get s k = (if k = ''PWD'' then variable_of (sh_Cwd s) True else env_Get s k)"

definition env_Set :: "'x shell \<Rightarrow> string \<Rightarrow> variable \<Rightarrow> goerr option \<times> 'x shell" where
  "env_Set s k v = (let (e, vs) = vars_Set (sh_vars s) k v in (e, s\<lparr>sh_vars := vs\<rparr>))"

section \<open>Facts about variables\<close>

text \<open>A name keeps its export mark whatever is assigned to it; other names are left alone.\<close>

lemma vars_Set_lookup:
  "vars_Set vs k v = (None, vs') \<Longrightarrow>
   map_of vs' x = (if x = k then Some (v\<lparr>v_Exported := v_Exported v \<or> v_Exported (vars_Get vs k)\<rparr>)
                   else map_of vs x)"
  by (auto simp: vars_Set_def update_conv' split: if_splits)

lemma vars_Set_error: "vars_Set vs k v = (Some e, vs') \<Longrightarrow> vs' = vs \<and> e = ErrLimit"
  by (auto simp: vars_Set_def split: if_splits)

lemma vars_Set_distinct: "distinct (map fst vs) \<Longrightarrow> distinct (map fst (snd (vars_Set vs k v)))"
  by (simp add: vars_Set_def distinct_update)

lemma length_alist_update: "length (AList.update k v vs) \<le> Suc (length vs)"
  by (induction vs) auto

lemma vars_Set_length: "length vs \<le> Suc max_vars \<Longrightarrow> length (snd (vars_Set vs k v)) \<le> Suc max_vars"
proof (cases "max_vars < length vs")
  case False
  then show ?thesis
    using le_trans [OF length_alist_update, of vs max_vars] by (simp add: vars_Set_def le_trans [OF length_alist_update])
qed (simp add: vars_Set_def)

lemma env_Set_simps [simp]:
  "sh_args (snd (env_Set s k v)) = sh_args s" "sh_depth (snd (env_Set s k v)) = sh_depth s"
  "sh_funcs (snd (env_Set s k v)) = sh_funcs s" "sh_Cwd (snd (env_Set s k v)) = sh_Cwd s"
  "sh_Exited (snd (env_Set s k v)) = sh_Exited s"
  by (simp_all add: env_Set_def case_prod_beta Let_def)

lemma clone_eq [simp]: "sh_clone s = s"
  by (simp add: sh_clone_def)

end
