(* ===== verification/ShellProc.thy ===== *)
theory ShellProc
  imports ShellState
begin

text \<open>
  What a running shell does to the world around it.  The interpreter is a value of type
  \<open>'x proc\<close>: a tree whose nodes are the calls that leave the shell (a step of the run's
  counter, a call on the namespace, on an open file, a pipe, the command handler), each with a
  continuation for every answer the world may give, and whose \<open>PPar\<close> nodes are the two
  goroutines of a pipeline.  Everything proved about a tree holds for all answers, that is for
  every filesystem, every command and every interleaving of the stages of pipelines.

  The word expansion library \<open>mvdan.cc/sh/v3/expand\<close> is not part of the repository.  It
  reaches the shell only through the callbacks of its \<open>Config\<close>, so a call of it is a tree of
  those callbacks (\<open>expansion\<close>); which tree is an argument of the model.
\<close>

section \<open>Streams and outcomes\<close>

text \<open>
  A reader, writer or open file is a reference to an object of the world, except for the
  stateless \<open>closedWriter\<close>.
\<close>

datatype obj = Obj nat | ClosedWriter

record streams =
  io_In :: obj
  io_Out :: obj
  io_Err :: obj
  io_InSet :: bool

text \<open>
  What a call of the interpreter ends with: the two results and the shell; a Go panic (a nil
  pointer or a failed type assertion); or the end of the fuel that bounds the recursion of the
  model, which \<open>ShellRun\<close> shows is never reached.
\<close>

datatype 'x outcome = Done int "goerr option" "'x shell" | Panicked | OutOfFuel

section \<open>Processes\<close>

datatype 'x proc =
    PRet "'x outcome"
  | PStep "goerr option \<Rightarrow> 'x proc"
  | PCtxErr "goerr option \<Rightarrow> 'x proc"
  | PStat string "fileInfo res \<Rightarrow> 'x proc"
  | PReadDir string "fileInfo list \<times> goerr option \<Rightarrow> 'x proc"
  | POpen string oflag filemode "(obj \<times> bool) res \<Rightarrow> 'x proc"
  | PWrite obj string "goerr option \<Rightarrow> 'x proc"
  | PClose obj "goerr option \<Rightarrow> 'x proc"
  | PReadAll obj nat "string \<times> goerr option \<Rightarrow> 'x proc"
  | PReader string "obj \<Rightarrow> 'x proc"
  | PBounded nat "obj \<Rightarrow> 'x proc"
  | PBoundedResult obj "string \<times> goerr option \<Rightarrow> 'x proc"
  | PPipe "obj \<times> obj \<Rightarrow> 'x proc"
  | PClosePipe obj "goerr option" "'x proc"
  | PExec string "string list" "(string \<times> string) list" streams "int \<times> goerr option \<Rightarrow> 'x proc"
  | PPar "'x proc" "'x proc" "(int \<times> goerr option) \<times> (int \<times> goerr option) \<Rightarrow> 'x proc"

text \<open>Sequencing: a panic, or the end of the fuel, ends everything.\<close>

primrec pbind :: "'x proc \<Rightarrow> (int \<Rightarrow> goerr option \<Rightarrow> 'x shell \<Rightarrow> 'x proc) \<Rightarrow> 'x proc" where
  "pbind (PRet r) k = (case r of Done c e s \<Rightarrow> k c e s | Panicked \<Rightarrow> PRet Panicked | OutOfFuel \<Rightarrow> PRet OutOfFuel)"
| "pbind (PStep f) k = PStep (\<lambda>a. pbind (f a) k)"
| "pbind (PCtxErr f) k = PCtxErr (\<lambda>a. pbind (f a) k)"
| "pbind (PStat n f) k = PStat n (\<lambda>a. pbind (f a) k)"
| "pbind (PReadDir n f) k = PReadDir n (\<lambda>a. pbind (f a) k)"
| "pbind (POpen n fl pm f) k = POpen n fl pm (\<lambda>a. pbind (f a) k)"
| "pbind (PWrite h t f) k = PWrite h t (\<lambda>a. pbind (f a) k)"
| "pbind (PClose h f) k = PClose h (\<lambda>a. pbind (f a) k)"
| "pbind (PReadAll h n f) k = PReadAll h n (\<lambda>a. pbind (f a) k)"
| "pbind (PReader t f) k = PReader t (\<lambda>a. pbind (f a) k)"
| "pbind (PBounded n f) k = PBounded n (\<lambda>a. pbind (f a) k)"
| "pbind (PBoundedResult h f) k = PBoundedResult h (\<lambda>a. pbind (f a) k)"
| "pbind (PPipe f) k = PPipe (\<lambda>a. pbind (f a) k)"
| "pbind (PClosePipe h e p) k = PClosePipe h e (pbind p k)"
| "pbind (PExec cwd args env io f) k = PExec cwd args env io (\<lambda>a. pbind (f a) k)"
| "pbind (PPar p q f) k = PPar p q (\<lambda>a. pbind (f a) k)"

lemma open_answers: "(\<And>e. P (f (Inl e))) \<Longrightarrow> (\<And>h w. P (f (Inr (h, w)))) \<Longrightarrow> P (f a)"
  by (cases a) auto

abbreviation done_with :: "int \<Rightarrow> goerr option \<Rightarrow> 'x shell \<Rightarrow> 'x proc" where
  "done_with c e s \<equiv> PRet (Done c e s)"

section \<open>Word expansion\<close>

datatype ('x, 'r) expansion =
    Value 'r
  | Raise goerr
  | Yield string "('x, 'r) expansion"
  | GetVar string "variable \<Rightarrow> ('x, 'r) expansion"
  | SetVar string variable "goerr option \<Rightarrow> ('x, 'r) expansion"
  | EachVar "variables \<Rightarrow> ('x, 'r) expansion"
  | ListDir string "fileInfo list \<times> goerr option \<Rightarrow> ('x, 'r) expansion"
  | CmdSubst "'x stmt list" "string \<times> goerr option \<Rightarrow> ('x, 'r) expansion"

text \<open>
  The functions of the library, with those of the parser.  \<open>FieldsSeq\<close> first computes what it
  captures eagerly and returns a sequence, whose fields it yields.
\<close>

record 'x library = "'x parser" +
  ex_FieldsSeq :: "'x word list \<Rightarrow> ('x, ('x, unit) expansion) expansion"
  ex_Literal :: "'x word option \<Rightarrow> ('x, string) expansion"
  ex_Document :: "'x word \<Rightarrow> ('x, string) expansion"
  ex_Arithm :: "'x \<Rightarrow> ('x, int) expansion"
  ex_String :: "variable \<Rightarrow> string"

text \<open>
  \<open>errors.As(err, &control)\<close> for the type \<open>flow\<close>.
\<close>

fun as_flow :: "goerr \<Rightarrow> (string \<times> int) option" where
  "as_flow (Flow kind code) = Some (kind, code)"
| "as_flow (PathError a p e) = as_flow e"
| "as_flow (Wrapped m e) = as_flow e"
| "as_flow e = None"

definition flow_kind :: "goerr option \<Rightarrow> string option" where
  "flow_kind e = (case e of None \<Rightarrow> None | Some err \<Rightarrow> map_option fst (as_flow err))"

text \<open>An error that only says \<open>exit\<close> (and is dropped where the shell that ends is not this one).\<close>

definition drop_flow :: "string \<Rightarrow> goerr option \<Rightarrow> goerr option" where
  "drop_flow kind e = (if flow_kind e = Some kind then None else e)"

text \<open>\<open>boundedWriter\<close>, the output of a command substitution: all of \<open>p\<close> is written or nothing.\<close>

record boundedWriter =
  bw_w :: string
  bw_left :: int
  bw_err :: "goerr option"

definition bw_Write :: "boundedWriter \<Rightarrow> string \<Rightarrow> (int \<times> goerr option) \<times> boundedWriter" where
  "bw_Write w p =
     (if bw_left w < int (length p) then ((0, Some ErrLimit), w\<lparr>bw_err := Some ErrLimit\<rparr>)
      else ((int (length p), None), w\<lparr>bw_w := bw_w w @ p, bw_left := bw_left w - int (length p)\<rparr>))"

text \<open>The two callbacks of \<open>config\<close>.  \<open>run\<close> is how statements are executed.\<close>

definition max_entries :: nat where
  "max_entries = 10000"

definition config_ReadDir2 ::
  "string \<Rightarrow> 'x shell \<Rightarrow> (fileInfo list \<times> goerr option \<Rightarrow> 'x proc) \<Rightarrow> 'x proc" where
  "config_ReadDir2 p s k =
     PStep (\<lambda>e. case e of
       Some err \<Rightarrow> k ([], Some err)
     | None \<Rightarrow> PReadDir (Resolve (sh_Cwd s) p) (\<lambda>(entries, e).
         if max_entries < length entries then k ([], Some ErrLimit) else k (entries, e)))"

definition max_depth :: nat where
  "max_depth = 64"

type_synonym 'x runner = "'x stmt list \<Rightarrow> streams \<Rightarrow> 'x shell \<Rightarrow> 'x proc"

definition config_CmdSubst ::
  "'x runner \<Rightarrow> 'x stmt list \<Rightarrow> streams \<Rightarrow> 'x shell \<Rightarrow>
   (string \<times> goerr option \<Rightarrow> 'x shell \<Rightarrow> 'x proc) \<Rightarrow> 'x proc" where
  "config_CmdSubst run stmts io s k =
     (if max_depth \<le> sh_depth s then k ([], Some ErrLimit) s
      else
        let child = (sh_clone s)\<lparr>sh_depth := sh_depth s + 1\<rparr>
        in PBounded maxExpansion (\<lambda>out.
          pbind (run stmts (io\<lparr>io_Out := out\<rparr>) child) (\<lambda>code e child'.
            PBoundedResult out (\<lambda>(text, werr).
              k (text, if werr \<noteq> None then werr else drop_flow ''exit'' e)
                (s\<lparr>sh_subStatus := code\<rparr>)))))"

text \<open>
  Running an expansion: its callbacks act on the shell; \<open>emit\<close> takes the fields it yields and
  may stop it with an error.
\<close>

primrec run_exp ::
  "'x runner \<Rightarrow> streams \<Rightarrow> bool \<Rightarrow> (string \<Rightarrow> 'a \<Rightarrow> ('a res \<Rightarrow> 'x proc) \<Rightarrow> 'x proc) \<Rightarrow>
   ('x, 'r) expansion \<Rightarrow> 'a \<Rightarrow> 'x shell \<Rightarrow> ('r res \<Rightarrow> 'a \<Rightarrow> 'x shell \<Rightarrow> 'x proc) \<Rightarrow> 'x proc" where
  "run_exp run io glob emit (Value r) a s k = k (Inr r) a s"
| "run_exp run io glob emit (Raise e) a s k = k (Inl e) a s"
| "run_exp run io glob emit (Yield f t) a s k =
     emit f a (\<lambda>r. case r of Inl e \<Rightarrow> k (Inl e) a s | Inr a' \<Rightarrow> run_exp run io glob emit t a' s k)"
| "run_exp run io glob emit (GetVar x f) a s k =
     run_exp run io glob emit (f (if glob then glob_Get s x else env_Get s x)) a s k"
| "run_exp run io glob emit (SetVar x v f) a s k =
     (let (e, s') = env_Set s x v in run_exp run io glob emit (f e) a s' k)"
| "run_exp run io glob emit (EachVar f) a s k = run_exp run io glob emit (f (sh_vars s)) a s k"
| "run_exp run io glob emit (ListDir p f) a s k =
     config_ReadDir2 p s (\<lambda>r. run_exp run io glob emit (f r) a s k)"
| "run_exp run io glob emit (CmdSubst stmts f) a s k =
     config_CmdSubst run stmts io s (\<lambda>r s'. run_exp run io glob emit (f r) a s' k)"

text \<open>\<open>Literal\<close>, \<open>Document\<close> and \<open>Arithm\<close> return one value.\<close>

definition run_one ::
  "'x runner \<Rightarrow> streams \<Rightarrow> ('x, 'r) expansion \<Rightarrow> 'x shell \<Rightarrow> ('r res \<Rightarrow> 'x shell \<Rightarrow> 'x proc) \<Rightarrow> 'x proc" where
  "run_one run io t s k = run_exp run io False (\<lambda>f a c. c (Inr a)) t () s (\<lambda>r a s'. k r s')"

text \<open>The loop of \<open>fields\<close> over the sequence, with the fields so far and their size.\<close>

definition max_fields :: nat where
  "max_fields = 10000"

definition take_field ::
  "string \<Rightarrow> string list \<times> nat \<Rightarrow> ((string list \<times> nat) res \<Rightarrow> 'x proc) \<Rightarrow> 'x proc" where
  "take_field f a k =
     PCtxErr (\<lambda>e. case e of
       Some err \<Rightarrow> k (Inl err)
     | None \<Rightarrow>
         let (fs, sz) = a; sz' = sz + length f
         in if max_fields \<le> length fs \<or> maxExpansion < sz' then k (Inl ErrLimit)
            else k (Inr (fs @ [f], sz')))"

definition sh_fields ::
  "'x library \<Rightarrow> 'x runner \<Rightarrow> 'x word list \<Rightarrow> streams \<Rightarrow> 'x shell \<Rightarrow>
   (string list res \<Rightarrow> 'x shell \<Rightarrow> 'x proc) \<Rightarrow> 'x proc" where
  "sh_fields L run ws io s k =
     run_exp run io True (\<lambda>f a c. c (Inr a)) (ex_FieldsSeq L ws) () s (\<lambda>r a s1.
       case r of
         Inl e \<Rightarrow> k (Inl e) s1
       | Inr sq \<Rightarrow>
           run_exp run io False take_field sq ([], 0) s1 (\<lambda>r a s2.
             case r of Inl e \<Rightarrow> k (Inl e) s2 | Inr u \<Rightarrow> k (Inr (fst a)) s2))"

end
