(* ===== verification/ShellExec.thy ===== *)
theory ShellExec
  imports ShellProc
begin

unbundle bit_operations_syntax

text \<open>
  The interpreter of \<open>internal/shell/shell.go\<close>, one definition per Go function.  Where the Go
  function executes nested statements, the definition takes the executor as its argument
  \<open>st\<close> (one statement; \<open>exec_stmt\<close> at the end closes the recursion, with fuel) or
  \<open>run\<close> (a list of statements).  A deferred call is sequenced after the body it follows.
\<close>

section \<open>Error texts\<close>

text \<open>\<open>Error\<close> of the errors the shell prints, with Linux' texts of the error numbers.\<close>

fun errno_text :: "errno \<Rightarrow> string" where
  "errno_text ENOENT = ''no such file or directory''" | "errno_text EEXIST = ''file exists''"
| "errno_text ENOTDIR = ''not a directory''" | "errno_text EISDIR = ''is a directory''"
| "errno_text ENOTEMPTY = ''directory not empty''" | "errno_text ENOSPC = ''no space left on device''"
| "errno_text EROFS = ''read-only file system''" | "errno_text EBUSY = ''device or resource busy''"
| "errno_text EXDEV = ''invalid cross-device link''" | "errno_text ENOSYS = ''function not implemented''"
| "errno_text EACCES = ''permission denied''" | "errno_text EPERM = ''operation not permitted''"
| "errno_text (EOTHER n) = ''errno '' @ nat_text n"

fun err_text :: "goerr \<Rightarrow> string" where
  "err_text ErrInvalid = ''invalid argument''" | "err_text ErrNotExist = ''file does not exist''"
| "err_text ErrExist = ''file already exists''" | "err_text ErrPermission = ''permission denied''"
| "err_text ErrClosed = ''file already closed''" | "err_text EOF = ''EOF''"
| "err_text ErrClosedPipe = ''io: read/write on closed pipe''"
| "err_text (Errno n) = errno_text n"
| "err_text (PathError a p e) = a @ '' '' @ p @ '': '' @ err_text e"
| "err_text (Wrapped m e) = m @ '': '' @ err_text e"
| "err_text ErrLimit = ''shell execution limit exceeded''"
| "err_text ErrOutputLimit = ''output limit exceeded''"
| "err_text (Flow kind code) = kind"
| "err_text (CtxErr t) = t"
| "err_text (ErrText t) = t"

section \<open>Statement lists, assignments and redirections\<close>

type_synonym 'x executor = "'x stmt \<Rightarrow> bool \<Rightarrow> streams \<Rightarrow> 'x shell \<Rightarrow> 'x proc"

primrec list_loop :: "'x executor \<Rightarrow> int \<Rightarrow> 'x stmt list \<Rightarrow> streams \<Rightarrow> 'x shell \<Rightarrow> 'x proc" where
  "list_loop st code [] io s = done_with code None s"
| "list_loop st code (x # xs) io s =
     pbind (st x False io s) (\<lambda>code e s1.
       let s2 = s1\<lparr>sh_status := code\<rparr>
       in case e of Some _ \<Rightarrow> done_with code e s2 | None \<Rightarrow> list_loop st code xs io s2)"

definition sh_list :: "'x executor \<Rightarrow> 'x stmt list \<Rightarrow> streams \<Rightarrow> 'x shell \<Rightarrow> 'x proc" where
  "sh_list st stmts io s = list_loop st 0 stmts io s"

definition sh_assign ::
  "'x library \<Rightarrow> 'x runner \<Rightarrow> 'x assign \<Rightarrow> bool \<Rightarrow> streams \<Rightarrow> 'x shell \<Rightarrow>
   (goerr option \<Rightarrow> 'x shell \<Rightarrow> 'x proc) \<Rightarrow> 'x proc" where
  "sh_assign L run a export io s k =
     run_one run io (ex_Literal L (as_Value a)) s (\<lambda>r s1.
       case r of
         Inl e \<Rightarrow> k (Some e) s1
       | Inr v \<Rightarrow>
           let v' = (if as_Append a then ex_String L (vars_Get (sh_vars s1) (as_Name a)) @ v else v);
               (e, vs) = vars_Set (sh_vars s1) (as_Name a) (variable_of v' export)
           in k e (s1\<lparr>sh_vars := vs\<rparr>))"

text \<open>
  The default descriptor of an operator, and the flags a file is opened with (\<open>None\<close> for an
  operator that opens no file).
\<close>

definition redir_fd :: "redir_op \<Rightarrow> string option \<Rightarrow> int" where
  "redir_fd rop n =
     (case n of Some v \<Rightarrow> fst (go_Atoi v)
      | None \<Rightarrow> if rop \<in> {RdrIn, Hdoc, DashHdoc, WordHdoc, DplIn} then 0 else 1)"

definition redir_flag :: "redir_op \<Rightarrow> oflag option" where
  "redir_flag rop =
     (if rop = RdrIn then Some O_RDONLY
      else if rop \<in> {RdrOut, ClbOut, RdrAll} then Some (O_WRONLY OR O_CREATE OR O_TRUNC)
      else if rop \<in> {AppOut, AppAll} then Some (O_WRONLY OR O_CREATE OR O_APPEND)
      else None)"

text \<open>The case \<open>DplOut\<close>: duplicating or closing an output.\<close>

definition dup_out :: "int \<Rightarrow> string \<Rightarrow> streams \<Rightarrow> streams res" where
  "dup_out fd name io =
     (case (if name = ''1'' then Some (io_Out io) else if name = ''2'' then Some (io_Err io)
            else if name = ''-'' then Some ClosedWriter else None) of
        None \<Rightarrow> Inl (ErrText ''unsupported file descriptor'')
      | Some w \<Rightarrow>
          if fd = 1 then Inr (io\<lparr>io_Out := w\<rparr>)
          else if fd = 2 then Inr (io\<lparr>io_Err := w\<rparr>)
          else Inl (ErrText ''unsupported output descriptor''))"

text \<open>What an opened file replaces; \<open>isw\<close> says whether it implements \<open>io.Writer\<close>.\<close>

definition attach :: "redir_op \<Rightarrow> int \<Rightarrow> obj \<Rightarrow> bool \<Rightarrow> streams \<Rightarrow> streams res" where
  "attach rop fd f isw io =
     (if rop = RdrIn
      then (if fd \<noteq> 0 then Inl (ErrText ''unsupported input descriptor'')
            else Inr (io\<lparr>io_In := f, io_InSet := True\<rparr>))
      else if \<not> isw then Inl ErrPermission
      else if rop = RdrAll \<or> rop = AppAll then Inr (io\<lparr>io_Out := f, io_Err := f\<rparr>)
      else if fd = 1 then Inr (io\<lparr>io_Out := f\<rparr>)
      else if fd = 2 then Inr (io\<lparr>io_Err := f\<rparr>)
      else Inl (ErrText ''unsupported output descriptor''))"

text \<open>
  \<open>redirect\<close>: the loop over the redirections, with the files opened so far.  The continuation
  gets the streams, the files and the error.
\<close>

primrec sh_redirect ::
  "'x library \<Rightarrow> 'x runner \<Rightarrow> 'x redirect list \<Rightarrow> streams \<Rightarrow> obj list \<Rightarrow> 'x shell \<Rightarrow>
   (streams \<Rightarrow> obj list \<Rightarrow> goerr option \<Rightarrow> 'x shell \<Rightarrow> 'x proc) \<Rightarrow> 'x proc" where
  "sh_redirect L run [] io cl s k = k io cl None s"
| "sh_redirect L run (rd # rds) io cl s k =
     (let rop = rd_Op rd; fd = redir_fd rop (rd_N rd)
      in if rop = Hdoc \<or> rop = DashHdoc then
           run_one run io
             (ex_Document L (if rop = DashHdoc then stripHeredocTabs (rd_Hdoc rd) else rd_Hdoc rd)) s
             (\<lambda>r s1. case r of
                Inl e \<Rightarrow> k io cl (Some e) s1
              | Inr body \<Rightarrow>
                  if maxExpansion < length body then k io cl (Some ErrLimit) s1
                  else PReader body (\<lambda>h. sh_redirect L run rds (io\<lparr>io_In := h, io_InSet := True\<rparr>) cl s1 k))
         else if rop = WordHdoc then
           run_one run io (ex_Literal L (Some (rd_Word rd))) s
             (\<lambda>r s1. case r of
                Inl e \<Rightarrow> k io cl (Some e) s1
              | Inr text \<Rightarrow>
                  if maxExpansion \<le> length text then k io cl (Some ErrLimit) s1
                  else PReader (text @ [newline])
                         (\<lambda>h. sh_redirect L run rds (io\<lparr>io_In := h, io_InSet := True\<rparr>) cl s1 k))
         else
           sh_fields L run [rd_Word rd] io s (\<lambda>r s1. case r of
             Inl e \<Rightarrow> k io cl (Some e) s1
           | Inr words \<Rightarrow>
               if length words \<noteq> 1 then k io cl (Some (ErrText ''ambiguous redirect'')) s1
               else if rop = DplOut then
                 (case dup_out fd (hd words) io of
                    Inl e \<Rightarrow> k io cl (Some e) s1
                  | Inr io' \<Rightarrow> sh_redirect L run rds io' cl s1 k)
               else
                 (case redir_flag rop of
                    None \<Rightarrow> k io cl (Some (ErrText (''unsupported redirect: '' @ op_text rop))) s1
                  | Some flag \<Rightarrow>
                      POpen (Resolve (sh_Cwd s1) (hd words)) flag 0x1B6 (\<lambda>r. case r of
                        Inl e \<Rightarrow> k io cl (Some e) s1
                      | Inr (f, isw) \<Rightarrow>
                          (case attach rop fd f isw io of
                             Inl e \<Rightarrow> k io (cl @ [f]) (Some e) s1
                           | Inr io' \<Rightarrow> sh_redirect L run rds io' (cl @ [f]) s1 k)))))"

text \<open>
  The deferred closing of the files (given in the order they are closed), which may replace the
  results of the statement.
\<close>

primrec close_all :: "obj list \<Rightarrow> int \<Rightarrow> goerr option \<Rightarrow> 'x shell \<Rightarrow> 'x proc" where
  "close_all [] code e s = done_with code e s"
| "close_all (f # fs) code e s =
     PClose f (\<lambda>r. case r of
       None \<Rightarrow> close_all fs code e s
     | Some ce \<Rightarrow>
         if e = None \<or> flow_kind e \<noteq> None
         then close_all fs 1 (Some (Wrapped ''close redirection'' ce)) s
         else close_all fs code e s)"

section \<open>Builtins and commands\<close>

definition builtin_cd :: "'x library \<Rightarrow> string list \<Rightarrow> streams \<Rightarrow> 'x shell \<Rightarrow> 'x proc" where
  "builtin_cd L args io s =
     (if 2 < length args then PWrite (io_Err io) (''cd: too many arguments'' @ [newline]) (\<lambda>_. done_with 1 None s)
      else
        let dest0 = (if length args = 2 then args ! 1 else ex_String L (vars_Get (sh_vars s) ''HOME''));
            dest1 = (if dest0 = ''-'' then ex_String L (vars_Get (sh_vars s) ''OLDPWD'') else dest0);
            dest = Resolve (sh_Cwd s) dest1
        in PStat dest (\<lambda>r.
             if (case r of Inl e \<Rightarrow> True | Inr i \<Rightarrow> \<not> info_is_dir i)
             then PWrite (io_Err io) (''cd: cannot enter '' @ dest @ [newline]) (\<lambda>_. done_with 1 None s)
             else
               let vs = AList.update ''OLDPWD'' (variable_of (sh_Cwd s) True) (sh_vars s);
                   cwd = path_clean dest
               in done_with 0 None
                    (s\<lparr>sh_Cwd := cwd, sh_vars := AList.update ''PWD'' (variable_of cwd True) vs\<rparr>)))"

definition builtin_pwd :: "string list \<Rightarrow> streams \<Rightarrow> 'x shell \<Rightarrow> 'x proc" where
  "builtin_pwd args io s =
     (if 1 < length args \<and> \<not> (length args = 2 \<and> (args ! 1 = ''-L'' \<or> args ! 1 = ''-P''))
      then done_with 2 None s
      else PWrite (io_Out io) (sh_Cwd s @ [newline]) (\<lambda>e. done_with 0 e s))"

text \<open>\<open>exit\<close> and \<open>return\<close>: the code is the status, or the argument modulo 256.\<close>

definition builtin_exit :: "string list \<Rightarrow> 'x shell \<Rightarrow> 'x proc" where
  "builtin_exit args s =
     (if 2 < length args then done_with 2 (Some (ErrText ''too many arguments'')) s
      else if length args = 2 then
        (case go_Atoi (args ! 1) of
           (n, Some e) \<Rightarrow> done_with 2 (Some e) s
         | (n, None) \<Rightarrow> done_with (n mod 256) (Some (Flow (hd args) (n mod 256))) s)
      else done_with (sh_status s) (Some (Flow (hd args) (sh_status s))) s)"

definition nested_shell ::
  "'x library \<Rightarrow> 'x runner \<Rightarrow> string list \<Rightarrow> streams \<Rightarrow> 'x shell \<Rightarrow> 'x proc" where
  "nested_shell L run args io s =
     (if max_depth \<le> sh_depth s then done_with 1 (Some ErrLimit) s
      else if length args < 3 \<or> args ! 1 \<noteq> ''-c''
      then PWrite (io_Err io) (''shale: nested shells support -c SCRIPT'' @ [newline]) (\<lambda>_. done_with 2 None s)
      else case Parse L (args ! 2) of
        Inl e \<Rightarrow> done_with 2 (Some e) s
      | Inr f \<Rightarrow>
          let c0 = NewShell (sh_Cwd s) (sh_exported (ex_String L) s);
              c1 = c0\<lparr>sh_depth := sh_depth s + 1,
                      sh_vars := AList.update ''0'' (variable_of (args ! 0) False) (sh_vars c0)\<rparr>;
              c2 = (if 3 < length args
                    then c1\<lparr>sh_args := drop 4 args,
                            sh_vars := AList.update ''0'' (variable_of (args ! 3) False) (sh_vars c1)\<rparr>
                    else c1)
          in pbind (run f io c2) (\<lambda>code e child. done_with code (drop_flow ''exit'' e) s))"

text \<open>The loop of \<open>external\<close> over the directories of \<open>PATH\<close>.\<close>

primrec find_command :: "'x shell \<Rightarrow> string \<Rightarrow> string list \<Rightarrow> (bool \<Rightarrow> 'x proc) \<Rightarrow> 'x proc" where
  "find_command s name [] k = k False"
| "find_command s name (dir # dirs) k =
     (let p = Resolve (sh_Cwd s) (path_join dir name)
      in if path_dir p \<noteq> ''/bin'' \<and> path_dir p \<noteq> ''/usr/bin'' then find_command s name dirs k
         else PStat p (\<lambda>r.
           if (case r of Inl e \<Rightarrow> False | Inr i \<Rightarrow> \<not> info_is_dir i \<and> fi_mode i AND 0x49 \<noteq> 0)
           then k True else find_command s name dirs k))"

definition not_found :: "string \<Rightarrow> streams \<Rightarrow> 'x shell \<Rightarrow> 'x proc" where
  "not_found name io s =
     PWrite (io_Err io) (name @ '': command not found'' @ [newline]) (\<lambda>_. done_with 127 None s)"

definition run_external :: "'x library \<Rightarrow> string \<Rightarrow> string list \<Rightarrow> streams \<Rightarrow> 'x shell \<Rightarrow> 'x proc" where
  "run_external L name rest io s =
     PExec (sh_Cwd s) (name # rest)
       (AList.update ''PWD'' (sh_Cwd s) (sh_exported (ex_String L) s)) io (\<lambda>(code, e). done_with code e s)"

definition sh_external :: "'x library \<Rightarrow> string list \<Rightarrow> streams \<Rightarrow> 'x shell \<Rightarrow> 'x proc" where
  "sh_external L args io s =
     (let name = hd args
      in if slash \<in> set name then
           (let full = Resolve (sh_Cwd s) name
            in if path_dir full \<noteq> ''/bin'' \<and> path_dir full \<noteq> ''/usr/bin'' then not_found full io s
               else run_external L (path_base full) (tl args) io s)
         else
           find_command s name (go_split (CHR '':'') (ex_String L (vars_Get (sh_vars s) ''PATH''))) (\<lambda>found.
             if found then run_external L name (tl args) io s else not_found name io s))"

text \<open>The loop of \<open>xargs\<close> over its batches, with the status so far.\<close>

primrec xargs_loop ::
  "'x library \<Rightarrow> xopts \<Rightarrow> string list \<Rightarrow> streams \<Rightarrow> streams \<Rightarrow> string list list \<Rightarrow> int \<Rightarrow> 'x shell \<Rightarrow> 'x proc" where
  "xargs_loop L x cmd io child [] status s = done_with status None s"
| "xargs_loop L x cmd io child (batch # batches) status s =
     PStep (\<lambda>e. case e of
       Some err \<Rightarrow> done_with 1 (Some err) s
     | None \<Rightarrow>
         let argv = xargs_argv x cmd batch;
             go = pbind (sh_external L argv child s) (\<lambda>code e s.
               case e of
                 Some err \<Rightarrow> done_with code (Some err) s
               | None \<Rightarrow>
                   if code = 126 \<or> code = 127 then done_with code None s
                   else if code = 255 then
                     PWrite (io_Err io) (''xargs: '' @ hd argv @ '': exited with status 255; aborting'' @ [newline])
                       (\<lambda>_. done_with 124 None s)
                   else xargs_loop L x cmd io child batches (if code \<noteq> 0 then 123 else status) s)
         in if xo_trace x then PWrite (io_Err io) (go_join '' '' argv @ [newline]) (\<lambda>_. go) else go)"

definition xargs_fail :: "string \<Rightarrow> streams \<Rightarrow> 'x shell \<Rightarrow> 'x proc" where
  "xargs_fail msg io s = PWrite (io_Err io) (''xargs: '' @ msg @ [newline]) (\<lambda>_. done_with 1 None s)"

definition sh_xargs :: "'x library \<Rightarrow> string list \<Rightarrow> streams \<Rightarrow> 'x shell \<Rightarrow> 'x proc" where
  "sh_xargs L args io s =
     (case xargs_opts no_xopts args of
        Inl msg \<Rightarrow> xargs_fail msg io s
      | Inr (x, rest) \<Rightarrow>
          PReadAll (io_In io) (MaxScript + 1) (\<lambda>(input, e).
            case e of
              Some err \<Rightarrow> done_with 1 (Some err) s
            | None \<Rightarrow>
                if MaxScript < length input then done_with 1 (Some ErrLimit) s
                else case xargs_items x input of
                  Inl err \<Rightarrow> xargs_fail (err_text err) io s
                | Inr items \<Rightarrow>
                    if items = [] \<and> xo_skipEmpty x then done_with 0 None s
                    else PReader [] (\<lambda>empty.
                      xargs_loop L x (xargs_cmd rest) io
                        \<lparr>io_In = empty, io_Out = io_Out io, io_Err = io_Err io, io_InSet = False\<rparr>
                        (xargs_batches (xo_per x) items) 0 s)))"

text \<open>The switch of \<open>invoke\<close> over the builtins, and what follows it.\<close>

definition sh_builtin ::
  "'x library \<Rightarrow> 'x runner \<Rightarrow> string list \<Rightarrow> streams \<Rightarrow> 'x shell \<Rightarrow> 'x proc" where
  "sh_builtin L run args io s =
     (let name = hd args
      in if name = '':'' \<or> name = ''true'' then done_with 0 None s
         else if name = ''false'' then done_with 1 None s
         else if name = ''cd'' then builtin_cd L args io s
         else if name = ''pwd'' then builtin_pwd args io s
         else if name = ''unset''
         then done_with 0 None (s\<lparr>sh_vars := foldl (\<lambda>vs k. AList.delete k vs) (sh_vars s) (tl args)\<rparr>)
         else if name = ''exit'' \<or> name = ''return'' then builtin_exit args s
         else if name = ''break'' \<or> name = ''continue'' then
           (if length args \<noteq> 1
            then done_with 2 (Some (ErrText ''only single-level loop control is supported'')) s
            else done_with 0 (Some (Flow name 0)) s)
         else if name = ''bash'' \<or> name = ''sh'' then nested_shell L run args io s
         else if name = ''xargs'' then sh_xargs L (tl args) io s
         else sh_external L args io s)"

definition sh_invoke ::
  "'x library \<Rightarrow> 'x executor \<Rightarrow> string list \<Rightarrow> streams \<Rightarrow> 'x shell \<Rightarrow> 'x proc" where
  "sh_invoke L st args io s =
     (case map_of (sh_funcs s) (hd args) of
        Some (Some body) \<Rightarrow>
          if max_depth \<le> sh_depth s then done_with 1 (Some ErrLimit) s
          else pbind (st body False io (s\<lparr>sh_args := tl args, sh_depth := sh_depth s + 1\<rparr>)) (\<lambda>code e s1.
                 done_with code (drop_flow ''return'' e)
                   (s1\<lparr>sh_args := sh_args s, sh_depth := sh_depth s1 - 1\<rparr>))
      | _ \<Rightarrow> sh_builtin L (sh_list st) args io s)"

text \<open>
  \<open>call\<close>: the assignments before a command, and their removal after it.  \<open>before\<close> holds
  what the assigned names were, the first value for a name that is assigned twice.
\<close>

primrec assign_all ::
  "'x library \<Rightarrow> 'x runner \<Rightarrow> 'x assign list \<Rightarrow> streams \<Rightarrow> 'x shell \<Rightarrow> 'x proc" where
  "assign_all L run [] io s = done_with (sh_subStatus s) None s"
| "assign_all L run (a # as) io s =
     sh_assign L run a False io s (\<lambda>e s1. case e of
       Some err \<Rightarrow> done_with 1 (Some err) s1
     | None \<Rightarrow> assign_all L run as io s1)"

definition restore_vars :: "(string \<times> variable) list \<Rightarrow> variables \<Rightarrow> variables" where
  "restore_vars before vs =
     foldl (\<lambda>vs (k, v). if v_Set v \<or> v_Exported v then AList.update k v vs else AList.delete k vs) vs before"

primrec prefix_assigns ::
  "'x library \<Rightarrow> 'x runner \<Rightarrow> 'x assign list \<Rightarrow> streams \<Rightarrow> (string \<times> variable) list \<Rightarrow> 'x shell \<Rightarrow>
   ((string \<times> variable) list \<Rightarrow> goerr option \<Rightarrow> 'x shell \<Rightarrow> 'x proc) \<Rightarrow> 'x proc" where
  "prefix_assigns L run [] io before s k = k before None s"
| "prefix_assigns L run (a # as) io before s k =
     (let before' = (if as_Name a \<in> fst ` set before then before
                     else (as_Name a, vars_Get (sh_vars s) (as_Name a)) # before)
      in sh_assign L run a True io s (\<lambda>e s1. case e of
           Some err \<Rightarrow> k before' (Some err) s1
         | None \<Rightarrow> prefix_assigns L run as io before' s1 k))"

definition sh_call ::
  "'x library \<Rightarrow> 'x executor \<Rightarrow> 'x assign list \<Rightarrow> string list \<Rightarrow> streams \<Rightarrow> 'x shell \<Rightarrow> 'x proc" where
  "sh_call L st assigns args io s =
     (if args = [] then assign_all L (sh_list st) assigns io s
      else if assigns = [] then sh_invoke L st args io s
      else prefix_assigns L (sh_list st) assigns io [] s (\<lambda>before e s1.
        pbind (case e of Some err \<Rightarrow> done_with 1 (Some err) s1 | None \<Rightarrow> sh_invoke L st args io s1)
          (\<lambda>code e s2. done_with code e (s2\<lparr>sh_vars := restore_vars before (sh_vars s2)\<rparr>))))"

section \<open>Compound commands\<close>

text \<open>The loops, after the step each iteration begins with.\<close>

primrec for_loop ::
  "'x executor \<Rightarrow> string \<Rightarrow> string list \<Rightarrow> 'x stmt list \<Rightarrow> streams \<Rightarrow> int \<Rightarrow> 'x shell \<Rightarrow> 'x proc" where
  "for_loop st x [] body io code s = done_with code None s"
| "for_loop st x (item # items) body io code s =
     PStep (\<lambda>e. case e of
       Some err \<Rightarrow> done_with 1 (Some err) s
     | None \<Rightarrow>
         (case vars_Set (sh_vars s) x (variable_of item False) of
            (Some err, vs) \<Rightarrow> done_with 1 (Some err) s
          | (None, vs) \<Rightarrow>
              pbind (sh_list st body io (s\<lparr>sh_vars := vs\<rparr>)) (\<lambda>code e s1.
                if flow_kind e = Some ''break'' then done_with 0 None s1
                else if flow_kind e = Some ''continue'' then for_loop st x items body io code s1
                else if e \<noteq> None then done_with code e s1
                else for_loop st x items body io code s1)))"

primrec while_loop ::
  "'x executor \<Rightarrow> bool \<Rightarrow> 'x stmt list \<Rightarrow> 'x stmt list \<Rightarrow> streams \<Rightarrow> nat \<Rightarrow> int \<Rightarrow> 'x shell \<Rightarrow> 'x proc" where
  "while_loop st until cond body io 0 code s = PRet OutOfFuel"
| "while_loop st until cond body io (Suc n) code s =
     PStep (\<lambda>e. case e of
       Some err \<Rightarrow> done_with 1 (Some err) s
     | None \<Rightarrow>
         pbind (sh_list st cond io s) (\<lambda>c e s1.
           if e \<noteq> None then done_with c e s1
           else if (c = 0) = until then done_with code None s1
           else pbind (sh_list st body io s1) (\<lambda>code e s2.
             if flow_kind e = Some ''break'' then done_with 0 None s2
             else if flow_kind e = Some ''continue'' then while_loop st until cond body io n code s2
             else if e \<noteq> None then done_with code e s2
             else while_loop st until cond body io n code s2)))"

primrec export_all ::
  "'x library \<Rightarrow> 'x runner \<Rightarrow> 'x declarg list \<Rightarrow> streams \<Rightarrow> 'x shell \<Rightarrow> 'x proc" where
  "export_all L run [] io s = done_with 0 None s"
| "export_all L run (a # as) io s =
     (case a of
        DeclWord w \<Rightarrow> done_with 2 (Some (ErrText ''dynamic export arguments are not supported'')) s
      | DeclAssign asg \<Rightarrow>
          if as_Naked asg then
            export_all L run as io
              (s\<lparr>sh_vars := AList.update (as_Name asg) ((vars_Get (sh_vars s) (as_Name asg))\<lparr>v_Exported := True\<rparr>)
                  (sh_vars s)\<rparr>)
          else sh_assign L run asg True io s (\<lambda>e s1. case e of
            Some err \<Rightarrow> done_with 1 (Some err) s1
          | None \<Rightarrow> export_all L run as io s1))"

definition max_funcs :: nat where
  "max_funcs = 1000"

text \<open>
  \<open>pipeline\<close>: both stages run at the same time, each on its own copy of the shell.  The pipe
  is closed when the context ends, which is the world's part.
\<close>

definition pipelineFlow :: "goerr option \<Rightarrow> goerr option" where
  "pipelineFlow e = drop_flow ''exit'' e"

definition sh_pipeline ::
  "'x executor \<Rightarrow> bool \<Rightarrow> 'x stmt \<Rightarrow> 'x stmt \<Rightarrow> streams \<Rightarrow> 'x shell \<Rightarrow> 'x proc" where
  "sh_pipeline st pipeAll x y io s =
     PPipe (\<lambda>(rd, wr).
       PPar
         (pbind (st x pipeAll (io\<lparr>io_Out := wr\<rparr>) (sh_clone s)) (\<lambda>code e s1.
            PClosePipe wr (pipelineFlow e) (done_with code (pipelineFlow e) s1)))
         (pbind (st y False (io\<lparr>io_In := rd, io_InSet := True\<rparr>) (sh_clone s)) (\<lambda>code e s1.
            PClosePipe rd None (done_with code (pipelineFlow e) s1)))
         (\<lambda>((lcode, le), (code, e)). PCtxErr (\<lambda>c.
            if c \<noteq> None then done_with 1 c s
            else if e \<noteq> None then done_with code e s
            else if le \<noteq> None \<and> \<not> errors_is (the le) ErrClosedPipe then done_with lcode le s
            else done_with code None s)))"

fun sh_command ::
  "'x library \<Rightarrow> 'x executor \<Rightarrow> nat \<Rightarrow> 'x cmd option \<Rightarrow> streams \<Rightarrow> 'x shell \<Rightarrow> 'x proc" where
  "sh_command L st n None io s = done_with (sh_subStatus s) None s"
| "sh_command L st n (Some (CallExpr assigns words)) io s =
     done_with 2 (Some (ErrText ''internal error: simple command bypassed expansion'')) s"
| "sh_command L st n (Some (Block stmts)) io s = sh_list st stmts io s"
| "sh_command L st n (Some (Subshell stmts)) io s =
     pbind (sh_list st stmts io (sh_clone s)) (\<lambda>code e child. done_with code (drop_flow ''exit'' e) s)"
| "sh_command L st n (Some (BinaryCmd bop x y)) io s =
     (if bop = Pipe \<or> bop = PipeAll then sh_pipeline st (bop = PipeAll) x y io s
      else pbind (st x False io s) (\<lambda>code e s1.
        if e \<noteq> None then done_with code e s1
        else if bop = AndStmt \<and> code = 0 \<or> bop = OrStmt \<and> code \<noteq> 0 then st y False io s1
        else done_with code None s1))"
| "sh_command L st n (Some (IfClause cond thn els)) io s =
     pbind (sh_list st cond io s) (\<lambda>code e s1.
       if e \<noteq> None then done_with code e s1
       else if code = 0 then sh_list st thn io s1
       else case els of Some c \<Rightarrow> sh_command L st n (Some c) io s1 | None \<Rightarrow> done_with 0 None s1)"
| "sh_command L st n (Some (ForClause select loop body)) io s =
     (case loop of
        CStyleLoop x \<Rightarrow> PRet Panicked
      | WordIter x None \<Rightarrow> for_loop st x (sh_args s) body io 0 s
      | WordIter x (Some words) \<Rightarrow>
          sh_fields L (sh_list st) words io s (\<lambda>r s1. case r of
            Inl e \<Rightarrow> done_with 1 (Some e) s1
          | Inr items \<Rightarrow> for_loop st x items body io 0 s1))"
| "sh_command L st n (Some (WhileClause until cond body)) io s = while_loop st until cond body io n 0 s"
| "sh_command L st n (Some (FuncDecl name body)) io s =
     (if max_funcs \<le> length (sh_funcs s) then done_with 1 (Some ErrLimit) s
      else case name of
        None \<Rightarrow> PRet Panicked
      | Some f \<Rightarrow> done_with 0 None (s\<lparr>sh_funcs := AList.update f body (sh_funcs s)\<rparr>))"
| "sh_command L st n (Some (DeclClause variant args)) io s = export_all L (sh_list st) args io s"
| "sh_command L st n (Some (ArithmCmd x)) io s =
     run_one (sh_list st) io (ex_Arithm L x) s (\<lambda>r s1. case r of
       Inl e \<Rightarrow> done_with 1 (Some e) s1
     | Inr v \<Rightarrow> done_with (if v = 0 then 1 else 0) None s1)"
| "sh_command L st n (Some (OtherCmd kind xs stmts)) io s =
     done_with 2 (Some (ErrText (''unsupported shell construct '' @ kind))) s"

section \<open>Statements\<close>

text \<open>The part of \<open>stmtWithPipe\<close> after the words of a simple command are expanded.\<close>

definition stmt_rest ::
  "'x library \<Rightarrow> 'x executor \<Rightarrow> nat \<Rightarrow> 'x stmt \<Rightarrow> bool \<Rightarrow> streams \<Rightarrow>
   ('x assign list \<times> string list) option \<Rightarrow> 'x shell \<Rightarrow> 'x proc" where
  "stmt_rest L st n stmt pipeAll io call s =
     sh_redirect L (sh_list st) (st_Redirs stmt) io [] s (\<lambda>io2 closers e s1.
       pbind
         (case e of
            Some err \<Rightarrow>
              if errors_is err ErrLimit then done_with 1 (Some err) s1
              else PCtxErr (\<lambda>c.
                if c \<noteq> None then done_with 1 (Some err) s1
                else PWrite (io_Err io) (''shale: '' @ err_text err @ [newline]) (\<lambda>_. done_with 1 None s1))
          | None \<Rightarrow>
              let io3 = (if pipeAll then io2\<lparr>io_Err := io_Out io2\<rparr> else io2)
              in pbind
                   (case call of
                      Some (assigns, args) \<Rightarrow> sh_call L st assigns args io3 s1
                    | None \<Rightarrow> sh_command L st n (st_Cmd stmt) io3 s1)
                   (\<lambda>code e s2.
                      let code' = (if st_Negated stmt \<and> e = None then (if code = 0 then 1 else 0) else code)
                      in done_with code' e (s2\<lparr>sh_status := code'\<rparr>)))
         (\<lambda>code e s2. close_all (rev closers) code e s2))"

definition stmtWithPipe ::
  "'x library \<Rightarrow> 'x executor \<Rightarrow> nat \<Rightarrow> 'x stmt \<Rightarrow> bool \<Rightarrow> streams \<Rightarrow> 'x shell \<Rightarrow> 'x proc" where
  "stmtWithPipe L st n stmt pipeAll io s =
     PStep (\<lambda>e. case e of
       Some err \<Rightarrow> done_with 1 (Some err) s
     | None \<Rightarrow>
         let s0 = s\<lparr>sh_subStatus := 0\<rparr>
         in case st_Cmd stmt of
              Some (CallExpr assigns words) \<Rightarrow>
                sh_fields L (sh_list st) words io s0 (\<lambda>r s1. case r of
                  Inl err \<Rightarrow> done_with 1 (Some err) s1
                | Inr args \<Rightarrow> stmt_rest L st n stmt pipeAll io (Some (assigns, args)) s1)
            | _ \<Rightarrow> stmt_rest L st n stmt pipeAll io None s0)"

text \<open>
  The recursion: a statement inside a statement has one unit of fuel less, and a loop has as many
  iterations.  Each of both takes a step of the run.
\<close>

primrec exec_stmt ::
  "'x library \<Rightarrow> nat \<Rightarrow> 'x stmt \<Rightarrow> bool \<Rightarrow> streams \<Rightarrow> 'x shell \<Rightarrow> 'x proc" where
  "exec_stmt L 0 stmt pipeAll io s = PRet OutOfFuel"
| "exec_stmt L (Suc n) stmt pipeAll io s = stmtWithPipe L (exec_stmt L n) n stmt pipeAll io s"

text \<open>\<open>Run\<close>.\<close>

definition sh_Run :: "'x library \<Rightarrow> nat \<Rightarrow> string \<Rightarrow> streams \<Rightarrow> 'x shell \<Rightarrow> 'x proc" where
  "sh_Run L n src io s =
     (let s0 = s\<lparr>sh_Exited := False\<rparr>
      in case Parse L src of
           Inl e \<Rightarrow> done_with 2 (Some e) s0
         | Inr f \<Rightarrow>
             pbind (sh_list (exec_stmt L n) f io s0) (\<lambda>code e s1.
               case (case e of None \<Rightarrow> None | Some err \<Rightarrow> as_flow err) of
                 Some (kind, c) \<Rightarrow>
                   if kind = ''exit'' then done_with c None (s1\<lparr>sh_Exited := True\<rparr>)
                   else done_with code e s1
               | None \<Rightarrow> done_with code e s1))"

end
