(* ===== verification/ShellFrame.thy ===== *)
theory ShellFrame
  imports ShellExec
begin

text \<open>
  What a call of the interpreter may change of the shell it is given, and which errors it may end
  with.  \<open>ends p P\<close> says that \<open>p\<close> ends, if it ends with results, in a way that satisfies
  \<open>P\<close>, whatever the world answers.
\<close>

section \<open>Results of a process\<close>

primrec ends :: "'x proc \<Rightarrow> (int \<Rightarrow> goerr option \<Rightarrow> 'x shell \<Rightarrow> bool) \<Rightarrow> bool" where
  "ends (PRet r) P = (case r of Done c e s \<Rightarrow> P c e s | _ \<Rightarrow> True)"
| "ends (PStep f) P = (\<forall>a. ends (f a) P)"
| "ends (PCtxErr f) P = (\<forall>a. ends (f a) P)"
| "ends (PStat n f) P = (\<forall>a. ends (f a) P)"
| "ends (PReadDir n f) P = (\<forall>a. ends (f a) P)"
| "ends (POpen n fl pm f) P = (\<forall>a. ends (f a) P)"
| "ends (PWrite h t f) P = (\<forall>a. ends (f a) P)"
| "ends (PClose h f) P = (\<forall>a. ends (f a) P)"
| "ends (PReadAll h n f) P = (\<forall>a. ends (f a) P)"
| "ends (PReader t f) P = (\<forall>a. ends (f a) P)"
| "ends (PBounded n f) P = (\<forall>a. ends (f a) P)"
| "ends (PBoundedResult h f) P = (\<forall>a. ends (f a) P)"
| "ends (PPipe f) P = (\<forall>a. ends (f a) P)"
| "ends (PClosePipe h e p) P = ends p P"
| "ends (PExec cwd args env io f) P = (\<forall>a. ends (f a) P)"
| "ends (PPar p q f) P =
     (\<forall>a. \<not> ends p (\<lambda>c e s. (c, e) \<noteq> fst a) \<and> \<not> ends q (\<lambda>c e s. (c, e) \<noteq> snd a) \<longrightarrow> ends (f a) P)"

lemma ends_True: "(\<And>c e s. P c e s) \<Longrightarrow> ends p P"
  by (induction p) (auto split: outcome.split)

lemma ends_bind: "ends p R \<Longrightarrow> (\<And>c e s. R c e s \<Longrightarrow> ends (k c e s) P) \<Longrightarrow> ends (pbind p k) P"
  by (induction p) (auto split: outcome.split)

lemma ends_after: "(\<And>c e s. ends (k c e s) P) \<Longrightarrow> ends (pbind p k) P"
  by (rule ends_bind [OF ends_True]) simp_all

lemma ends_mono: "ends p P \<Longrightarrow> (\<And>c e s. P c e s \<Longrightarrow> R c e s) \<Longrightarrow> ends p R"
  by (induction p) (auto split: outcome.splits)

text \<open>A stage of a pipeline contributes only results it can end with.\<close>

lemma ends_par:
  assumes "ends p (\<lambda>c e s. P1 c e)" "ends q (\<lambda>c e s. P2 c e)"
    and "\<And>c e c' e'. P1 c e \<Longrightarrow> P2 c' e' \<Longrightarrow> ends (f ((c, e), (c', e'))) P"
  shows "ends (PPar p q f) P"
proof -
  have "ends (f a) P"
    if "\<not> ends p (\<lambda>c e s. (c, e) \<noteq> fst a)" "\<not> ends q (\<lambda>c e s. (c, e) \<noteq> snd a)" for a
  proof -
    obtain c e c' e' where a: "a = ((c, e), (c', e'))" by (metis surj_pair)
    have "P1 c e"
    proof (rule ccontr)
      assume "\<not> P1 c e"
      then have "ends p (\<lambda>c e s. (c, e) \<noteq> fst a)" using a by (intro ends_mono [OF assms(1)]) auto
      then show False using that(1) by blast
    qed
    moreover have "P2 c' e'"
    proof (rule ccontr)
      assume "\<not> P2 c' e'"
      then have "ends q (\<lambda>c e s. (c, e) \<noteq> snd a)" using a by (intro ends_mono [OF assms(2)]) auto
      then show False using that(2) by blast
    qed
    ultimately show ?thesis using assms(3) a by blast
  qed
  then show ?thesis by simp
qed

section \<open>What stays as it was\<close>

text \<open>
  The positional parameters, the depth of nesting and the \<open>Exited\<close> flag are back when a call
  returns, however it ends.
\<close>

definition frame :: "'x shell \<Rightarrow> 'x shell \<Rightarrow> bool" where
  "frame s t = (sh_args t = sh_args s \<and> sh_depth t = sh_depth s \<and> sh_Exited t = sh_Exited s)"

lemma frame_refl [simp]: "frame s s"
  by (simp add: frame_def)

lemma frame_trans: "frame s t \<Longrightarrow> frame t u \<Longrightarrow> frame s u"
  by (simp add: frame_def)

lemma frame_simps [simp]:
  "frame s (t\<lparr>sh_vars := vs\<rparr>) = frame s t" "frame s (t\<lparr>sh_status := n\<rparr>) = frame s t"
  "frame s (t\<lparr>sh_subStatus := n\<rparr>) = frame s t" "frame s (t\<lparr>sh_Cwd := cwd\<rparr>) = frame s t"
  "frame s (t\<lparr>sh_funcs := fs\<rparr>) = frame s t" "frame s (snd (env_Set t k v)) = frame s t"
  "frame (s\<lparr>sh_subStatus := n\<rparr>) t = frame s t" "frame (s\<lparr>sh_vars := vs\<rparr>) t = frame s t"
  by (simp_all add: frame_def)

definition framed :: "'x executor \<Rightarrow> bool" where
  "framed st = (\<forall>x pa io s. ends (st x pa io s) (\<lambda>c e t. frame s t))"

lemma framedD: "framed st \<Longrightarrow> frame s t \<Longrightarrow> ends (st x pa io t) (\<lambda>c e u. frame s u)"
  unfolding framed_def using ends_mono frame_trans by metis

lemma list_frame: "framed st \<Longrightarrow> frame s t \<Longrightarrow> ends (sh_list st xs io t) (\<lambda>c e u. frame s u)"
proof -
  have "framed st \<Longrightarrow> frame s t \<Longrightarrow> ends (list_loop st code xs io t) (\<lambda>c e u. frame s u)" for code
  proof (induction xs arbitrary: code t)
    case (Cons x xs)
    show ?case
      unfolding list_loop.simps
      by (rule ends_bind [OF framedD [OF Cons.prems]]) (auto simp: Let_def Cons split: option.split)
  qed simp
  then show "framed st \<Longrightarrow> frame s t \<Longrightarrow> ends (sh_list st xs io t) (\<lambda>c e u. frame s u)"
    by (simp add: sh_list_def)
qed

text \<open>
  Expansions change only variables and \<open>subStatus\<close> of the shell: any relation that allows this
  holds of the shell a continuation gets.
\<close>

locale expansion_inv =
  fixes R :: "'x shell \<Rightarrow> bool"
  assumes set: "R s \<Longrightarrow> R (snd (env_Set s k v))"
    and sub: "R s \<Longrightarrow> R (s\<lparr>sh_subStatus := n\<rparr>)"
begin

lemma run_exp_ends:
  assumes emit: "\<And>f a c. (\<And>r. ends (c r) P) \<Longrightarrow> ends (emit f a c) P"
  shows "R s \<Longrightarrow> (\<And>r a s. R s \<Longrightarrow> ends (k r a s) P) \<Longrightarrow> ends (run_exp run io glob emit t a s k) P"
proof (induction t arbitrary: a s)
  case (Yield f t)
  have "ends (case r of Inl e \<Rightarrow> k (Inl e) a s | Inr a' \<Rightarrow> run_exp run io glob emit t a' s k) P" for r
    using Yield by (cases r) simp_all
  then show ?case by (simp add: emit)
next
  case (SetVar x v f)
  then show ?case using set [of s x v] by (simp add: Let_def case_prod_beta)
next
  case (ListDir p f)
  then show ?case
    by (auto simp: config_ReadDir2_def case_prod_beta split: option.split)
next
  case (CmdSubst stmts f)
  then show ?case
    by (auto simp: config_CmdSubst_def Let_def case_prod_beta sub intro!: ends_after)
qed simp_all

lemma run_one_ends: "R s \<Longrightarrow> (\<And>r s. R s \<Longrightarrow> ends (k r s) P) \<Longrightarrow> ends (run_one run io t s k) P"
  unfolding run_one_def by (rule run_exp_ends) auto

lemma take_field_ends: "(\<And>r. ends (c r) P) \<Longrightarrow> ends (take_field f a c) P"
  by (auto simp: take_field_def Let_def case_prod_beta split: option.split)

lemma fields_ends: "R s \<Longrightarrow> (\<And>r s. R s \<Longrightarrow> ends (k r s) P) \<Longrightarrow> ends (sh_fields L run ws io s k) P"
  unfolding sh_fields_def
  by (rule run_exp_ends) (auto intro!: run_exp_ends take_field_ends split: sum.split)

end

interpretation framing: expansion_inv "frame s" for s
  by unfold_locales simp_all

lemma assign_frame:
  "frame s t \<Longrightarrow> (\<And>e u. frame s u \<Longrightarrow> ends (k e u) P) \<Longrightarrow> ends (sh_assign L run a ex io t k) P"
  unfolding sh_assign_def
  by (rule framing.run_one_ends [of s]) (auto simp: Let_def case_prod_beta split: sum.split)

lemma redirect_frame:
  "frame s t \<Longrightarrow> (\<And>io cl e u. frame s u \<Longrightarrow> ends (k io cl e u) P) \<Longrightarrow>
   ends (sh_redirect L run rds io cl t k) P"
proof (induction rds arbitrary: io cl t)
  case (Cons rd rds)
  note IH = Cons.IH [OF _ Cons.prems(2)]
  show ?case
    unfolding sh_redirect.simps Let_def
    by (auto simp: IH Cons.prems intro!: framing.run_one_ends [of s] framing.fields_ends [of s]
        split: sum.split option.split)
qed simp

lemma close_frame: "frame s t \<Longrightarrow> ends (close_all fs c e t) (\<lambda>c e u. frame s u)"
  by (induction fs arbitrary: c e) (auto split: option.split)

section \<open>Every statement\<close>

lemma external_frame: "frame s t \<Longrightarrow> ends (sh_external L args io t) (\<lambda>c e u. frame s u)"
proof -
  assume t: "frame s t"
  have "ends (find_command t name dirs k) P" if "\<And>b. ends (k b) P" for name dirs k P
    using that by (induction dirs) (auto simp: Let_def)
  then show ?thesis
    using t by (auto simp: sh_external_def run_external_def not_found_def Let_def)
qed

lemma xargs_frame: "frame s t \<Longrightarrow> ends (sh_xargs L args io t) (\<lambda>c e u. frame s u)"
proof -
  assume t: "frame s t"
  have "ends (xargs_loop L x cmd io child bs st t) (\<lambda>c e u. frame s u)" if "frame s t" for x cmd child bs st t
    using that
  proof (induction bs arbitrary: st t)
    case (Cons b bs)
    have "ends (pbind (sh_external L argv child t) (\<lambda>code e t. case e of
        Some err \<Rightarrow> done_with code (Some err) t
      | None \<Rightarrow> if code = 126 \<or> code = 127 then done_with code None t
          else if code = 255 then PWrite (io_Err io)
            (''xargs: '' @ hd argv @ '': exited with status 255; aborting'' @ [newline]) (\<lambda>_. done_with 124 None t)
          else xargs_loop L x cmd io child bs (if code \<noteq> 0 then 123 else st) t)) (\<lambda>c e u. frame s u)" for argv
      by (rule ends_bind [OF external_frame [OF Cons.prems]]) (auto intro: Cons.IH split: option.split)
    then show ?case using Cons.prems by (auto simp: Let_def split: option.split)
  qed simp
  then show ?thesis
    using t by (auto simp: sh_xargs_def xargs_fail_def split: sum.split option.split)
qed

lemma builtin_frame:
  assumes t: "frame s t"
  shows "ends (sh_builtin L run args io t) (\<lambda>c e u. frame s u)"
proof -
  have choice: "ends (if B then a else b) P" if "ends a P" "ends b P" for B a b P
    using that by simp
  have "ends (builtin_cd L args io t) (\<lambda>c e u. frame s u)" "ends (builtin_pwd args io t) (\<lambda>c e u. frame s u)"
    using t by (auto simp: builtin_cd_def builtin_pwd_def Let_def)
  moreover have "ends (builtin_exit args t) (\<lambda>c e u. frame s u)"
    using t by (auto simp: builtin_exit_def split: prod.split option.split)
  moreover have "ends (nested_shell L run args io t) (\<lambda>c e u. frame s u)"
    using t by (auto simp: nested_shell_def Let_def intro!: ends_after split: sum.split)
  moreover have "ends (done_with c e t) (\<lambda>c e u. frame s u)"
    "ends (done_with c e (t\<lparr>sh_vars := vs\<rparr>)) (\<lambda>c e u. frame s u)" for c e vs
    using t by simp_all
  ultimately show ?thesis
    unfolding sh_builtin_def Let_def by (intro choice xargs_frame [OF t] external_frame [OF t])
qed

lemma invoke_frame:
  assumes st: "framed st" and t: "frame s t"
  shows "ends (sh_invoke L st args io t) (\<lambda>c e u. frame s u)"
proof -
  have "ends (pbind (st body False io (t\<lparr>sh_args := as, sh_depth := sh_depth t + 1\<rparr>)) (\<lambda>code e s1.
      done_with code (drop_flow ''return'' e) (s1\<lparr>sh_args := sh_args t, sh_depth := sh_depth s1 - 1\<rparr>)))
      (\<lambda>c e u. frame s u)" for body as
    by (rule ends_bind [OF framedD [OF st frame_refl]]) (use t in \<open>auto simp: frame_def\<close>)
  then show ?thesis
    using t by (auto simp: sh_invoke_def intro: builtin_frame split: option.split)
qed

lemma call_frame:
  assumes st: "framed st" and t: "frame s t"
  shows "ends (sh_call L st as args io t) (\<lambda>c e u. frame s u)"
proof -
  have "ends (assign_all L run as io t) (\<lambda>c e u. frame s u)" for run
    using t
  proof (induction as arbitrary: t)
    case (Cons a as)
    then show ?case by (auto intro!: assign_frame [of s] split: option.split)
  qed simp
  moreover have "ends (prefix_assigns L run as io before t k) P"
    if "\<And>b e u. frame s u \<Longrightarrow> ends (k b e u) P" for run before k P
    using t that
  proof (induction as arbitrary: t before)
    case (Cons a as)
    then show ?case by (auto simp: Let_def intro!: assign_frame [of s] split: option.split)
  qed simp
  moreover have "ends (pbind (case e of Some err \<Rightarrow> done_with 1 (Some err) u | None \<Rightarrow> sh_invoke L st args io u)
      (\<lambda>code e s2. done_with code e (s2\<lparr>sh_vars := restore_vars b (sh_vars s2)\<rparr>))) (\<lambda>c e u. frame s u)"
    if "frame s u" for e u b
    by (rule ends_bind [where R = "\<lambda>c e u. frame s u"])
      (use that invoke_frame [OF st] in \<open>auto split: option.split\<close>)
  ultimately show ?thesis
    using invoke_frame [OF st t] by (simp add: sh_call_def)
qed

lemma for_frame:
  "framed st \<Longrightarrow> frame s t \<Longrightarrow> ends (for_loop st v items body io code t) (\<lambda>c e u. frame s u)"
proof (induction items arbitrary: code t)
  case (Cons i items)
  have "ends (pbind (sh_list st body io (t\<lparr>sh_vars := vs\<rparr>)) (\<lambda>code e s1.
      if flow_kind e = Some ''break'' then done_with 0 None s1
      else if flow_kind e = Some ''continue'' then for_loop st v items body io code s1
      else if e \<noteq> None then done_with code e s1
      else for_loop st v items body io code s1)) (\<lambda>c e u. frame s u)" for vs
    by (rule ends_bind [OF list_frame [OF Cons.prems(1), of s]]) (use Cons in auto)
  then show ?case using Cons.prems by (auto split: option.split prod.split)
qed simp

lemma while_frame:
  "framed st \<Longrightarrow> frame s t \<Longrightarrow> ends (while_loop st until cond body io n code t) (\<lambda>c e u. frame s u)"
proof (induction n arbitrary: code t)
  case (Suc n)
  have body: "ends (pbind (sh_list st body io s1) (\<lambda>code e s2.
      if flow_kind e = Some ''break'' then done_with 0 None s2
      else if flow_kind e = Some ''continue'' then while_loop st until cond body io n code s2
      else if e \<noteq> None then done_with code e s2
      else while_loop st until cond body io n code s2)) (\<lambda>c e u. frame s u)" if "frame s s1" for s1
    by (rule ends_bind [OF list_frame [OF Suc.prems(1) that]]) (use Suc in auto)
  have "ends (pbind (sh_list st cond io t) (\<lambda>c e s1.
      if e \<noteq> None then done_with c e s1
      else if (c = 0) = until then done_with code None s1
      else pbind (sh_list st body io s1) (\<lambda>code e s2.
        if flow_kind e = Some ''break'' then done_with 0 None s2
        else if flow_kind e = Some ''continue'' then while_loop st until cond body io n code s2
        else if e \<noteq> None then done_with code e s2
        else while_loop st until cond body io n code s2))) (\<lambda>c e u. frame s u)"
    by (rule ends_bind [OF list_frame [OF Suc.prems]]) (use body in auto)
  then show ?case using Suc.prems by (auto split: option.split)
qed simp

lemma command_frame:
  "framed st \<Longrightarrow> frame s t \<Longrightarrow> ends (sh_command L st n co io t) (\<lambda>c e u. frame s u)"
proof (induction "case co of None \<Rightarrow> 0 | Some c \<Rightarrow> size c" arbitrary: co t rule: less_induct)
  case less
  note st = less.prems(1) and t = less.prems(2)
  show ?case
  proof (cases co)
    case (Some c)
    show ?thesis
    proof (cases c)
      case (BinaryCmd bop x y)
      have "ends (pbind (st x False io t) (\<lambda>code e s1.
          if e \<noteq> None then done_with code e s1
          else if bop = AndStmt \<and> code = 0 \<or> bop = OrStmt \<and> code \<noteq> 0 then st y False io s1
          else done_with code None s1)) (\<lambda>c e u. frame s u)"
        by (rule ends_bind [OF framedD [OF st t]]) (use framedD [OF st] in auto)
      then show ?thesis using t by (auto simp: Some BinaryCmd sh_pipeline_def)
    next
      case (IfClause cond thn els)
      have rest: "ends (sh_command L st n (Some c') io s1) (\<lambda>c e u. frame s u)" if "els = Some c'" "frame s s1" for c' s1
        using less.hyps [of "Some c'" s1] that st by (simp add: Some IfClause)
      show ?thesis unfolding Some IfClause sh_command.simps
        by (rule ends_bind [OF list_frame [OF st t]])
          (use rest list_frame [OF st] in \<open>auto split: option.split\<close>)
    next
      case (ForClause select loop body)
      show ?thesis
      proof (cases loop)
        case (WordIter x words)
        then show ?thesis
          using t for_frame [OF st]
          by (cases words) (auto simp: Some ForClause intro!: framing.fields_ends [of s] split: sum.split)
      qed (simp add: Some ForClause)
    next
      case (DeclClause variant args)
      have "ends (export_all L run args io t) (\<lambda>c e u. frame s u)" for run
        using t
      proof (induction args arbitrary: t)
        case (Cons a as)
        then show ?case by (auto intro!: assign_frame [of s] split: declarg.split option.split)
      qed simp
      then show ?thesis by (simp add: Some DeclClause)
    next
      case (FuncDecl name body)
      then show ?thesis using t by (auto simp: Some split: option.split)
    next
      case (ArithmCmd x)
      then show ?thesis using t
        by (auto simp: Some intro!: framing.run_one_ends [of s] split: sum.split)
    qed (use t in \<open>auto simp: Some list_frame [OF st] while_frame [OF st] intro!: ends_after\<close>)
  qed (use t in simp)
qed

lemma stmt_rest_frame:
  assumes st: "framed st" and t: "frame s t"
  shows "ends (stmt_rest L st n x pa io ca t) (\<lambda>c e u. frame s u)"
proof -
  have inner: "ends (pbind (case ca of Some (as, args) \<Rightarrow> sh_call L st as args io u
        | None \<Rightarrow> sh_command L st n (st_Cmd x) io u) (\<lambda>code e s2.
          let code' = if st_Negated x \<and> e = None then (if code = 0 then 1 else 0) else code
          in done_with code' e (s2\<lparr>sh_status := code'\<rparr>))) (\<lambda>c e u. frame s u)" if "frame s u" for io u
    by (rule ends_bind [where R = "\<lambda>c e u. frame s u"])
      (use that call_frame [OF st] command_frame [OF st] in \<open>auto simp: Let_def split: option.split\<close>)
  show ?thesis
    unfolding stmt_rest_def
  proof (rule redirect_frame [OF t])
    fix io2 cl e u
    assume u: "frame s u"
    show "ends (pbind (case e of
          Some err \<Rightarrow> if errors_is err ErrLimit then done_with 1 (Some err) u
            else PCtxErr (\<lambda>c. if c \<noteq> None then done_with 1 (Some err) u
              else PWrite (io_Err io) (''shale: '' @ err_text err @ [newline]) (\<lambda>_. done_with 1 None u))
        | None \<Rightarrow> let io3 = if pa then io2\<lparr>io_Err := io_Out io2\<rparr> else io2
            in pbind (case ca of Some (as, args) \<Rightarrow> sh_call L st as args io3 u
                | None \<Rightarrow> sh_command L st n (st_Cmd x) io3 u) (\<lambda>code e s2.
                  let code' = if st_Negated x \<and> e = None then (if code = 0 then 1 else 0) else code
                  in done_with code' e (s2\<lparr>sh_status := code'\<rparr>)))
        (\<lambda>code e s2. close_all (rev cl) code e s2)) (\<lambda>c e u. frame s u)"
      by (rule ends_bind [where R = "\<lambda>c e u. frame s u"])
        (use u inner close_frame in \<open>auto simp: Let_def split: option.split\<close>)
  qed
qed

lemma exec_framed:
  fixes L :: "'x library"
  shows "framed (exec_stmt L n)"
proof (induction n)
  case (Suc n)
  show ?case
    unfolding framed_def
  proof (intro allI)
    fix x :: "'x stmt" and pa io and s :: "'x shell"
    have "frame s (s\<lparr>sh_subStatus := 0\<rparr>)" by simp
    then show "ends (exec_stmt L (Suc n) x pa io s) (\<lambda>c e t. frame s t)"
      using stmt_rest_frame [OF Suc]
      by (auto simp: stmtWithPipe_def Let_def intro!: framing.fields_ends [of s]
          split: option.split cmd.split sum.split)
  qed
qed (simp add: framed_def)

end
