(* ===== verification/ShellLaws.thy ===== *)
theory ShellLaws
  imports ShellExec "HOL-Library.Multiset"
begin

text \<open>
  What holds of every execution of the interpreter, proved once for any predicate on processes
  that is closed under the operations the interpreter builds processes with.  The locale
  \<open>proc_laws\<close> is that contract; \<open>interp\<close> adds which statements may be executed.  The
  predicates of \<open>ShellSafe\<close> and \<open>ShellRun\<close> are its instances: files are closed, nothing
  panics, the fuel suffices.

  A predicate \<open>Q M p\<close> speaks of a process that still has to close the files \<open>M\<close>.
\<close>

section \<open>Statements that may be executed\<close>

text \<open>The statements directly in a command, without those in its words and its \<open>else\<close> part.\<close>

fun cmd_stmts :: "'x cmd \<Rightarrow> 'x stmt list" where
  "cmd_stmts (Block stmts) = stmts"
| "cmd_stmts (Subshell stmts) = stmts"
| "cmd_stmts (BinaryCmd bop x y) = [x, y]"
| "cmd_stmts (IfClause cond thn els) = cond @ thn"
| "cmd_stmts (ForClause select loop body) = body"
| "cmd_stmts (WhileClause until cond body) = cond @ body"
| "cmd_stmts (FuncDecl name (Some body)) = [body]"
| "cmd_stmts _ = []"

text \<open>All statements an expansion runs, and its value, satisfy a predicate.\<close>

primrec exp_all :: "('x stmt \<Rightarrow> bool) \<Rightarrow> ('r \<Rightarrow> bool) \<Rightarrow> ('x, 'r) expansion \<Rightarrow> bool" where
  "exp_all G V (Value r) = V r"
| "exp_all G V (Raise e) = True"
| "exp_all G V (Yield f t) = exp_all G V t"
| "exp_all G V (GetVar x f) = (\<forall>a. exp_all G V (f a))"
| "exp_all G V (SetVar x v f) = (\<forall>a. exp_all G V (f a))"
| "exp_all G V (EachVar f) = (\<forall>a. exp_all G V (f a))"
| "exp_all G V (ListDir p f) = (\<forall>a. exp_all G V (f a))"
| "exp_all G V (CmdSubst stmts f) = ((\<forall>s \<in> set stmts. G s) \<and> (\<forall>a. exp_all G V (f a)))"

definition seq_all :: "('x stmt \<Rightarrow> bool) \<Rightarrow> ('x, ('x, unit) expansion) expansion \<Rightarrow> bool" where
  "seq_all G = exp_all G (exp_all G (\<lambda>_. True))"

abbreviation one_all :: "('x stmt \<Rightarrow> bool) \<Rightarrow> ('x, 'r) expansion \<Rightarrow> bool" where
  "one_all G \<equiv> exp_all G (\<lambda>_. True)"

fun cmd_exps :: "'x library \<Rightarrow> ('x stmt \<Rightarrow> bool) \<Rightarrow> 'x cmd \<Rightarrow> bool" where
  "cmd_exps L G (CallExpr assigns words) =
     (seq_all G (ex_FieldsSeq L words) \<and> (\<forall>a \<in> set assigns. one_all G (ex_Literal L (as_Value a))))"
| "cmd_exps L G (ForClause select (WordIter x (Some words)) body) = seq_all G (ex_FieldsSeq L words)"
| "cmd_exps L G (DeclClause variant args) =
     (\<forall>a. DeclAssign a \<in> set args \<longrightarrow> one_all G (ex_Literal L (as_Value a)))"
| "cmd_exps L G (ArithmCmd x) = one_all G (ex_Arithm L x)"
| "cmd_exps L G _ = True"

definition redir_exps :: "'x library \<Rightarrow> ('x stmt \<Rightarrow> bool) \<Rightarrow> 'x redirect \<Rightarrow> bool" where
  "redir_exps L G rd =
     (one_all G (ex_Document L (rd_Hdoc rd)) \<and> one_all G (ex_Document L (stripHeredocTabs (rd_Hdoc rd))) \<and>
      one_all G (ex_Literal L (Some (rd_Word rd))) \<and> seq_all G (ex_FieldsSeq L [rd_Word rd]))"

definition funcs_ok :: "('x stmt \<Rightarrow> bool) \<Rightarrow> 'x shell \<Rightarrow> bool" where
  "funcs_ok G s = (\<forall>f b. map_of (sh_funcs s) f = Some (Some b) \<longrightarrow> G b)"

lemma funcs_ok_simps [simp]:
  "funcs_ok G (s\<lparr>sh_vars := vs\<rparr>) = funcs_ok G s" "funcs_ok G (s\<lparr>sh_status := n\<rparr>) = funcs_ok G s"
  "funcs_ok G (s\<lparr>sh_subStatus := n\<rparr>) = funcs_ok G s" "funcs_ok G (s\<lparr>sh_args := as\<rparr>) = funcs_ok G s"
  "funcs_ok G (s\<lparr>sh_depth := d\<rparr>) = funcs_ok G s" "funcs_ok G (s\<lparr>sh_Cwd := cwd\<rparr>) = funcs_ok G s"
  "funcs_ok G (s\<lparr>sh_Exited := x\<rparr>) = funcs_ok G s" "funcs_ok G (NewShell cwd env)"
  "funcs_ok G (snd (env_Set s k v)) = funcs_ok G s"
  by (simp_all add: funcs_ok_def NewShell_def)

section \<open>Closed predicates\<close>

text \<open>The name of a file directly below a directory of commands has no slash.\<close>

lemma split_slashes: "\<forall>c \<in> set p. c = slash \<Longrightarrow> set (go_split slash p) = {[]}"
  by (induction p) auto

lemma clean_empty: "\<forall>e \<in> set es. e = [] \<Longrightarrow> foldl (clean_step b) st es = st"
  by (induction es) auto

lemma path_dir_slashes:
  assumes "\<forall>c \<in> set p. c = slash" "p \<noteq> []"
  shows "path_dir p = ''/''"
proof -
  have "dropWhile (\<lambda>c. c \<noteq> slash) (rev p) = rev p"
    using bspec [OF assms(1) last_in_set [OF assms(2)]] by (simp add: dropWhile_eq_self_iff hd_rev)
  then have d: "path_dir p = path_clean p" by (simp add: path_dir_def)
  have pre: "has_prefix p ''/''" using bspec [OF assms(1) hd_in_set [OF assms(2)]] assms(2) by (cases p) simp_all
  have "clean_elems True (go_split slash p) = []"
    unfolding clean_elems_def by (subst clean_empty) (simp_all add: split_slashes [OF assms(1)])
  then show ?thesis using d pre assms(2) unfolding path_clean_def Let_def by (simp only: if_True if_False go_join.simps append_Nil2)
qed

lemma base_below_bin:
  assumes "path_dir p = ''/bin'' \<or> path_dir p = ''/usr/bin''"
  shows "slash \<notin> set (path_base p)"
proof (cases "p = []")
  case False
  have "path_dir p \<noteq> ''/''" using assms by (rule disjE) simp_all
  then have "\<not> (\<forall>c \<in> set p. c = slash)" using path_dir_slashes [OF _ False] by blast
  then have "dropWhile (\<lambda>c. c = slash) (rev p) \<noteq> []" by (simp add: dropWhile_eq_Nil_conv)
  then have "takeWhile (\<lambda>c. c \<noteq> slash) (dropWhile (\<lambda>c. c = slash) (rev p)) \<noteq> []"
    using hd_dropWhile by (metis takeWhile_eq_Nil_iff)
  then show ?thesis
    using False by (auto simp: path_base_def Let_def dest: set_takeWhileD)
qed (simp add: path_base_def)

locale proc_laws =
  fixes Q :: "obj multiset \<Rightarrow> 'x proc \<Rightarrow> bool"
    and J :: "'x shell \<Rightarrow> bool"
  assumes ret: "J s \<Longrightarrow> Q {#} (done_with c e s)"
    and step: "(\<And>a. Q M (f a)) \<Longrightarrow> Q M (PStep f)"
    and ctx: "(\<And>a. Q M (f a)) \<Longrightarrow> Q M (PCtxErr f)"
    and stat: "(\<And>a. Q M (f1 a)) \<Longrightarrow> Q M (PStat n f1)"
    and readdir: "(\<And>a. Q M (f2 a)) \<Longrightarrow> Q M (PReadDir n f2)"
    and open_file: "(\<And>e. Q M (f3 (Inl e))) \<Longrightarrow> (\<And>h w. Q (add_mset h M) (f3 (Inr (h, w)))) \<Longrightarrow>
      Q M (POpen n fl pm f3)"
    and put: "(\<And>a. Q M (f a)) \<Longrightarrow> Q M (PWrite h t f)"
    and close: "(\<And>a. Q M (f a)) \<Longrightarrow> Q (add_mset h M) (PClose h f)"
    and readall: "(\<And>a. Q M (f4 a)) \<Longrightarrow> Q M (PReadAll h i f4)"
    and reader: "(\<And>a. Q M (f5 a)) \<Longrightarrow> Q M (PReader t f5)"
    and bounded: "(\<And>a. Q M (f5 a)) \<Longrightarrow> Q M (PBounded i f5)"
    and result: "(\<And>a. Q M (f4 a)) \<Longrightarrow> Q M (PBoundedResult h f4)"
    and pipe: "(\<And>a. Q M (f6 a)) \<Longrightarrow> Q M (PPipe f6)"
    and close_pipe: "Q M p \<Longrightarrow> Q M (PClosePipe h e p)"
    and exec: "slash \<notin> set name \<Longrightarrow> map_of env ''PWD'' = Some cwd \<Longrightarrow> (\<And>a. Q M (f7 a)) \<Longrightarrow>
      Q M (PExec cwd (name # rest) env io f7)"
    and par: "Q {#} p \<Longrightarrow> Q {#} q \<Longrightarrow> (\<And>a. Q M (f8 a)) \<Longrightarrow> Q M (PPar p q f8)"
    and bind: "Q {#} p \<Longrightarrow> (\<And>c e s. J s \<Longrightarrow> Q M (k c e s)) \<Longrightarrow> Q M (pbind p k)"
begin

lemmas intros = step ctx stat readdir put readall reader bounded result pipe close_pipe

end

locale interp = proc_laws Q "funcs_ok G"
  for Q :: "obj multiset \<Rightarrow> 'x proc \<Rightarrow> bool" and G :: "'x stmt \<Rightarrow> bool" +
  fixes L :: "'x library" and GC :: "'x cmd \<Rightarrow> bool"
  assumes cmd: "G x \<Longrightarrow> st_Cmd x = Some c \<Longrightarrow> GC c"
    and redirs: "G x \<Longrightarrow> rd \<in> set (st_Redirs x) \<Longrightarrow> redir_exps L G rd"
    and sub: "GC c \<Longrightarrow> x \<in> set (cmd_stmts c) \<Longrightarrow> G x"
    and els: "GC (IfClause cond thn (Some c)) \<Longrightarrow> GC c"
    and exps: "GC c \<Longrightarrow> cmd_exps L G c"
    and parsed: "Parse L src = Inr fl \<Longrightarrow> x \<in> set fl \<Longrightarrow> G x"
    and panic_loop: "GC (ForClause select (CStyleLoop a) body) \<Longrightarrow> Q M (PRet Panicked)"
    and panic_func: "GC (FuncDecl None fbody) \<Longrightarrow> Q M (PRet Panicked)"
begin

abbreviation (input) "J \<equiv> funcs_ok G"

text \<open>An executor, or a runner of lists, all of whose processes satisfy the predicate.\<close>

definition ok_exec :: "'x executor \<Rightarrow> bool" where
  "ok_exec st = (\<forall>x pa io s. G x \<longrightarrow> J s \<longrightarrow> Q {#} (st x pa io s))"

definition ok_run :: "'x runner \<Rightarrow> bool" where
  "ok_run run = (\<forall>xs io s. (\<forall>x \<in> set xs. G x) \<longrightarrow> J s \<longrightarrow> Q {#} (run xs io s))"

lemma list_loop:
  "ok_exec st \<Longrightarrow> \<forall>x \<in> set xs. G x \<Longrightarrow> J s \<Longrightarrow> Q {#} (list_loop st code xs io s)"
proof (induction xs arbitrary: code s)
  case (Cons x xs)
  have "Q {#} (st x False io s)" using Cons.prems by (simp add: ok_exec_def)
  then show ?case
    unfolding list_loop.simps by (rule bind) (auto simp: Let_def ret Cons split: option.split)
qed (simp add: ret)

lemma ok_list: "ok_exec st \<Longrightarrow> ok_run (sh_list st)"
  by (simp add: ok_run_def sh_list_def list_loop)

text \<open>Expansions: every continuation gets a shell whose functions are good.\<close>

lemma run_exp:
  assumes run: "ok_run run"
    and emit: "\<And>f a c. (\<And>r. Q M (c r)) \<Longrightarrow> Q M (emit f a c)"
  shows "exp_all G V t \<Longrightarrow> J s \<Longrightarrow>
    (\<And>r a s. J s \<Longrightarrow> (\<And>v. r = Inr v \<Longrightarrow> V v) \<Longrightarrow> Q M (k r a s)) \<Longrightarrow>
    Q M (run_exp run io glob emit t a s k)"
proof (induction t arbitrary: a s)
  case (Yield f t)
  have "Q M (case r of Inl e \<Rightarrow> k (Inl e) a s | Inr a' \<Rightarrow> run_exp run io glob emit t a' s k)" for r
  proof (cases r)
    case (Inl e)
    then show ?thesis using Yield.prems(3) [OF Yield.prems(2), of "Inl e" a] by simp
  next
    case (Inr a')
    then show ?thesis using Yield.IH [OF _ Yield.prems(2,3), of a'] Yield.prems(1) by simp
  qed
  then show ?case by (simp add: emit)
next
  case (SetVar x v f)
  then show ?case using funcs_ok_simps(9) [of G s x v] by (auto simp: Let_def case_prod_beta)
next
  case (ListDir p f)
  then show ?case
    by (auto simp: config_ReadDir2_def intro!: intros split: option.split)
next
  case (CmdSubst stmts f)
  let ?child = "s\<lparr>sh_depth := sh_depth s + 1\<rparr>"
  have k: "Q M (run_exp run io glob emit (f r) a s' k)" if "J s'" for r s'
  proof -
    have "exp_all G V (f r)" using CmdSubst.prems(1) unfolding exp_all.simps by blast
    then show ?thesis using CmdSubst.IH [of "f r" s' a] CmdSubst.prems(3) that by simp
  qed
  have "Q {#} (run stmts io' ?child)" for io'
    using CmdSubst.prems run by (simp add: ok_run_def)
  then have "Q M (pbind (run stmts (io\<lparr>io_Out := out\<rparr>) ?child) (\<lambda>code e child'.
      PBoundedResult out (\<lambda>(text, werr).
        run_exp run io glob emit (f (text, if werr \<noteq> None then werr else drop_flow ''exit'' e)) a
          (s\<lparr>sh_subStatus := code\<rparr>) k)))" for out
    using CmdSubst.prems(2) by (intro bind result) (simp_all add: k case_prod_beta)
  then show ?case
    using CmdSubst.prems(2) by (simp add: config_CmdSubst_def Let_def k bounded)
next
  case (Value v)
  then show ?case by (metis run_exp.simps(1) exp_all.simps(1) Inr_inject)
next
  case (Raise e)
  then show ?case by (metis run_exp.simps(2) Inl_Inr_False)
qed simp_all

lemma run_one:
  assumes "ok_run run" "one_all G t" "J s" "\<And>r s. J s \<Longrightarrow> Q M (k r s)"
  shows "Q M (run_one run io t s k)"
  unfolding run_one_def by (rule run_exp [OF assms(1) _ assms(2,3)]) (simp_all add: assms(4))

lemma take_field: "(\<And>r. Q M (c r)) \<Longrightarrow> Q M (take_field f a c)"
  by (auto simp: take_field_def Let_def case_prod_beta intro!: intros split: option.split)

lemma fields:
  assumes "ok_run run" "seq_all G (ex_FieldsSeq L ws)" "J s" "\<And>r s. J s \<Longrightarrow> Q M (k r s)"
  shows "Q M (sh_fields L run ws io s k)"
  unfolding sh_fields_def
proof (rule run_exp [OF assms(1) _ assms(2) [unfolded seq_all_def] assms(3)], goal_cases emit step)
  case (step r a s')
  show ?case
  proof (cases r)
    case (Inr sq)
    then have sq: "exp_all G (\<lambda>_. True) sq" using step(2) by simp
    have "Q M (run_exp run io False take_field sq ([], 0) s' (\<lambda>r a s2.
        case r of Inl e \<Rightarrow> k (Inl e) s2 | Inr u \<Rightarrow> k (Inr (fst a)) s2))"
      by (rule run_exp [OF assms(1) take_field sq step(1)]) (simp_all add: assms(4) split: sum.split)
    then show ?thesis using Inr by simp
  qed (simp add: assms(4) step(1))
qed simp

lemma assign:
  assumes "ok_run run" "one_all G (ex_Literal L (as_Value a))" "J s" "\<And>e s. J s \<Longrightarrow> Q M (k e s)"
  shows "Q M (sh_assign L run a export io s k)"
  unfolding sh_assign_def
  by (rule run_one [OF assms(1-3)])
    (auto simp: Let_def case_prod_beta assms(4) split: sum.split)

text \<open>A redirection that opens a file leaves it to be closed.\<close>

lemma redirect:
  assumes run: "ok_run run"
  shows "\<forall>rd \<in> set rds. redir_exps L G rd \<Longrightarrow> J s \<Longrightarrow>
    (\<And>io cl' e s. J s \<Longrightarrow> Q (mset cl' + M) (k io (cl @ cl') e s)) \<Longrightarrow>
    Q M (sh_redirect L run rds io cl s k)"
proof (induction rds arbitrary: M io cl s)
  case Nil
  from Nil.prems(3) [of s "[]" io None] Nil.prems(2) show ?case by simp
next
  case (Cons rd rds)
  have rd: "one_all G (ex_Document L (rd_Hdoc rd))" "one_all G (ex_Document L (stripHeredocTabs (rd_Hdoc rd)))"
    "one_all G (ex_Literal L (Some (rd_Word rd)))" "seq_all G (ex_FieldsSeq L [rd_Word rd])"
    using Cons.prems(1) by (simp_all add: redir_exps_def)
  have k: "Q M (k io cl e s)" if "J s" for io e s
    using Cons.prems(3) [OF that, of "[]"] by simp
  have k1: "Q (add_mset f M) (k io (cl @ [f]) e s)" if "J s" for io e s f
    using Cons.prems(3) [OF that, of "[f]"] by simp
  have rec: "Q M (sh_redirect L run rds io cl s k)" if "J s" for io s
    using Cons.IH [OF _ that] Cons.prems(1,3) by simp
  have rec1: "Q (add_mset f M) (sh_redirect L run rds io (cl @ [f]) s k)" if "J s" for io s f
  proof (rule Cons.IH [OF _ that])
    fix io cl' e s
    assume "J s"
    from Cons.prems(3) [OF this, of "f # cl'"] show "Q (mset cl' + add_mset f M) (k io ((cl @ [f]) @ cl') e s)"
      by simp
  qed (use Cons.prems(1) in simp)
  have opened: "Q (add_mset f M) (case attach rop fd f isw io of
      Inl e \<Rightarrow> k io (cl @ [f]) (Some e) s | Inr io' \<Rightarrow> sh_redirect L run rds io' (cl @ [f]) s k)"
    if "J s" for rop fd f isw s
    using k1 [OF that] rec1 [OF that] by (simp split: sum.split)
  show ?case
    unfolding sh_redirect.simps Let_def
    by (auto simp: k rec opened rd Cons.prems(2) intro!: run_one [OF run] fields [OF run] intros open_file
        split: sum.split option.split)
qed

lemma close_all: "J s \<Longrightarrow> Q (mset fs) (close_all fs code e s)"
proof (induction fs arbitrary: code e)
  case (Cons f fs)
  then show ?case by (auto intro!: close split: option.split)
qed (simp add: ret)

text \<open>Builtins and external commands run no statements, except for \<open>sh -c\<close>.\<close>

lemma cd: "J s \<Longrightarrow> Q {#} (builtin_cd L args io s)"
  by (auto simp: builtin_cd_def Let_def intro!: intros ret)

lemma pwd: "J s \<Longrightarrow> Q {#} (builtin_pwd args io s)"
  by (auto simp: builtin_pwd_def intro!: intros ret)

lemma exit: "J s \<Longrightarrow> Q {#} (builtin_exit args s)"
  by (auto simp: builtin_exit_def intro!: ret split: prod.split option.split)

lemma nested:
  assumes "ok_run run" "J s"
  shows "Q {#} (nested_shell L run args io s)"
proof -
  have "Q {#} (pbind (run fl io c) (\<lambda>code e child. done_with code (drop_flow ''exit'' e) s))"
    if "Parse L (args ! 2) = Inr fl" "J c" for fl c
    by (rule bind) (use assms that parsed in \<open>auto simp: ok_run_def intro!: ret\<close>)
  then show ?thesis
    using assms(2) by (auto simp: nested_shell_def Let_def intro!: ret intros split: sum.split)
qed

lemma find_command: "(\<And>b. Q M (k b)) \<Longrightarrow> Q M (find_command s name dirs k)"
  by (induction dirs) (auto simp: Let_def intro!: intros)

lemma run_external: "J s \<Longrightarrow> slash \<notin> set name \<Longrightarrow> Q {#} (run_external L name rest io s)"
  unfolding run_external_def by (rule exec) (auto simp: update_conv' intro: ret)

lemma external: "J s \<Longrightarrow> Q {#} (sh_external L args io s)"
  by (auto simp: sh_external_def not_found_def Let_def base_below_bin
      intro!: intros ret find_command run_external)

lemma xargs_loop: "J s \<Longrightarrow> Q {#} (xargs_loop L x c io child bs status s)"
proof (induction bs arbitrary: status s)
  case (Cons b bs)
  have "Q {#} (pbind (sh_external L argv child s) (\<lambda>code e s. case e of
      Some err \<Rightarrow> done_with code (Some err) s
    | None \<Rightarrow> if code = 126 \<or> code = 127 then done_with code None s
        else if code = 255 then PWrite (io_Err io)
          (''xargs: '' @ hd argv @ '': exited with status 255; aborting'' @ [newline]) (\<lambda>_. done_with 124 None s)
        else xargs_loop L x c io child bs (if code \<noteq> 0 then 123 else status) s))" for argv
    by (rule bind [OF external [OF Cons.prems]]) (auto intro!: ret intros Cons.IH split: option.split)
  then show ?case using Cons.prems by (auto simp: Let_def intro!: intros ret split: option.split)
qed (simp add: ret)

lemma xargs: "J s \<Longrightarrow> Q {#} (sh_xargs L args io s)"
  by (auto simp: sh_xargs_def xargs_fail_def intro!: intros ret xargs_loop split: sum.split option.split)

lemma builtin:
  assumes "ok_run run" "J s"
  shows "Q {#} (sh_builtin L run args io s)"
proof -
  have choice: "Q {#} (if P then a else b)" if "Q {#} a" "Q {#} b" for P a b
    using that by simp
  show ?thesis
    unfolding sh_builtin_def Let_def
    by (intro choice ret cd pwd exit xargs external nested assms) (simp_all only: funcs_ok_simps assms)
qed

lemma invoke:
  assumes "ok_exec st" "J s"
  shows "Q {#} (sh_invoke L st args io s)"
proof -
  have "Q {#} (pbind (st body False io (s\<lparr>sh_args := as, sh_depth := d\<rparr>)) (\<lambda>code e s1.
      done_with code (drop_flow ''return'' e) (s1\<lparr>sh_args := sh_args s, sh_depth := sh_depth s1 - 1\<rparr>)))"
    if "map_of (sh_funcs s) (hd args) = Some (Some body)" for body as d
    by (rule bind) (use assms that in \<open>auto simp: ok_exec_def funcs_ok_def intro!: ret\<close>)
  then show ?thesis
    using builtin [OF ok_list] assms by (auto simp: sh_invoke_def intro!: ret split: option.split)
qed

lemma assign_all:
  "ok_run run \<Longrightarrow> \<forall>a \<in> set as. one_all G (ex_Literal L (as_Value a)) \<Longrightarrow> J s \<Longrightarrow>
   Q {#} (assign_all L run as io s)"
  by (induction as arbitrary: s) (auto intro!: ret assign split: option.split)

lemma prefix_assigns:
  "ok_run run \<Longrightarrow> \<forall>a \<in> set as. one_all G (ex_Literal L (as_Value a)) \<Longrightarrow> J s \<Longrightarrow>
   (\<And>b e s. J s \<Longrightarrow> Q M (k b e s)) \<Longrightarrow> Q M (prefix_assigns L run as io before s k)"
  by (induction as arbitrary: s before) (auto simp: Let_def intro!: assign split: option.split)

lemma call:
  assumes "ok_exec st" "\<forall>a \<in> set as. one_all G (ex_Literal L (as_Value a))" "J s"
  shows "Q {#} (sh_call L st as args io s)"
proof -
  have "Q {#} (pbind (case e of Some err \<Rightarrow> done_with 1 (Some err) s1 | None \<Rightarrow> sh_invoke L st args io s1)
      (\<lambda>code e s2. done_with code e (s2\<lparr>sh_vars := restore_vars b (sh_vars s2)\<rparr>)))"
    if "J s1" for e s1 b
    by (rule bind) (use that assms in \<open>auto intro!: ret invoke split: option.split\<close>)
  then show ?thesis
    using assms by (auto simp: sh_call_def intro!: assign_all invoke prefix_assigns ok_list ret)
qed

lemma export_all:
  "ok_run run \<Longrightarrow> \<forall>a. DeclAssign a \<in> set as \<longrightarrow> one_all G (ex_Literal L (as_Value a)) \<Longrightarrow> J s \<Longrightarrow>
   Q {#} (export_all L run as io s)"
  by (induction as arbitrary: s) (auto intro!: ret assign split: declarg.split option.split)

section \<open>Compound commands and statements\<close>

lemma for_loop:
  assumes "ok_exec st" "\<forall>x \<in> set body. G x"
  shows "J s \<Longrightarrow> Q {#} (for_loop st v items body io code s)"
proof (induction items arbitrary: code s)
  case (Cons i items)
  have "Q {#} (pbind (sh_list st body io (s\<lparr>sh_vars := vs\<rparr>)) (\<lambda>code e s1.
      if flow_kind e = Some ''break'' then done_with 0 None s1
      else if flow_kind e = Some ''continue'' then for_loop st v items body io code s1
      else if e \<noteq> None then done_with code e s1
      else for_loop st v items body io code s1))" for vs
    by (rule bind) (use ok_list [OF assms(1)] assms(2) Cons in \<open>auto simp: ok_run_def intro!: ret\<close>)
  then show ?case
    using Cons.prems by (auto intro!: intros ret split: option.split prod.split)
qed (simp add: ret)

lemma pipeline:
  assumes "ok_exec st" "G x" "G y" "J s"
  shows "Q {#} (sh_pipeline st pa x y io s)"
proof -
  have "Q {#} (pbind (st z b io' s) (\<lambda>code e s1. PClosePipe h (e1 e) (done_with code (e2 e) s1)))"
    if "G z" for z b io' h e1 e2
    by (rule bind) (use assms that in \<open>auto simp: ok_exec_def intro!: ret intros\<close>)
  then show ?thesis
    using assms by (auto simp: sh_pipeline_def intro!: intros par ret)
qed

lemma command:
  assumes st: "ok_exec st"
    and while: "\<And>until cond body s. \<forall>x \<in> set (cond @ body). G x \<Longrightarrow> J s \<Longrightarrow>
      Q {#} (while_loop st until cond body io n 0 s)"
  shows "(\<And>c. co = Some c \<Longrightarrow> GC c) \<Longrightarrow> J s \<Longrightarrow> Q {#} (sh_command L st n co io s)"
proof (induction "case co of None \<Rightarrow> 0 | Some c \<Rightarrow> size c" arbitrary: co s rule: less_induct)
  case less
  note J = less.prems(2)
  have lst: "\<And>xs io s. \<forall>x \<in> set xs. G x \<Longrightarrow> J s \<Longrightarrow> Q {#} (sh_list st xs io s)"
    using ok_list [OF st] by (simp add: ok_run_def)
  have one: "\<And>x pa io s. G x \<Longrightarrow> J s \<Longrightarrow> Q {#} (st x pa io s)"
    using st by (simp add: ok_exec_def)
  show ?case
  proof (cases co)
    case (Some c)
    then have gc: "GC c" using less.prems(1) by simp
    note subs = sub [OF gc] and ex = exps [OF gc]
    show ?thesis
    proof (cases c)
      case (Subshell stmts)
      show ?thesis unfolding Some Subshell sh_command.simps
        by (rule bind) (use lst subs J in \<open>auto simp: Subshell intro!: ret\<close>)
    next
      case (BinaryCmd bop x y)
      have "Q {#} (pbind (st x False io s) (\<lambda>code e s1.
          if e \<noteq> None then done_with code e s1
          else if bop = AndStmt \<and> code = 0 \<or> bop = OrStmt \<and> code \<noteq> 0 then st y False io s1
          else done_with code None s1))"
        by (rule bind) (use one subs J in \<open>auto simp: BinaryCmd intro!: ret\<close>)
      then show ?thesis using pipeline [OF st] subs J by (simp add: Some BinaryCmd)
    next
      case (IfClause cond thn els)
      have rest: "Q {#} (sh_command L st n (Some c') io s1)" if e: "els = Some c'" and J1: "J s1" for c' s1
      proof -
        have "GC (IfClause cond thn (Some c'))" using gc IfClause e by simp
        then have "GC c'" by (rule els)
        then show ?thesis using less.hyps [of "Some c'" s1] J1 by (simp add: Some IfClause e)
      qed
      show ?thesis unfolding Some IfClause sh_command.simps
        by (rule bind) (use lst subs J rest in \<open>auto simp: IfClause intro!: ret split: option.split\<close>)
    next
      case (ForClause select loop body)
      have body: "\<forall>x \<in> set body. G x" using subs by (simp add: ForClause)
      show ?thesis
      proof (cases loop)
        case (WordIter x words)
        then show ?thesis
          using J ex by (cases words)
            (auto simp: Some ForClause intro!: for_loop [OF st body] fields [OF ok_list [OF st]] ret split: sum.split)
      next
        case (CStyleLoop x)
        then show ?thesis using panic_loop gc by (simp add: Some ForClause)
      qed
    next
      case (FuncDecl name fbody)
      have "J (s\<lparr>sh_funcs := AList.update f fbody (sh_funcs s)\<rparr>)" for f
        using J subs by (cases fbody) (auto simp: funcs_ok_def FuncDecl update_conv')
      then show ?thesis
        using J panic_func gc by (cases name) (auto simp: Some FuncDecl intro!: ret)
    next
      case (WhileClause until cond body)
      then show ?thesis using while subs J by (simp add: Some)
    next
      case (DeclClause variant args)
      then show ?thesis using export_all [OF ok_list [OF st]] ex J by (simp add: Some)
    next
      case (ArithmCmd x)
      then show ?thesis using ex J
        by (auto simp: Some intro!: run_one [OF ok_list [OF st]] ret split: sum.split)
    next
      case (Block stmts)
      then show ?thesis using lst subs J by (simp add: Some)
    qed (simp_all add: Some ret J)
  qed (simp add: ret J)
qed

lemma stmt_rest:
  assumes st: "ok_exec st" and x: "G x" and J: "J s"
    and while: "\<And>until cond body io s. \<forall>x \<in> set (cond @ body). G x \<Longrightarrow> J s \<Longrightarrow>
      Q {#} (while_loop st until cond body io n 0 s)"
    and ca: "\<And>as args. ca = Some (as, args) \<Longrightarrow> \<forall>a \<in> set as. one_all G (ex_Literal L (as_Value a))"
  shows "Q {#} (stmt_rest L st n x pa io ca s)"
proof -
  have inner: "Q {#} (pbind (case ca of Some (as, args) \<Rightarrow> sh_call L st as args io s1
        | None \<Rightarrow> sh_command L st n (st_Cmd x) io s1) (\<lambda>code e s2.
          let code' = if st_Negated x \<and> e = None then (if code = 0 then 1 else 0) else code
          in done_with code' e (s2\<lparr>sh_status := code'\<rparr>)))" if "J s1" for io s1
    by (rule bind)
      (use that st ca cmd [OF x] while in \<open>auto simp: Let_def intro!: call command ret split: option.split\<close>)
  have all: "Q (mset cl) (pbind (case e of
        Some err \<Rightarrow> if errors_is err ErrLimit then done_with 1 (Some err) s1
          else PCtxErr (\<lambda>c. if c \<noteq> None then done_with 1 (Some err) s1
            else PWrite (io_Err io) (''shale: '' @ err_text err @ [newline]) (\<lambda>_. done_with 1 None s1))
      | None \<Rightarrow> let io3 = (if pa then io2\<lparr>io_Err := io_Out io2\<rparr> else io2)
          in pbind (case ca of Some (as, args) \<Rightarrow> sh_call L st as args io3 s1
              | None \<Rightarrow> sh_command L st n (st_Cmd x) io3 s1) (\<lambda>code e s2.
                let code' = if st_Negated x \<and> e = None then (if code = 0 then 1 else 0) else code
                in done_with code' e (s2\<lparr>sh_status := code'\<rparr>)))
      (\<lambda>code e s2. close_all (rev cl) code e s2))" if "J s1" for e s1 io2 cl
  proof (rule bind)
    show "Q (mset cl) (close_all (rev cl) c e s)" if "J s" for c e s
      using close_all [OF that, of "rev cl" c e] by simp
  qed (use that inner in \<open>auto simp: Let_def intro!: intros ret split: option.split\<close>)
  show ?thesis
    unfolding stmt_rest_def
    by (rule redirect [OF ok_list [OF st]]) (use redirs [OF x] J all in auto)
qed

lemma statement:
  assumes st: "ok_exec st" and x: "G x" and J: "J s"
    and while: "\<And>until cond body io s. \<forall>x \<in> set (cond @ body). G x \<Longrightarrow> J s \<Longrightarrow>
      Q {#} (while_loop st until cond body io n 0 s)"
  shows "Q {#} (case st_Cmd x of
      Some (CallExpr assigns words) \<Rightarrow>
        sh_fields L (sh_list st) words io (s\<lparr>sh_subStatus := 0\<rparr>) (\<lambda>r s1. case r of
          Inl err \<Rightarrow> done_with 1 (Some err) s1
        | Inr args \<Rightarrow> stmt_rest L st n x pa io (Some (assigns, args)) s1)
    | _ \<Rightarrow> stmt_rest L st n x pa io None (s\<lparr>sh_subStatus := 0\<rparr>))"
proof -
  have rest: "Q {#} (stmt_rest L st n x pa io ca s1)" if "J s1"
    "\<And>as args. ca = Some (as, args) \<Longrightarrow> \<forall>a \<in> set as. one_all G (ex_Literal L (as_Value a))" for ca s1
    by (rule stmt_rest [OF st x that(1) while that(2)])
  have "Q {#} (sh_fields L (sh_list st) words io (s\<lparr>sh_subStatus := 0\<rparr>) (\<lambda>r s1. case r of
      Inl err \<Rightarrow> done_with 1 (Some err) s1
    | Inr args \<Rightarrow> stmt_rest L st n x pa io (Some (assigns, args)) s1))"
    if "st_Cmd x = Some (CallExpr assigns words)" for assigns words
    using exps [OF cmd [OF x that]] J
    by (auto intro!: fields [OF ok_list [OF st]] ret rest split: sum.split)
  moreover have "Q {#} (stmt_rest L st n x pa io None (s\<lparr>sh_subStatus := 0\<rparr>))"
    by (rule rest) (use J in simp_all)
  ultimately show ?thesis by (auto split: option.split cmd.split)
qed

end

text \<open>The same without an upper bound on the steps of the run: the fuel may end.\<close>

locale interp_partial = interp +
  assumes out_of_fuel: "Q M (PRet OutOfFuel)"
begin

lemma while_loop:
  assumes st: "ok_exec st"
  shows "\<forall>x \<in> set (cond @ body). G x \<Longrightarrow> funcs_ok G s \<Longrightarrow> Q {#} (while_loop st until cond body io n code s)"
proof (induction n arbitrary: code s)
  case (Suc n)
  have lst: "Q {#} (sh_list st xs io s)" if "\<forall>x \<in> set xs. G x" "funcs_ok G s" for xs s
    using ok_list [OF st] that by (simp add: ok_run_def)
  have body: "Q {#} (pbind (sh_list st body io s1) (\<lambda>code e s2.
      if flow_kind e = Some ''break'' then done_with 0 None s2
      else if flow_kind e = Some ''continue'' then while_loop st until cond body io n code s2
      else if e \<noteq> None then done_with code e s2
      else while_loop st until cond body io n code s2))" if "funcs_ok G s1" for s1
    by (rule bind) (use lst that Suc in \<open>auto intro!: ret\<close>)
  have "Q {#} (pbind (sh_list st cond io s) (\<lambda>c e s1.
      if e \<noteq> None then done_with c e s1
      else if (c = 0) = until then done_with code None s1
      else pbind (sh_list st body io s1) (\<lambda>code e s2.
        if flow_kind e = Some ''break'' then done_with 0 None s2
        else if flow_kind e = Some ''continue'' then while_loop st until cond body io n code s2
        else if e \<noteq> None then done_with code e s2
        else while_loop st until cond body io n code s2)))"
    by (rule bind) (use lst body Suc.prems in \<open>auto intro!: ret\<close>)
  then show ?case using Suc.prems by (auto intro!: intros ret split: option.split)
qed (simp add: out_of_fuel)

lemma exec_ok: "ok_exec (exec_stmt L n)"
proof (induction n)
  case (Suc n)
  show ?case
    unfolding ok_exec_def exec_stmt.simps stmtWithPipe_def Let_def
  proof (intro allI impI step)
    fix x pa io s a
    assume x: "G x" and J: "funcs_ok G s"
    note body = statement [OF Suc x J while_loop [OF Suc], of n pa io]
    show "Q {#} (case a of Some err \<Rightarrow> done_with 1 (Some err) s | None \<Rightarrow>
        case st_Cmd x of
          Some (CallExpr assigns words) \<Rightarrow>
            sh_fields L (sh_list (exec_stmt L n)) words io (s\<lparr>sh_subStatus := 0\<rparr>) (\<lambda>r s1. case r of
              Inl err \<Rightarrow> done_with 1 (Some err) s1
            | Inr args \<Rightarrow> stmt_rest L (exec_stmt L n) n x pa io (Some (assigns, args)) s1)
        | _ \<Rightarrow> stmt_rest L (exec_stmt L n) n x pa io None (s\<lparr>sh_subStatus := 0\<rparr>))"
      by (cases a) (simp_all only: option.simps body ret [OF J])
  qed
qed (simp add: ok_exec_def out_of_fuel)

lemma Run_ok: "funcs_ok G s \<Longrightarrow> Q {#} (sh_Run L n src io s)"
proof -
  assume J: "funcs_ok G s"
  have "Q {#} (pbind (sh_list (exec_stmt L n) fl io (s\<lparr>sh_Exited := False\<rparr>)) (\<lambda>code e s1.
      case (case e of None \<Rightarrow> None | Some err \<Rightarrow> as_flow err) of
        Some (kind, c) \<Rightarrow> if kind = ''exit'' then done_with c None (s1\<lparr>sh_Exited := True\<rparr>) else done_with code e s1
      | None \<Rightarrow> done_with code e s1))" if "Parse L src = Inr fl" for fl
  proof (rule bind)
    show "Q {#} (sh_list (exec_stmt L n) fl io (s\<lparr>sh_Exited := False\<rparr>))"
      using ok_list [OF exec_ok, of n] parsed [OF that] J by (simp add: ok_run_def)
  qed (auto intro!: ret split: option.split)
  then show ?thesis using J by (auto simp: sh_Run_def Let_def intro!: ret split: sum.split)
qed

end

end
