(* ===== verification/ShellSafe.thy ===== *)
theory ShellSafe
  imports ShellLaws
begin

text \<open>
  Three predicates on processes and the laws of \<open>ShellLaws\<close> for each: every file that is
  opened is closed exactly once (\<open>tidy\<close>), no Go panic happens (\<open>calm\<close>), and the fuel of the
  model suffices for a number of steps of the run (\<open>fuel_ok\<close>).
\<close>

section \<open>Files are closed\<close>

text \<open>
  \<open>tidy p M\<close>: with the files \<open>M\<close> still open, \<open>p\<close> closes each of them and each file it
  opens exactly once, and nothing else, whatever the world answers.
\<close>

primrec tidy :: "'x proc \<Rightarrow> obj multiset \<Rightarrow> bool" where
  "tidy (PRet r) M = (case r of Done c e s \<Rightarrow> M = {#} | _ \<Rightarrow> True)"
| "tidy (PStep f) M = (\<forall>a. tidy (f a) M)"
| "tidy (PCtxErr f) M = (\<forall>a. tidy (f a) M)"
| "tidy (PStat n f) M = (\<forall>a. tidy (f a) M)"
| "tidy (PReadDir n f) M = (\<forall>a. tidy (f a) M)"
| "tidy (POpen n fl pm f) M =
     ((\<forall>e. tidy (f (Inl e)) M) \<and> (\<forall>h w. tidy (f (Inr (h, w))) (add_mset h M)))"
| "tidy (PWrite h t f) M = (\<forall>a. tidy (f a) M)"
| "tidy (PClose h f) M = (h \<in># M \<and> (\<forall>a. tidy (f a) (M - {#h#})))"
| "tidy (PReadAll h n f) M = (\<forall>a. tidy (f a) M)"
| "tidy (PReader t f) M = (\<forall>a. tidy (f a) M)"
| "tidy (PBounded n f) M = (\<forall>a. tidy (f a) M)"
| "tidy (PBoundedResult h f) M = (\<forall>a. tidy (f a) M)"
| "tidy (PPipe f) M = (\<forall>a. tidy (f a) M)"
| "tidy (PClosePipe h e p) M = tidy p M"
| "tidy (PExec cwd args env io f) M = (\<forall>a. tidy (f a) M)"
| "tidy (PPar p q f) M = (tidy p {#} \<and> tidy q {#} \<and> (\<forall>a. tidy (f a) M))"

lemma tidy_bind:
  "tidy p N \<Longrightarrow> (\<And>c e s. tidy (k c e s) M) \<Longrightarrow> tidy (pbind p k) (N + M)"
proof (induction p arbitrary: N)
  case (PClose h f)
  then obtain N' where "N = add_mset h N'" by (auto dest: multi_member_split)
  then show ?case using PClose by auto
next
  case (POpen n fl pm f)
  have "tidy (pbind (f (Inr (h, w))) k) (add_mset h N + M)" for h w
    using POpen.IH [of "f (Inr (h, w))" "add_mset h N"] POpen.prems by simp
  then show ?case using POpen by auto
qed (auto split: outcome.split)

text \<open>Without restrictions on the statements.\<close>

lemma exp_all_True: "(\<And>v. V v) \<Longrightarrow> exp_all (\<lambda>_. True) V t"
  by (induction t) auto

lemma cmd_exps_True: "cmd_exps L (\<lambda>_. True) c"
  by (cases "(L, \<lambda>_ :: 'a stmt. True, c)" rule: cmd_exps.cases) (auto simp: seq_all_def exp_all_True)

lemma redir_exps_True: "redir_exps L (\<lambda>_. True) rd"
  by (simp add: redir_exps_def seq_all_def exp_all_True)

lemma funcs_ok_True: "funcs_ok (\<lambda>_. True) s"
  by (simp add: funcs_ok_def)

interpretation closing: interp_partial "\<lambda>M p. tidy p M" "\<lambda>_. True" L "\<lambda>_. True" for L
proof (unfold_locales, goal_cases)
  case (17 p M k)
  then show ?case using tidy_bind [of p "{#}" k M] by (simp add: funcs_ok_True)
qed (auto simp: cmd_exps_True redir_exps_True)

section \<open>Panics\<close>

primrec calm :: "('x shell \<Rightarrow> bool) \<Rightarrow> 'x proc \<Rightarrow> bool" where
  "calm J (PRet r) = (case r of Done c e s \<Rightarrow> J s | Panicked \<Rightarrow> False | OutOfFuel \<Rightarrow> True)"
| "calm J (PStep f) = (\<forall>a. calm J (f a))"
| "calm J (PCtxErr f) = (\<forall>a. calm J (f a))"
| "calm J (PStat n f) = (\<forall>a. calm J (f a))"
| "calm J (PReadDir n f) = (\<forall>a. calm J (f a))"
| "calm J (POpen n fl pm f) = (\<forall>a. calm J (f a))"
| "calm J (PWrite h t f) = (\<forall>a. calm J (f a))"
| "calm J (PClose h f) = (\<forall>a. calm J (f a))"
| "calm J (PReadAll h n f) = (\<forall>a. calm J (f a))"
| "calm J (PReader t f) = (\<forall>a. calm J (f a))"
| "calm J (PBounded n f) = (\<forall>a. calm J (f a))"
| "calm J (PBoundedResult h f) = (\<forall>a. calm J (f a))"
| "calm J (PPipe f) = (\<forall>a. calm J (f a))"
| "calm J (PClosePipe h e p) = calm J p"
| "calm J (PExec cwd args env io f) = (\<forall>a. calm J (f a))"
| "calm J (PPar p q f) = (calm J p \<and> calm J q \<and> (\<forall>a. calm J (f a)))"

lemma calm_bind:
  "calm J p \<Longrightarrow> (\<And>c e s. J s \<Longrightarrow> calm J (k c e s)) \<Longrightarrow> calm J (pbind p k)"
  by (induction p) (auto split: outcome.split)

text \<open>
  The statements in a command and its \<open>else\<close> part, those its words may run, and the nodes the
  visitor of \<open>Parse\<close> tells apart.
\<close>

fun all_stmts :: "'x cmd \<Rightarrow> 'x stmt list" where
  "all_stmts (IfClause cond thn (Some c)) = cond @ thn @ all_stmts c"
| "all_stmts c = cmd_stmts c"

primrec exp_stmts :: "('r \<Rightarrow> 'x stmt set) \<Rightarrow> ('x, 'r) expansion \<Rightarrow> 'x stmt set" where
  "exp_stmts V (Value r) = V r"
| "exp_stmts V (Raise e) = {}"
| "exp_stmts V (Yield f t) = exp_stmts V t"
| "exp_stmts V (GetVar x f) = (\<Union>a. exp_stmts V (f a))"
| "exp_stmts V (SetVar x v f) = (\<Union>a. exp_stmts V (f a))"
| "exp_stmts V (EachVar f) = (\<Union>a. exp_stmts V (f a))"
| "exp_stmts V (ListDir p f) = (\<Union>a. exp_stmts V (f a))"
| "exp_stmts V (CmdSubst stmts f) = set stmts \<union> (\<Union>a. exp_stmts V (f a))"

abbreviation one_stmts :: "('x, 'r) expansion \<Rightarrow> 'x stmt set" where
  "one_stmts \<equiv> exp_stmts (\<lambda>_. {})"

abbreviation seq_stmts :: "('x, ('x, unit) expansion) expansion \<Rightarrow> 'x stmt set" where
  "seq_stmts \<equiv> exp_stmts one_stmts"

fun cmd_substs :: "'x library \<Rightarrow> 'x cmd \<Rightarrow> 'x stmt set" where
  "cmd_substs L (CallExpr assigns words) =
     seq_stmts (ex_FieldsSeq L words) \<union> (\<Union>a \<in> set assigns. one_stmts (ex_Literal L (as_Value a)))"
| "cmd_substs L (IfClause cond thn (Some c)) = cmd_substs L c"
| "cmd_substs L (ForClause select (WordIter x (Some words)) body) = seq_stmts (ex_FieldsSeq L words)"
| "cmd_substs L (DeclClause variant args) =
     (\<Union>a \<in> {a. DeclAssign a \<in> set args}. one_stmts (ex_Literal L (as_Value a)))"
| "cmd_substs L (ArithmCmd x) = one_stmts (ex_Arithm L x)"
| "cmd_substs L _ = {}"

definition redir_substs :: "'x library \<Rightarrow> 'x redirect \<Rightarrow> 'x stmt set" where
  "redir_substs L rd =
     one_stmts (ex_Document L (rd_Hdoc rd)) \<union> one_stmts (ex_Document L (stripHeredocTabs (rd_Hdoc rd))) \<union>
     one_stmts (ex_Literal L (Some (rd_Word rd))) \<union> seq_stmts (ex_FieldsSeq L [rd_Word rd])"

fun cmd_nodes :: "(string \<Rightarrow> bool) \<Rightarrow> 'x cmd \<Rightarrow> syn_node list" where
  "cmd_nodes V (CallExpr assigns words) = map (\<lambda>a. NAssign (as_Array a)) assigns"
| "cmd_nodes V (IfClause cond thn (Some c)) = NOther # cmd_nodes V c"
| "cmd_nodes V (ForClause select loop body) =
     [NForClause select (case loop of WordIter x ws \<Rightarrow> True | CStyleLoop x \<Rightarrow> False)]"
| "cmd_nodes V (FuncDecl name body) =
     [NFuncDecl (case name of Some f \<Rightarrow> V f \<and> body \<noteq> None | None \<Rightarrow> False)]"
| "cmd_nodes V (DeclClause variant args) = [NDeclClause variant]"
| "cmd_nodes V (OtherCmd kind xs stmts) = [NUnsupported kind]"
| "cmd_nodes V c = [NOther]"

definition stmt_nodes :: "(string \<Rightarrow> bool) \<Rightarrow> 'x stmt \<Rightarrow> syn_node list" where
  "stmt_nodes V x =
     NStmt (st_Background x) # (case st_Cmd x of None \<Rightarrow> [] | Some c \<Rightarrow> cmd_nodes V c) @
     map (\<lambda>rd. NRedirect (rd_Op rd) (rd_N rd)) (st_Redirs x)"

text \<open>The statements within a statement, at any depth.\<close>

inductive within :: "'x library \<Rightarrow> 'x stmt \<Rightarrow> 'x stmt \<Rightarrow> bool" for L where
  self: "within L x x"
| inner: "within L y z \<Longrightarrow> st_Cmd x = Some c \<Longrightarrow> y \<in> set (all_stmts c) \<union> cmd_substs L c \<Longrightarrow> within L x z"
| redir: "within L y z \<Longrightarrow> rd \<in> set (st_Redirs x) \<Longrightarrow> y \<in> redir_substs L rd \<Longrightarrow> within L x z"

text \<open>
  What is documented of \<open>syntax.Walk\<close>: it visits every node of the tree, those in words
  included, among which are the statements of the command substitutions an expansion runs.
\<close>

definition walks_all :: "'x library \<Rightarrow> bool" where
  "walks_all L =
     (\<forall>src fl x y nd. pa_Parse L src = Inr fl \<longrightarrow> x \<in> set fl \<longrightarrow> within L x y \<longrightarrow>
        nd \<in> set (stmt_nodes (pa_ValidName L) y) \<longrightarrow> nd \<in> set (enters (pa_Walk L fl)))"

definition good :: "'x library \<Rightarrow> 'x stmt \<Rightarrow> bool" where
  "good L x =
     (\<forall>y nd. within L x y \<longrightarrow> nd \<in> set (stmt_nodes (pa_ValidName L) y) \<longrightarrow> visit_node nd = None)"

definition good_cmd :: "'x library \<Rightarrow> 'x cmd \<Rightarrow> bool" where
  "good_cmd L c =
     ((\<forall>nd \<in> set (cmd_nodes (pa_ValidName L) c). visit_node nd = None) \<and>
      (\<forall>y \<in> set (all_stmts c) \<union> cmd_substs L c. good L y))"

lemma exp_all_stmts:
  "exp_stmts V t \<subseteq> {x. G x} \<Longrightarrow> (\<And>v. V v \<subseteq> {x. G x} \<Longrightarrow> W v) \<Longrightarrow> exp_all G W t"
proof (induction t)
  case (CmdSubst stmts f)
  have "exp_all G W (f a)" for a using CmdSubst.IH [of "f a"] CmdSubst.prems by (simp add: UN_subset_iff del: split_paired_All)
  then show ?case using CmdSubst.prems(1) by auto
qed (auto simp: UN_subset_iff)

lemma one_all_stmts: "one_stmts t \<subseteq> {x. G x} \<Longrightarrow> one_all G t"
  by (rule exp_all_stmts) auto

lemma seq_all_stmts: "seq_stmts t \<subseteq> {x. G x} \<Longrightarrow> seq_all G t"
  unfolding seq_all_def by (rule exp_all_stmts) (auto intro: one_all_stmts)

lemma good_cmdI:
  assumes "good L x" "st_Cmd x = Some c"
  shows "good_cmd L c"
  unfolding good_cmd_def
proof (intro conjI ballI)
  fix nd
  assume "nd \<in> set (cmd_nodes (pa_ValidName L) c)"
  then have "nd \<in> set (stmt_nodes (pa_ValidName L) x)" using assms(2) by (simp add: stmt_nodes_def)
  then show "visit_node nd = None" using assms(1) within.self unfolding good_def by blast
next
  fix y
  assume "y \<in> set (all_stmts c) \<union> cmd_substs L c"
  then show "good L y" using assms within.inner unfolding good_def by blast
qed

lemma good_redir:
  assumes "good L x" "rd \<in> set (st_Redirs x)"
  shows "redir_exps L (good L) rd"
proof -
  have "redir_substs L rd \<subseteq> {y. good L y}"
    using assms by (auto simp: good_def intro: within.redir)
  then show ?thesis
    unfolding redir_substs_def redir_exps_def by (auto intro: one_all_stmts seq_all_stmts)
qed

lemma good_cmd_exps: "good_cmd L c \<Longrightarrow> cmd_exps L (good L) c"
  by (cases "(L, c)" rule: cmd_substs.cases)
    (auto simp: good_cmd_def intro!: one_all_stmts seq_all_stmts)

lemma all_stmts_sub: "set (cmd_stmts c) \<subseteq> set (all_stmts c)"
  by (cases c rule: all_stmts.cases) auto

lemma Parse_good:
  "walks_all L \<Longrightarrow> Parse L src = Inr fl \<Longrightarrow> x \<in> set fl \<Longrightarrow> good L x"
  using Parse_accepts [of L src fl] unfolding walks_all_def good_def by blast

lemma calm_laws:
  assumes "walks_all L"
  shows "interp_partial (\<lambda>M p. calm (funcs_ok (good L)) p) (good L) L (good_cmd L)"
proof (unfold_locales, goal_cases)
  case (6 M f3 n fl pm)
  then show ?case using open_answers [of "calm (funcs_ok (good L))" f3] by simp
next
  case (17 p M k)
  then show ?case by (rule calm_bind)
next
  case (20 c x)
  then show ?case using all_stmts_sub [of c] by (auto simp: good_cmd_def)
next
  case (22 c)
  then show ?case by (rule good_cmd_exps)
qed (use assms in \<open>auto simp: good_cmdI good_redir Parse_good\<close>,
     auto simp: good_cmd_def)

section \<open>Fuel\<close>

text \<open>\<open>fuel_ok p k\<close>: \<open>p\<close> does not run out of fuel within \<open>k\<close> successful steps of the run.\<close>

primrec fuel_ok :: "'x proc \<Rightarrow> nat \<Rightarrow> bool" where
  "fuel_ok (PRet r) k = (r \<noteq> OutOfFuel)"
| "fuel_ok (PStep f) k = ((\<forall>e. fuel_ok (f (Some e)) k) \<and> (0 < k \<longrightarrow> fuel_ok (f None) (k - 1)))"
| "fuel_ok (PCtxErr f) k = (\<forall>a. fuel_ok (f a) k)"
| "fuel_ok (PStat n f) k = (\<forall>a. fuel_ok (f a) k)"
| "fuel_ok (PReadDir n f) k = (\<forall>a. fuel_ok (f a) k)"
| "fuel_ok (POpen n fl pm f) k = (\<forall>a. fuel_ok (f a) k)"
| "fuel_ok (PWrite h t f) k = (\<forall>a. fuel_ok (f a) k)"
| "fuel_ok (PClose h f) k = (\<forall>a. fuel_ok (f a) k)"
| "fuel_ok (PReadAll h n f) k = (\<forall>a. fuel_ok (f a) k)"
| "fuel_ok (PReader t f) k = (\<forall>a. fuel_ok (f a) k)"
| "fuel_ok (PBounded n f) k = (\<forall>a. fuel_ok (f a) k)"
| "fuel_ok (PBoundedResult h f) k = (\<forall>a. fuel_ok (f a) k)"
| "fuel_ok (PPipe f) k = (\<forall>a. fuel_ok (f a) k)"
| "fuel_ok (PClosePipe h e p) k = fuel_ok p k"
| "fuel_ok (PExec cwd args env io f) k = (\<forall>a. fuel_ok (f a) k)"
| "fuel_ok (PPar p q f) k = (fuel_ok p k \<and> fuel_ok q k \<and> (\<forall>a. fuel_ok (f a) k))"

lemma fuel_ok_mono: "fuel_ok p k \<Longrightarrow> j \<le> k \<Longrightarrow> fuel_ok p j"
proof (induction p arbitrary: j k)
  case (PStep f)
  have "fuel_ok (f None) (j - 1)" if "0 < j"
    using PStep.IH [of "f None" "k - 1" "j - 1"] PStep.prems that by simp
  moreover have "fuel_ok (f (Some e)) j" for e
    using PStep.IH [of "f (Some e)" k j] PStep.prems by simp
  ultimately show ?case by simp
qed (simp_all del: split_paired_All, (meson rangeI)+)

lemma fuel_ok_bind:
  "fuel_ok p k \<Longrightarrow> (\<And>c e s j. j \<le> k \<Longrightarrow> fuel_ok (g c e s) j) \<Longrightarrow> fuel_ok (pbind p g) k"
  by (induction p arbitrary: k) (auto split: outcome.split)

interpretation fueling: interp "\<lambda>M p. fuel_ok p k" "\<lambda>_. True" L "\<lambda>_. True" for k L
proof (unfold_locales, goal_cases)
  case (2 M f)
  then show ?case using fuel_ok_mono [of "f None" k "k - 1"] by simp
next
  case (17 p M g)
  then have "fuel_ok (g c e s) j" if "j \<le> k" for c e s j
    using that fuel_ok_mono [of "g c e s" k j] by (simp add: funcs_ok_True)
  then show ?case using 17(1) by (rule fuel_ok_bind [rotated])
next
  case (6 M f3 n fl pm)
  then show ?case using open_answers [of "\<lambda>p. fuel_ok p k" f3] by simp
qed (auto simp: cmd_exps_True redir_exps_True)

text \<open>
  With more fuel than there are steps left, the interpreter does not run out of it: nested
  statements and iterations take a step each.
\<close>

lemma ok_exec_mono: "fueling.ok_exec k st \<Longrightarrow> j \<le> k \<Longrightarrow> fueling.ok_exec j st"
  unfolding fueling.ok_exec_def using fuel_ok_mono by blast

lemma while_loop_fuel:
  "k < n \<Longrightarrow> (\<And>j. j < k \<Longrightarrow> fueling.ok_exec j st) \<Longrightarrow> fuel_ok (while_loop st until cond body io n code s) k"
proof (induction n arbitrary: k code s)
  case (Suc n)
  show ?case
  proof (cases "k = 0")
    case False
    have lst: "fuel_ok (sh_list st xs io s) j" if "j \<le> k - 1" for xs s j
    proof -
      have "fueling.ok_exec j st" using Suc.prems(2) [of j] that False by simp
      from fueling.ok_list [OF this] show ?thesis by (simp add: fueling.ok_run_def funcs_ok_True)
    qed
    have rec: "fuel_ok (while_loop st until cond body io n code s2) j" if "j \<le> k - 1" for code s2 j
      using Suc.IH [of j code s2] Suc.prems that False by simp
    have body: "fuel_ok (pbind (sh_list st body io s1) (\<lambda>code e s2.
        if flow_kind e = Some ''break'' then done_with 0 None s2
        else if flow_kind e = Some ''continue'' then while_loop st until cond body io n code s2
        else if e \<noteq> None then done_with code e s2
        else while_loop st until cond body io n code s2)) j" if "j \<le> k - 1" for s1 j
      by (rule fuel_ok_bind [OF lst [OF that]]) (use rec that in auto)
    have "fuel_ok (pbind (sh_list st cond io s) (\<lambda>c e s1.
        if e \<noteq> None then done_with c e s1
        else if (c = 0) = until then done_with code None s1
        else pbind (sh_list st body io s1) (\<lambda>code e s2.
          if flow_kind e = Some ''break'' then done_with 0 None s2
          else if flow_kind e = Some ''continue'' then while_loop st until cond body io n code s2
          else if e \<noteq> None then done_with code e s2
          else while_loop st until cond body io n code s2))) (k - 1)"
      by (rule fuel_ok_bind [OF lst]) (use body in simp_all)
    then show ?thesis by simp
  qed simp
qed simp

lemma exec_fuel: "k < n \<Longrightarrow> fueling.ok_exec k (exec_stmt L n)"
proof (induction n arbitrary: k)
  case (Suc n)
  show ?case
    unfolding fueling.ok_exec_def
  proof (intro allI impI)
    fix x :: "'a stmt" and pa io s
    have "fuel_ok (case st_Cmd x of
        Some (CallExpr assigns words) \<Rightarrow>
          sh_fields L (sh_list (exec_stmt L n)) words io (s\<lparr>sh_subStatus := 0\<rparr>) (\<lambda>r s1. case r of
            Inl err \<Rightarrow> done_with 1 (Some err) s1
          | Inr args \<Rightarrow> stmt_rest L (exec_stmt L n) n x pa io (Some (assigns, args)) s1)
      | _ \<Rightarrow> stmt_rest L (exec_stmt L n) n x pa io None (s\<lparr>sh_subStatus := 0\<rparr>)) (k - 1)" if "0 < k"
    proof (rule fueling.statement)
      show "fueling.ok_exec (k - 1) (exec_stmt L n)" using Suc that by simp
      show "fuel_ok (while_loop (exec_stmt L n) until cond body io n 0 s) (k - 1)" for until cond body io s
        by (rule while_loop_fuel) (use Suc that in simp_all)
    qed (simp_all add: funcs_ok_True)
    then show "fuel_ok (exec_stmt L (Suc n) x pa io s) k"
      by (auto simp: stmtWithPipe_def Let_def)
  qed
qed simp

lemma Run_fuel: "k < n \<Longrightarrow> fuel_ok (sh_Run L n src io s) k"
  unfolding sh_Run_def Let_def
  using fueling.ok_list [OF exec_fuel, of k n]
  by (auto simp: fueling.ok_run_def funcs_ok_True intro!: fuel_ok_bind split: sum.split option.split)

section \<open>Commands handed out\<close>

text \<open>
  Every command that is handed to the command handler has a name without a slash and gets the
  working directory as \<open>PWD\<close>.
\<close>

primrec named :: "'x proc \<Rightarrow> bool" where
  "named (PRet r) = True"
| "named (PStep f) = (\<forall>a. named (f a))"
| "named (PCtxErr f) = (\<forall>a. named (f a))"
| "named (PStat n f) = (\<forall>a. named (f a))"
| "named (PReadDir n f) = (\<forall>a. named (f a))"
| "named (POpen n fl pm f) = (\<forall>a. named (f a))"
| "named (PWrite h t f) = (\<forall>a. named (f a))"
| "named (PClose h f) = (\<forall>a. named (f a))"
| "named (PReadAll h n f) = (\<forall>a. named (f a))"
| "named (PReader t f) = (\<forall>a. named (f a))"
| "named (PBounded n f) = (\<forall>a. named (f a))"
| "named (PBoundedResult h f) = (\<forall>a. named (f a))"
| "named (PPipe f) = (\<forall>a. named (f a))"
| "named (PClosePipe h e p) = named p"
| "named (PExec cwd args env io f) =
     (args \<noteq> [] \<and> slash \<notin> set (hd args) \<and> map_of env ''PWD'' = Some cwd \<and> (\<forall>a. named (f a)))"
| "named (PPar p q f) = (named p \<and> named q \<and> (\<forall>a. named (f a)))"

lemma named_bind: "named p \<Longrightarrow> (\<And>c e s. named (k c e s)) \<Longrightarrow> named (pbind p k)"
  by (induction p) (auto split: outcome.split)

interpretation naming: interp_partial "\<lambda>M p. named p" "\<lambda>_. True" L "\<lambda>_. True" for L
proof (unfold_locales, goal_cases)
  case (6 M f3 n fl pm)
  then show ?case using open_answers [of named f3] by simp
next
  case (17 p M k)
  then show ?case by (intro named_bind) (simp_all add: funcs_ok_True)
qed (auto simp: cmd_exps_True redir_exps_True)

end
