(* ===== verification/ShellRun.thy ===== *)
theory ShellRun
  imports ShellSafe WasiSafe
begin

text \<open>
  Executions of the interpreter in a world: the run with its step counter (\<open>run\<close> in
  \<open>shell.go\<close>) and the namespace all shells of the run share.  A transition performs one call
  at the front of the process, of either stage of a pipeline; the context may end at any time.
  Calls on the namespace do what \<open>Namespace\<close> says.  Calls on open files and pipes, and
  commands, give any answer and change the world by any calls on the namespace (for a command
  that uses the WASI adapter, \<open>WasiSafe\<close> shows that they are such calls).  That such a call
  returns at all is an assumption of the model, not a result.
\<close>

section \<open>The step counter\<close>

record runstate =
  rn_ctx :: "goerr option"
  rn_steps :: int
  rn_maxSteps :: int

text \<open>\<open>run.step\<close>.\<close>

definition run_step :: "runstate \<Rightarrow> goerr option \<times> runstate" where
  "run_step r =
     (case rn_ctx r of
        Some e \<Rightarrow> (Some e, r)
      | None \<Rightarrow>
          let r' = r\<lparr>rn_steps := rn_steps r + 1\<rparr>
          in (if rn_maxSteps r' < rn_steps r' then Some ErrLimit else None, r'))"

definition elapse :: "runstate \<Rightarrow> runstate \<Rightarrow> bool" where
  "elapse r r' = (r' = r \<or> rn_ctx r = None \<and> (\<exists>e. r' = r\<lparr>rn_ctx := Some e\<rparr>))"

text \<open>How many steps may still succeed.\<close>

definition steps_left :: "runstate \<Rightarrow> nat" where
  "steps_left r = nat (rn_maxSteps r - rn_steps r)"

lemma elapse_left: "elapse r r' \<Longrightarrow> steps_left r' = steps_left r"
  by (auto simp: elapse_def steps_left_def)

lemma run_step_left:
  "run_step r = (Some e, r') \<Longrightarrow> steps_left r' \<le> steps_left r"
  "run_step r = (None, r') \<Longrightarrow> 0 < steps_left r \<and> steps_left r' = steps_left r - 1"
  by (auto simp: run_step_def steps_left_def Let_def split: option.splits if_splits)

section \<open>Transitions\<close>

type_synonym ('x, 'w) config = "'x proc \<times> runstate \<times> 'w world"

inductive proc_step :: "('w, 'h) namespace \<Rightarrow> ('x, 'w) config \<Rightarrow> ('x, 'w) config \<Rightarrow> bool" for ns where
  step: "elapse r r1 \<Longrightarrow> run_step r1 = (e, r2) \<Longrightarrow> proc_step ns (PStep f, r, w) (f e, r2, w)"
| ctx: "elapse r r1 \<Longrightarrow> proc_step ns (PCtxErr f, r, w) (f (rn_ctx r1), r1, w)"
| stat: "proc_step ns (PStat n f, r, w) (f (fst (ns_Stat ns n w)), r, snd (ns_Stat ns n w))"
| readdir: "ns_ReadDir ns n w = (Inr es, w') \<Longrightarrow> proc_step ns (PReadDir n f, r, w) (f (es, None), r, w')"
| readdir_err: "ns_ReadDir ns n w = (Inl e, w') \<Longrightarrow> proc_step ns (PReadDir n f, r, w) (f (es, Some e), r, w')"
| opened: "ns_Open ns n fl pm w = (Inr h, w') \<Longrightarrow> proc_step ns (POpen n fl pm f, r, w) (f (Inr (a, isw)), r, w')"
| open_err: "ns_Open ns n fl pm w = (Inl e, w') \<Longrightarrow> proc_step ns (POpen n fl pm f, r, w) (f (Inl e), r, w')"
| put: "ns_reach ns w w' \<Longrightarrow> proc_step ns (PWrite h t f, r, w) (f a, r, w')"
| close: "ns_reach ns w w' \<Longrightarrow> proc_step ns (PClose h f, r, w) (f a, r, w')"
| readall: "ns_reach ns w w' \<Longrightarrow> proc_step ns (PReadAll h i f, r, w) (f a, r, w')"
| reader: "proc_step ns (PReader t f, r, w) (f a, r, w)"
| bounded: "proc_step ns (PBounded i f, r, w) (f a, r, w)"
| result: "proc_step ns (PBoundedResult h f, r, w) (f a, r, w)"
| pipe: "proc_step ns (PPipe f, r, w) (f a, r, w)"
| close_pipe: "proc_step ns (PClosePipe h e p, r, w) (p, r, w)"
| exec: "ns_reach ns w w' \<Longrightarrow> proc_step ns (PExec cwd args env io f, r, w) (f a, r, w')"
| left: "proc_step ns (p, r, w) (p', r', w') \<Longrightarrow> proc_step ns (PPar p q f, r, w) (PPar p' q f, r', w')"
| right: "proc_step ns (q, r, w) (q', r', w') \<Longrightarrow> proc_step ns (PPar p q f, r, w) (PPar p q' f, r', w')"
| join: "proc_step ns (PPar (done_with c e s) (done_with c' e' s') f, r, w) (f ((c, e), (c', e')), r, w)"
| crash_left: "x = Panicked \<or> x = OutOfFuel \<Longrightarrow> proc_step ns (PPar (PRet x) q f, r, w) (PRet x, r, w)"
| crash_right: "x = Panicked \<or> x = OutOfFuel \<Longrightarrow> proc_step ns (PPar p (PRet x) f, r, w) (PRet x, r, w)"

inductive_cases proc_step_ret [elim!]: "proc_step ns (PRet x, r, w) c"

text \<open>Whatever a script does to the world, it does by calls on the namespace.\<close>

lemma proc_step_reach: "proc_step ns (p, r, w) (p', r', w') \<Longrightarrow> ns_reach ns w w'"
proof (induction p r w p' r' w' rule: proc_step.induct [split_format (complete)])
  case (stat n f r w)
  then show ?case using ns_step.stat by (rule r_into_rtranclp)
next
  case (readdir n w es w' f r)
  then show ?case using ns_step.readdir [of ns w n] by simp
next
  case (readdir_err n w e w' f es r)
  then show ?case using ns_step.readdir [of ns w n] by simp
next
  case (opened n fl pm w h w' f a isw r)
  then show ?case using ns_step.open_name [of ns w n fl pm] by simp
next
  case (open_err n fl pm w e w' f r)
  then show ?case using ns_step.open_name [of ns w n fl pm] by simp
qed simp_all

lemma proc_steps_reach: "(proc_step ns)\<^sup>*\<^sup>* (p, r, w) (p', r', w') \<Longrightarrow> ns_reach ns w w'"
proof (induction p' r' w' rule: rtranclp_induct [of "proc_step ns" "(p, r, w)" "(a, b, c)" for a b c, split_format (complete)])
  case (step p1 r1 w1 p2 r2 w2)
  then show ?case using proc_step_reach rtranclp_trans by metis
qed simp

text \<open>The fuel lasts as long as the steps of the run.\<close>

lemma proc_step_left_mono: "proc_step ns (p, r, w) (p', r', w') \<Longrightarrow> steps_left r' \<le> steps_left r"
proof (induction p r w p' r' w' rule: proc_step.induct [split_format (complete)])
  case (step r r1 e r2 f w)
  then show ?case using run_step_left(1) [of r1 "the e" r2] run_step_left(2) [of r1 r2] elapse_left [of r r1] by (cases e) auto
qed (simp_all add: elapse_left)

lemma proc_step_fuel:
  "proc_step ns (p, r, w) (p', r', w') \<Longrightarrow> fuel_ok p (steps_left r) \<Longrightarrow> fuel_ok p' (steps_left r')"
proof (induction p r w p' r' w' rule: proc_step.induct [split_format (complete)])
  case (step r r1 e r2 f w)
  show ?case
  proof (cases e)
    case None
    then show ?thesis using step run_step_left(2) [of r1 r2] elapse_left [of r r1] by simp
  next
    case (Some e')
    then have "fuel_ok (f e) (steps_left r)" "steps_left r2 \<le> steps_left r"
      using step run_step_left(1) [of r1 e' r2] elapse_left [of r r1] by simp_all
    then show ?thesis by (rule fuel_ok_mono)
  qed
next
  case (ctx r r1 f w)
  then show ?case using elapse_left [of r r1] by simp
next
  case (left p r w p' r' w' q f)
  then show ?case using proc_step_left_mono [OF left(1)] fuel_ok_mono by (auto simp del: split_paired_All)
next
  case (right q r w q' r' w' p f)
  then show ?case using proc_step_left_mono [OF right(1)] fuel_ok_mono by (auto simp del: split_paired_All)
qed (auto simp del: split_paired_All)

lemma proc_steps_fuel:
  "(proc_step ns)\<^sup>*\<^sup>* (p, r, w) (p', r', w') \<Longrightarrow> fuel_ok p (steps_left r) \<Longrightarrow> fuel_ok p' (steps_left r')"
proof (induction p' r' w' rule: rtranclp_induct [of "proc_step ns" "(p, r, w)" "(a, b, c)" for a b c, split_format (complete)])
  case (step p1 r1 w1 p2 r2 w2)
  then show ?case using proc_step_fuel by blast
qed simp

text \<open>A calm process stays calm.\<close>

lemma proc_step_calm: "proc_step ns (p, r, w) (p', r', w') \<Longrightarrow> calm J p \<Longrightarrow> calm J p'"
  by (induction p r w p' r' w' rule: proc_step.induct [split_format (complete)])
    (auto simp del: split_paired_All)

lemma proc_steps_calm: "(proc_step ns)\<^sup>*\<^sup>* (p, r, w) (p', r', w') \<Longrightarrow> calm J p \<Longrightarrow> calm J p'"
proof (induction p' r' w' rule: rtranclp_induct [of "proc_step ns" "(p, r, w)" "(a, b, c)" for a b c, split_format (complete)])
  case (step p1 r1 w1 p2 r2 w2)
  then show ?case using proc_step_calm by blast
qed simp

section \<open>Executions end\<close>

definition becomes :: "('w, 'h) namespace \<Rightarrow> 'x proc \<Rightarrow> 'x proc \<Rightarrow> bool" where
  "becomes ns p' p = (\<exists>r w r' w'. proc_step ns (p, r, w) (p', r', w'))"

lemma becomes_ret: "Wellfounded.accp (becomes ns) (PRet x)"
  by (rule accp.accI) (auto simp: becomes_def)

lemma becomes_par:
  assumes "Wellfounded.accp (becomes ns) p" "Wellfounded.accp (becomes ns) q" "\<And>a. Wellfounded.accp (becomes ns) (f a)"
  shows "Wellfounded.accp (becomes ns) (PPar p q f)"
  using assms(1,2)
proof (induction p arbitrary: q rule: accp.induct)
  case (accI p)
  note outer = accI.IH and accq = accI.prems
  have accp: "Wellfounded.accp (becomes ns) p" using accI.hyps by (rule accp.accI)
  from accq show ?case
  proof (induction q rule: accp.induct)
    case (accI q)
    show ?case
    proof (rule accp.accI)
      fix z
      assume "becomes ns z (PPar p q f)"
      then obtain r w r' w' where "proc_step ns (PPar p q f, r, w) (z, r', w')" by (auto simp: becomes_def)
      then show "Wellfounded.accp (becomes ns) z"
      proof cases
        case (left p')
        then have "becomes ns p' p" by (auto simp: becomes_def)
        then show ?thesis using outer [of p' q] accp.accI [of "becomes ns" q, OF accI.hyps] left by simp
      next
        case (right q')
        then have "becomes ns q' q" by (auto simp: becomes_def)
        then show ?thesis using accI.IH [of q'] right by simp
      qed (use assms(3) becomes_ret in auto)
    qed
  qed
qed

lemma becomes_acc: "Wellfounded.accp (becomes ns) p"
proof (induction p)
  case (PPar p q f)
  then show ?case by (intro becomes_par) auto
qed (rule accp.accI, auto simp: becomes_def elim: proc_step.cases)+

lemma no_infinite_run:
  fixes c :: "nat \<Rightarrow> ('x, 'w) config"
  shows "\<not> (\<forall>i. proc_step ns (c i) (c (Suc i)))"
proof
  assume c: "\<forall>i. proc_step ns (c i) (c (Suc i))"
  let ?R = "{(x :: 'x proc, y). becomes ns x y}"
  have "wf ?R"
    using accp_wfpI [of "becomes ns"] becomes_acc by (auto simp: wfp_def)
  moreover have step: "(fst (c (Suc i)), fst (c i)) \<in> ?R" for i
    using c unfolding becomes_def by (metis (mono_tags, lifting) case_prodI mem_Collect_eq prod.collapse)
  have "\<exists>f. \<forall>i. (f (Suc i), f i) \<in> ?R" by (rule exI [of _ "\<lambda>i. fst (c i)"]) (use step in blast)
  ultimately show False using wf_iff_no_infinite_down_chain [of ?R] by blast
qed

text \<open>A process that has not ended can go on.\<close>

lemma proc_progress: "\<not> (\<exists>x. p = PRet x) \<Longrightarrow> \<exists>c. proc_step ns (p, r, w) c"
proof (induction p)
  case (PStep f)
  have "elapse r r" by (simp add: elapse_def)
  then show ?case using proc_step.step [of r r "fst (run_step r)" "snd (run_step r)"] by fastforce
next
  case (PCtxErr f)
  have "elapse r r" by (simp add: elapse_def)
  then show ?case using proc_step.ctx by fast
next
  case (PStat n f)
  then show ?case using proc_step.stat by fast
next
  case (PReadDir n f)
  obtain es w' where "ns_ReadDir ns n w = (es, w')" by fastforce
  then show ?case using proc_step.readdir proc_step.readdir_err by (cases es) fast+
next
  case (POpen n fl pm f)
  obtain h w' where "ns_Open ns n fl pm w = (h, w')" by fastforce
  then show ?case using proc_step.opened proc_step.open_err by (cases h) fast+
next
  case (PPar p q f)
  show ?case
  proof (cases "(\<exists>x. p = PRet x) \<and> (\<exists>y. q = PRet y)")
    case True
    then obtain x y where "p = PRet x" "q = PRet y" by blast
    then show ?thesis
      using proc_step.join proc_step.crash_left proc_step.crash_right by (cases x; cases y) fast+
  next
    case False
    then show ?thesis using PPar.IH proc_step.left proc_step.right by (metis prod.collapse)
  qed
qed (auto intro: proc_step.intros proc_step.put [OF rtranclp.rtrancl_refl]
    proc_step.close [OF rtranclp.rtrancl_refl] proc_step.readall [OF rtranclp.rtrancl_refl]
    proc_step.exec [OF rtranclp.rtrancl_refl])

end
