(* ===== verification/ShellClaims.thy ===== *)
theory ShellClaims
  imports ShellFrame ShellRun NamespaceClaims
begin

text \<open>
  The properties of the shell of \<open>internal/shell/shell.go\<close>.  They hold for every library of
  parsing and word expansion (\<open>L\<close>, with \<open>walks_all\<close> where the checks of \<open>Parse\<close>
  matter), every filesystem and every command.
\<close>

section \<open>A library for the examples\<close>

text \<open>
  Words are their literal texts, and a script is one statement, given beforehand.
\<close>

definition lit_text :: "unit word \<Rightarrow> string" where
  "lit_text w = concat (map (\<lambda>p. case p of Lit s \<Rightarrow> s | OtherPart x \<Rightarrow> []) w)"

definition demo_lib :: "unit stmt \<Rightarrow> unit library" where
  "demo_lib x =
     \<lparr>pa_Parse = (\<lambda>src. Inr [x]), pa_Walk = (\<lambda>fl. map Enter (concat (map (stmt_nodes (\<lambda>_. True)) fl))),
      pa_ValidName = (\<lambda>_. True),
      ex_FieldsSeq = (\<lambda>ws. Value (foldr (\<lambda>w t. Yield (lit_text w) t) ws (Value ()))),
      ex_Literal = (\<lambda>w. Value (case w of None \<Rightarrow> [] | Some w \<Rightarrow> lit_text w)),
      ex_Document = (\<lambda>w. Value (lit_text w)), ex_Arithm = (\<lambda>x. Value 0), ex_String = v_Str\<rparr>"

definition echo_hi :: "unit stmt" where
  "echo_hi = Stmt (Some (CallExpr [] [[Lit ''echo''], [Lit ''hi'']])) [] False False"

definition demo_shell :: "unit shell" where
  "demo_shell = NewShell ''/work'' []"

definition demo_io :: streams where
  "demo_io = \<lparr>io_In = Obj 0, io_Out = Obj 1, io_Err = Obj 2, io_InSet = False\<rparr>"





section \<open>Executions\<close>



lemma demo_Parse: "Parse (demo_lib echo_hi) ''echo hi'' = Inr [echo_hi]"
  by (simp add: Parse_def MaxScript_def demo_lib_def stmt_nodes_def echo_hi_def)

lemma eleven: "(11 :: nat) = Suc 10"
  by simp

lemma demo_starts: "\<exists>f. sh_Run (demo_lib echo_hi) 11 ''echo hi'' demo_io demo_shell = PStep f"
proof -
  have "\<exists>f. exec_stmt (demo_lib echo_hi) 11 echo_hi False demo_io (demo_shell\<lparr>sh_Exited := False\<rparr>) = PStep f"
    unfolding eleven exec_stmt.simps stmtWithPipe_def by (rule exI) (rule refl)
  then show ?thesis
    unfolding sh_Run_def sh_list_def demo_Parse Let_def
    by (elim exE) (simp only: sum.case list_loop.simps pbind.simps, blast)
qed




text \<open>C7: Every file a redirection opens is closed exactly once by the end of its statement, on every path
  through the interpreter, errors included, and nothing else is closed.\<close>

theorem redirections_closed: "tidy (sh_Run L n src io s) {#}"
  by (rule closing.Run_ok) (rule funcs_ok_True)

text \<open>C35: A command that is handed to the command handler has a name without a slash, whatever path the
  script used for it, and finds the working directory in the exported variable \<open>PWD\<close>.\<close>

theorem commands_have_plain_names: "named (sh_Run L n src io s)"
  by (rule naming.Run_ok) (rule funcs_ok_True)

text \<open>No script, whatever its commands do through their view of the namespace, breaks the invariant of
  the root memory or makes a mount point disappear.\<close>

theorem scripts_keep_mounts:
  assumes "maxBytes \<le> max_int64" "NewNamespace now counter mounts maxBytes ext = (Inr ns, w)"
    and "(proc_step ns)\<^sup>*\<^sup>* (sh_Run L n src io s, r, w) (p, r', w')" "m \<in> set mounts"
  shows "mem_inv (w_mem w') \<and> is_dir_at (w_mem w') (mount_point m)"
proof -
  have "ns_inv ns w'"
    using ns_steps_inv [OF proc_steps_reach [OF assms(3)] NewNamespace_inv(1) [OF assms(1,2)]] .
  moreover have "m \<in> set (ns_mounts ns)" using NewNamespace_inv(2) [OF assms(1,2)] assms(4) by simp
  ultimately show ?thesis by (simp add: ns_inv_def)
qed

theorem scripts_keep_mounts_witness:
  "\<exists>p r w'. proc_step demo (sh_Run (demo_lib echo_hi) 11 ''echo hi'' demo_io demo_shell,
        \<lparr>rn_ctx = None, rn_steps = 0, rn_maxSteps = 10\<rparr>, demo_world) (p, r, w') \<and>
      mem_inv (w_mem w') \<and> is_dir_at (w_mem w') ''data''"
proof -
  let ?r = "\<lparr>rn_ctx = None, rn_steps = 0, rn_maxSteps = 10\<rparr>"
  obtain f where f: "sh_Run (demo_lib echo_hi) 11 ''echo hi'' demo_io demo_shell = PStep f"
    using demo_starts by blast
  have "elapse ?r ?r" by (simp add: elapse_def)
  then have st: "proc_step demo (PStep f, ?r, demo_world) (f (fst (run_step ?r)), snd (run_step ?r), demo_world)"
    using proc_step.step [of ?r ?r "fst (run_step ?r)" "snd (run_step ?r)"] by fastforce
  then have "(proc_step demo)\<^sup>*\<^sup>* (sh_Run (demo_lib echo_hi) 11 ''echo hi'' demo_io demo_shell, ?r, demo_world)
      (f (fst (run_step ?r)), snd (run_step ?r), demo_world)"
    unfolding f by (rule r_into_rtranclp)
  from scripts_keep_mounts [OF _ demo_New this, of demo_mount]
  have "mem_inv (w_mem demo_world) \<and> is_dir_at (w_mem demo_world) (mount_point demo_mount)"
    by (simp add: max_int64_def)
  then show ?thesis using st f by (fastforce simp: mount_point_def demo_elems)
qed

section \<open>What commands may change\<close>





text \<open>Expansions that assign no variable (such as \<open>${x:=word}\<close> does).\<close>

primrec quiet :: "('r \<Rightarrow> bool) \<Rightarrow> ('x, 'r) expansion \<Rightarrow> bool" where
  "quiet V (Value r) = V r"
| "quiet V (Raise e) = True"
| "quiet V (Yield f t) = quiet V t"
| "quiet V (GetVar x f) = (\<forall>a. quiet V (f a))"
| "quiet V (SetVar x v f) = False"
| "quiet V (EachVar f) = (\<forall>a. quiet V (f a))"
| "quiet V (ListDir p f) = (\<forall>a. quiet V (f a))"
| "quiet V (CmdSubst stmts f) = (\<forall>a. quiet V (f a))"

lemma quiet_one:
  "quiet V t \<Longrightarrow> (\<And>r u. sh_vars u = sh_vars s \<Longrightarrow> ends (k r u) P) \<Longrightarrow> ends (run_one run io t s k) P"
  unfolding run_one_def
proof (induction t arbitrary: s)
  case (ListDir p f)
  then show ?case by (auto simp: config_ReadDir2_def case_prod_beta split: option.split)
next
  case (CmdSubst stmts f)
  have "ends (run_exp run io False (\<lambda>f a c. c (Inr a)) (f r) () (s\<lparr>sh_subStatus := n\<rparr>) (\<lambda>r a. k r)) P" for r n
  proof (rule CmdSubst.IH [OF rangeI])
    show "quiet V (f r)" using CmdSubst.prems(1) unfolding quiet.simps by (rule spec)
  qed (use CmdSubst.prems(2) in simp)
  moreover have "ends (run_exp run io False (\<lambda>f a c. c (Inr a)) (f r) () s (\<lambda>r a. k r)) P" for r
  proof (rule CmdSubst.IH [OF rangeI])
    show "quiet V (f r)" using CmdSubst.prems(1) unfolding quiet.simps by (rule spec)
  qed (use CmdSubst.prems(2) in simp)
  ultimately show ?case
    by (auto simp: config_CmdSubst_def Let_def case_prod_beta intro!: ends_after)
qed simp_all

text \<open>
  The variables during the assignments: those already assigned are saved, all others are as before.
\<close>

definition saved :: "variables \<Rightarrow> (string \<times> variable) list \<Rightarrow> variables \<Rightarrow> bool" where
  "saved vs0 before vs =
     (distinct (map fst before) \<and> (\<forall>x. case map_of before x of Some v \<Rightarrow> v = vars_Get vs0 x | None \<Rightarrow> map_of vs x = map_of vs0 x))"

lemma saved_assign:
  assumes "saved vs0 before vs" "vs' = vs \<or> (\<exists>v. vs' = AList.update x v vs)"
  shows "saved vs0 (if x \<in> fst ` set before then before else (x, vars_Get vs x) # before) vs'"
  unfolding saved_def
proof (intro conjI allI)
  show "distinct (map fst (if x \<in> fst ` set before then before else (x, vars_Get vs x) # before))"
    using assms(1) by (simp add: saved_def)
  fix y
  have old: "case map_of before y of Some v \<Rightarrow> v = vars_Get vs0 y | None \<Rightarrow> map_of vs y = map_of vs0 y"
    using assms(1) unfolding saved_def by blast
  have new: "map_of vs' y = map_of vs y" if "y \<noteq> x" using assms(2) that by (auto simp: update_conv')
  have dom: "map_of before y = None \<longleftrightarrow> y \<notin> fst ` set before" by (rule map_of_eq_None_iff)
  show "case map_of (if x \<in> fst ` set before then before else (x, vars_Get vs x) # before) y of
      Some v \<Rightarrow> v = vars_Get vs0 y | None \<Rightarrow> map_of vs' y = map_of vs0 y"
  proof (cases "y = x")
    case True
    then show ?thesis using old dom by (cases "map_of before y") (auto simp: vars_Get_def)
  next
    case False
    then show ?thesis using old new by (cases "map_of before y") simp_all
  qed
qed

lemma prefix_saved:
  assumes "\<forall>a \<in> set as. quiet (\<lambda>_. True) (ex_Literal L (as_Value a))" "saved vs0 before (sh_vars s)"
    and "\<And>before' e u. saved vs0 before' (sh_vars u) \<Longrightarrow>
      (e = None \<Longrightarrow> as_Name ` set as \<union> fst ` set before \<subseteq> fst ` set before') \<Longrightarrow> ends (k before' e u) P"
  shows "ends (prefix_assigns L run as io before s k) P"
  using assms
proof (induction as arbitrary: before s)
  case (Cons a as)
  let ?b = "if as_Name a \<in> fst ` set before then before else (as_Name a, vars_Get (sh_vars s) (as_Name a)) # before"
  have b: "insert (as_Name a) (fst ` set before) \<subseteq> fst ` set ?b" by auto
  have k: "ends (case e of Some err \<Rightarrow> k ?b (Some err) u | None \<Rightarrow> prefix_assigns L run as io ?b u k) P"
    if "sh_vars u = sh_vars s \<or> (\<exists>v. sh_vars u = AList.update (as_Name a) v (sh_vars s))" for e u
  proof (cases e)
    case None
    have "ends (prefix_assigns L run as io ?b u k) P"
    proof (rule Cons.IH)
      show "saved vs0 ?b (sh_vars u)" using saved_assign [OF Cons.prems(2) that] .
      show "ends (k before' e v) P"
        if "saved vs0 before' (sh_vars v)" "e = None \<Longrightarrow> as_Name ` set as \<union> fst ` set ?b \<subseteq> fst ` set before'"
        for before' e v
      proof (rule Cons.prems(3) [OF that(1)])
        assume "e = None"
        from that(2) [OF this] b show "as_Name ` set (a # as) \<union> fst ` set before \<subseteq> fst ` set before'" by simp blast
      qed
    qed (use Cons.prems(1) in simp)
    then show ?thesis using None by simp
  next
    case (Some err)
    have "ends (k ?b (Some err) u) P"
      by (rule Cons.prems(3) [OF saved_assign [OF Cons.prems(2) that]]) simp
    then show ?thesis using Some by simp
  qed
  have q: "quiet (\<lambda>_. True) (ex_Literal L (as_Value a))" using Cons.prems(1) by simp
  show ?case
    unfolding prefix_assigns.simps Let_def sh_assign_def
  proof (rule quiet_one [OF q])
    fix r and u :: "'a shell"
    assume u: "sh_vars u = sh_vars s"
    show "ends (case r of Inl e \<Rightarrow> (case Some e of Some err \<Rightarrow> k ?b (Some err) u
          | None \<Rightarrow> prefix_assigns L run as io ?b u k)
        | Inr v \<Rightarrow> (case vars_Set (sh_vars u) (as_Name a) (variable_of (if as_Append a
              then ex_String L (vars_Get (sh_vars u) (as_Name a)) @ v else v) True) of
            (e, vs) \<Rightarrow> case e of Some err \<Rightarrow> k ?b (Some err) (u\<lparr>sh_vars := vs\<rparr>)
              | None \<Rightarrow> prefix_assigns L run as io ?b (u\<lparr>sh_vars := vs\<rparr>) k)) P"
    proof (cases r)
      case (Inl e)
      then show ?thesis using k [of u "Some e"] u by simp
    next
      case (Inr v)
      show ?thesis
        unfolding Inr sum.case case_prod_beta by (rule k) (simp add: vars_Set_def u, blast)
    qed
  qed
qed simp

lemma restore_lookup:
  "distinct (map fst before) \<Longrightarrow> map_of (restore_vars before vs) x =
     (case map_of before x of Some v \<Rightarrow> if v_Set v \<or> v_Exported v then Some v else None | None \<Rightarrow> map_of vs x)"
proof (induction before arbitrary: vs)
  case (Cons kv before)
  obtain k v where kv: "kv = (k, v)" by force
  let ?vs = "if v_Set v \<or> v_Exported v then AList.update k v vs else AList.delete k vs"
  have "map_of (restore_vars (kv # before) vs) x = map_of (restore_vars before ?vs) x"
    by (simp add: restore_vars_def kv)
  also have "\<dots> = (case map_of before x of
      Some v \<Rightarrow> if v_Set v \<or> v_Exported v then Some v else None | None \<Rightarrow> map_of ?vs x)"
    using Cons by simp
  also have "map_of ?vs x = (if x = k then if v_Set v \<or> v_Exported v then Some v else None else map_of vs x)"
    by (simp add: update_conv' delete_conv')
  finally have "map_of (restore_vars (kv # before) vs) x = (case map_of before x of
      Some v \<Rightarrow> if v_Set v \<or> v_Exported v then Some v else None
    | None \<Rightarrow> if x = k then if v_Set v \<or> v_Exported v then Some v else None else map_of vs x)" .
  moreover have "map_of before k = None" using Cons.prems kv by (simp add: map_of_eq_None_iff)
  ultimately show ?case using kv by (cases "x = k") simp_all
qed (simp add: restore_vars_def)

lemma saved_restored:
  assumes "saved vs0 before vs" "vs' = vs \<or> x \<in> fst ` set before"
    and "\<And>v. map_of vs0 x = Some v \<Longrightarrow> v_Set v \<or> v_Exported v"
  shows "vars_Get (restore_vars before vs') x = vars_Get vs0 x"
proof -
  have d: "distinct (map fst before)" using assms(1) by (simp add: saved_def)
  have s: "case map_of before x of Some v \<Rightarrow> v = vars_Get vs0 x | None \<Rightarrow> map_of vs x = map_of vs0 x"
    using assms(1) unfolding saved_def by blast
  show ?thesis
  proof (cases "map_of before x")
    case None
    then have "vs' = vs" using assms(2) by (simp add: map_of_eq_None_iff)
    then show ?thesis using None s by (simp add: vars_Get_def restore_lookup [OF d])
  next
    case (Some v)
    then show ?thesis
      using s assms(3) by (cases "map_of vs0 x") (auto simp: vars_Get_def restore_lookup [OF d] zero_variable_def)
  qed
qed

text \<open>C16: Assignments before a command are temporary: whatever the command does and however it ends, every
  assigned name has its old value and export mark again afterwards (or is gone if it was not
  there), even for a name assigned twice or after an assignment that failed.  The values must not
  assign variables themselves.\<close>

theorem prefix_assignments_temporary:
  assumes "args \<noteq> []" "assigns \<noteq> []"
    and "\<forall>a \<in> set assigns. quiet (\<lambda>_. True) (ex_Literal L (as_Value a))"
    and "a \<in> set assigns" "x = as_Name a" "\<forall>v \<in> set (map snd (sh_vars s)). v_Set v \<or> v_Exported v"
  shows "ends (sh_call L st assigns args io s) (\<lambda>code e t. vars_Get (sh_vars t) x = vars_Get (sh_vars s) x)"
proof -
  let ?P = "\<lambda>code e t. vars_Get (sh_vars t) x = vars_Get (sh_vars s) x"
  have x: "map_of (sh_vars s) x = Some v \<Longrightarrow> v_Set v \<or> v_Exported v" for v
    using assms(6) map_of_SomeD by fastforce
  have rest: "ends (pbind (case e of Some err \<Rightarrow> done_with 1 (Some err) u | None \<Rightarrow> sh_invoke L st args io u)
      (\<lambda>code e s2. done_with code e (s2\<lparr>sh_vars := restore_vars before (sh_vars s2)\<rparr>))) ?P"
    if "saved (sh_vars s) before (sh_vars u)" "e = None \<Longrightarrow> x \<in> fst ` set before" for before e u
  proof (cases e)
    case None
    have "vars_Get (restore_vars before vs) x = vars_Get (sh_vars s) x" for vs
      by (rule saved_restored [OF that(1) _ x]) (use that(2) None in simp_all)
    then show ?thesis using None by (auto intro!: ends_after)
  next
    case (Some err)
    then show ?thesis using saved_restored [OF that(1) disjI1 x] by simp
  qed
  have "ends (prefix_assigns L (sh_list st) assigns io [] s (\<lambda>before e u.
      pbind (case e of Some err \<Rightarrow> done_with 1 (Some err) u | None \<Rightarrow> sh_invoke L st args io u)
        (\<lambda>code e s2. done_with code e (s2\<lparr>sh_vars := restore_vars before (sh_vars s2)\<rparr>)))) ?P"
  proof (rule prefix_saved [where ?vs0.0 = "sh_vars s"], goal_cases)
    case (3 before e u)
    show ?case by (rule rest [OF 3(1)]) (use 3(2) assms(4,5) in blast)
  qed (use assms(3) in \<open>simp_all add: saved_def\<close>)
  then show ?thesis using assms(1,2) by (simp add: sh_call_def)
qed

theorem prefix_assignments_temporary_witness:
  "ends (sh_call (demo_lib echo_hi) (exec_stmt (demo_lib echo_hi) 5)
      [Assign ''HOME'' False False False (Some [Lit ''/tmp'']), Assign ''X'' False False False None] [''cd''] demo_io demo_shell)
    (\<lambda>code e t. vars_Get (sh_vars t) ''HOME'' = variable_of ''/work'' True)"
proof -
  have "\<forall>v \<in> set (map snd (sh_vars demo_shell)). v_Set v \<or> v_Exported v"
    "vars_Get (sh_vars demo_shell) ''HOME'' = variable_of ''/work'' True"
    by (simp_all add: demo_shell_def NewShell_def set_exported_def variable_of_def vars_Get_def)
  then show ?thesis
    using prefix_assignments_temporary [of "[''cd'']" "[Assign ''HOME'' False False False (Some [Lit ''/tmp'']),
        Assign ''X'' False False False None]" "demo_lib echo_hi" "Assign ''HOME'' False False False (Some [Lit ''/tmp''])"
        "''HOME''" demo_shell "exec_stmt (demo_lib echo_hi) 5" demo_io]
    by (simp add: demo_lib_def)
qed

section \<open>What a run returns\<close>



section \<open>Limits of expansions\<close>

lemma run_exp_emits:
  assumes emit: "\<And>f a c. I a \<Longrightarrow> (\<And>r. (\<And>a'. r = Inr a' \<Longrightarrow> I a') \<Longrightarrow> ends (c r) P) \<Longrightarrow> ends (emit f a c) P"
  shows "I a \<Longrightarrow> (\<And>r a s. I a \<Longrightarrow> ends (k r a s) P) \<Longrightarrow> ends (run_exp run io glob emit t a s k) P"
proof (induction t arbitrary: a s)
  case (Yield f t)
  have "ends (case r of Inl e \<Rightarrow> k (Inl e) a s | Inr a' \<Rightarrow> run_exp run io glob emit t a' s k) P"
    if "\<And>a'. r = Inr a' \<Longrightarrow> I a'" for r
    using Yield that by (cases r) simp_all
  then show ?case using Yield.prems(1) by (simp add: emit)
next
  case (ListDir p f)
  then show ?case by (auto simp: config_ReadDir2_def case_prod_beta split: option.split)
next
  case (CmdSubst stmts f)
  then show ?case by (auto simp: config_CmdSubst_def Let_def case_prod_beta intro!: ends_after)
qed (simp_all add: Let_def case_prod_beta)

text \<open>Whatever a word expands to, the arguments a command gets are at most 10000 and their lengths add
  up to at most 1 MiB; a longer expansion is an error.  (Stated for every use of the fields: it may
  rely on the bounds.)\<close>

theorem fields_bounded:
  assumes "\<And>r u. (\<And>fs. r = Inr fs \<Longrightarrow> length fs \<le> 10000 \<and> sum_list (map length fs) \<le> 1048576) \<Longrightarrow> ends (k r u) P"
  shows "ends (sh_fields L run ws io s k) P"
proof -
  let ?I = "\<lambda>(fs :: string list, sz). length fs \<le> max_fields \<and> sz = sum_list (map length fs) \<and> sz \<le> maxExpansion"
  have emit: "ends (take_field f a c) P"
    if "?I a" "\<And>r. (\<And>a'. r = Inr a' \<Longrightarrow> ?I a') \<Longrightarrow> ends (c r) P" for f a c
  proof -
    obtain fs sz where a: "a = (fs, sz)" by force
    have "ends (c (Inl e)) P" for e by (rule that(2)) simp
    moreover have "ends (c (Inr (fs @ [f], sz + length f))) P"
      if "length fs < max_fields" "sz + length f \<le> maxExpansion"
      by (rule \<open>\<And>r. (\<And>a'. r = Inr a' \<Longrightarrow> ?I a') \<Longrightarrow> ends (c r) P\<close>) (use \<open>?I a\<close> that a in auto)
    ultimately show ?thesis unfolding take_field_def Let_def a by (auto simp: not_le split: option.split)
  qed
  have seq: "ends (run_exp run io False take_field sq ([], 0) u (\<lambda>r a v. case r of
      Inl e \<Rightarrow> k (Inl e) v | Inr x \<Rightarrow> k (Inr (fst a)) v)) P" for sq u
  proof (rule run_exp_emits [where I = ?I], goal_cases)
    case (1 f a c)
    then show ?case by (rule emit)
  next
    case (3 r a v)
    have "ends (k (Inl e) v) P" for e by (rule assms) simp
    moreover have "ends (k (Inr (fst a)) v) P"
      by (rule assms) (use 3 in \<open>auto simp: max_fields_def maxExpansion_def\<close>)
    ultimately show ?case by (simp split: sum.split)
  qed simp
  then have "ends (case r of Inl e \<Rightarrow> k (Inl e) u | Inr sq \<Rightarrow> run_exp run io False take_field sq ([], 0) u
      (\<lambda>r a v. case r of Inl e \<Rightarrow> k (Inl e) v | Inr x \<Rightarrow> k (Inr (fst a)) v)) P" for r u
  proof (cases r)
    case (Inl e)
    have "ends (k (Inl e) u) P" by (rule assms) simp
    then show ?thesis using Inl by simp
  next
    case (Inr sq)
    then show ?thesis using seq by simp
  qed
  then show ?thesis
    unfolding sh_fields_def by (intro run_exp_emits [where I = "\<lambda>_. True"]) auto
qed

theorem fields_bounded_witness:
  "ends (sh_fields (demo_lib echo_hi) (sh_list (exec_stmt (demo_lib echo_hi) 5)) [[Lit ''echo''], [Lit ''hi'']]
      demo_io demo_shell (\<lambda>r u. done_with (case r of Inl e \<Rightarrow> 0 | Inr fs \<Rightarrow> int (length fs)) None u))
    (\<lambda>code e t. code \<le> 10000)"
  by (rule fields_bounded) (auto split: sum.split)

section \<open>Text\<close>


text \<open>C36: The batches of \<open>xargs\<close> are the items in order, each exactly once; no batch is empty unless
  there is no item at all, when the command runs once, and none exceeds the limit of \<open>-n\<close>.\<close>

theorem xargs_batches_exact:
  "concat (xargs_batches per items) = items \<and> xargs_batches per [] = [[]] \<and>
   (\<forall>b. b \<in> set (xargs_batches per items) \<and> items \<noteq> [] \<longrightarrow> b \<noteq> []) \<and>
   (\<forall>b. b \<in> set (xargs_batches per items) \<and> 0 < per \<longrightarrow> int (length b) \<le> per)"
  using batches_partition [of per items] by (auto simp: xargs_batches.simps [of per "[]"] next_batch_def)

theorem xargs_batches_exact_witness:
  "int (length (hd (xargs_batches 2 [''a'', ''b'', ''c'']))) \<le> 2"
proof -
  have "hd (xargs_batches 2 [''a'', ''b'', ''c'']) \<in> set (xargs_batches 2 [''a'', ''b'', ''c''])"
    by (simp add: xargs_batches.simps [of 2 "[''a'', ''b'', ''c'']"] Let_def)
  then show ?thesis using xargs_batches_exact [of 2 "[''a'', ''b'', ''c'']"] by simp
qed



section \<open>Two surprises\<close>

text \<open>
  With \<open>-I R -n 2\<close> the batches have two items, of which neither is used: the command gets the
  text \<open>R\<close> itself.
\<close>

lemma xargs_replace_with_number:
  "\<exists>x cmd. xargs_opts no_xopts [''-I'', ''R'', ''-n'', ''2'', ''echo'', ''R''] = Inr (x, cmd) \<and>
     xargs_batches (xo_per x) [''a'', ''b''] = [[''a'', ''b'']] \<and>
     xargs_argv x cmd [''a'', ''b''] = [''echo'', ''R'']"
proof (intro exI conjI)
  show "xargs_opts no_xopts [''-I'', ''R'', ''-n'', ''2'', ''echo'', ''R''] =
      Inr (no_xopts\<lparr>xo_replace := ''R'', xo_per := 2\<rparr>, [''echo'', ''R''])"
    by code_simp
qed (simp_all add: xargs_batches.simps Let_def next_batch_def xargs_argv_def no_xopts_def)

text \<open>\<open>break\<close> in the condition of a \<open>while\<close> loop is not handled by that loop.\<close>

lemma break_in_condition:
  assumes "st x False io s = done_with 0 (Some (Flow ''break'' 0)) s"
  shows "while_loop st until [x] body io (Suc n) code s =
    PStep (\<lambda>e. case e of Some err \<Rightarrow> done_with 1 (Some err) s
      | None \<Rightarrow> done_with 0 (Some (Flow ''break'' 0)) (s\<lparr>sh_status := 0\<rparr>))"
  by (simp add: sh_list_def assms cong: option.case_cong)

end
