(* ===== verification/Directory.thy ===== *)
theory Directory
  imports NamespaceSafe
begin

text \<open>
  \<open>vfs/directory.go\<close>: a host directory as a filesystem.  The directory itself is an
  \<open>os.Root\<close> of the Go library and the operating system behind it; its methods are the fields of
  a record over a state \<open>'s\<close>, an argument of the definitions.  An open file of the host has the
  type \<open>'k\<close>.

  The locale \<open>checked_fs\<close> is the part of the contract of \<open>vfs.WriteFS\<close> every
  implementation of the repository shares: a name that is not acceptable is refused before
  anything happens.
\<close>

section \<open>The contract\<close>

text \<open>A call that succeeds, or that changes anything, had an acceptable name.\<close>

definition needs_valid :: "(string \<Rightarrow> bool) \<Rightarrow> ('s, 'h) writeFS \<Rightarrow> bool" where
  "needs_valid ok W =
     (\<forall>n n' fl p s.
        (is_ok (fst (wf_OpenFile W n fl p s)) \<or> snd (wf_OpenFile W n fl p s) \<noteq> s \<longrightarrow> ok n) \<and>
        (fst (wf_Mkdir W n p s) = None \<or> snd (wf_Mkdir W n p s) \<noteq> s \<longrightarrow> ok n) \<and>
        (fst (wf_Remove W n s) = None \<or> snd (wf_Remove W n s) \<noteq> s \<longrightarrow> ok n) \<and>
        (fst (wf_Rename W n n' s) = None \<or> snd (wf_Rename W n n' s) \<noteq> s \<longrightarrow> ok n \<and> ok n'))"

locale checked_fs =
  fixes F :: "('s, 'h) filesys" and W :: "('s, 'h) writeFS" and ok :: "string \<Rightarrow> bool"
  assumes open_r: "\<not> ok n \<Longrightarrow> \<exists>e. fs_Open F n s = (Inl e, s)"
    and stat: "\<not> ok n \<Longrightarrow> \<exists>e. fs_Stat F n s = (Inl e, s)"
    and readdir: "\<not> ok n \<Longrightarrow> \<exists>e. fs_ReadDir F n s = (Inl e, s)"
    and open_w: "\<not> ok n \<Longrightarrow> \<exists>e. wf_OpenFile W n fl p s = (Inl e, s)"
    and mkdir: "\<not> ok n \<Longrightarrow> \<exists>e. wf_Mkdir W n p s = (Some e, s)"
    and remove: "\<not> ok n \<Longrightarrow> \<exists>e. wf_Remove W n s = (Some e, s)"
    and rename: "\<not> ok n \<or> \<not> ok n' \<Longrightarrow> \<exists>e. wf_Rename W n n' s = (Some e, s)"
begin

lemma needs_valid: "needs_valid ok W"
  unfolding needs_valid_def
proof (intro allI)
  fix n n' fl p s
  show "(is_ok (fst (wf_OpenFile W n fl p s)) \<or> snd (wf_OpenFile W n fl p s) \<noteq> s \<longrightarrow> ok n) \<and>
        (fst (wf_Mkdir W n p s) = None \<or> snd (wf_Mkdir W n p s) \<noteq> s \<longrightarrow> ok n) \<and>
        (fst (wf_Remove W n s) = None \<or> snd (wf_Remove W n s) \<noteq> s \<longrightarrow> ok n) \<and>
        (fst (wf_Rename W n n' s) = None \<or> snd (wf_Rename W n n' s) \<noteq> s \<longrightarrow> ok n \<and> ok n')"
    using open_w [of n fl p s] mkdir [of n p s] remove [of n s] rename [of n n' s] by fastforce
qed

end

section \<open>Directory\<close>

record ('s, 'k) osroot =
  rt_Open :: "string \<Rightarrow> 's \<Rightarrow> 'k res \<times> 's"
  rt_OpenFile :: "string \<Rightarrow> oflag \<Rightarrow> filemode \<Rightarrow> 's \<Rightarrow> 'k res \<times> 's"
  rt_Stat :: "string \<Rightarrow> 's \<Rightarrow> fileInfo res \<times> 's"
  rt_Lstat :: "string \<Rightarrow> 's \<Rightarrow> fileInfo res \<times> 's"
  rt_ReadDir :: "string \<Rightarrow> 's \<Rightarrow> fileInfo list res \<times> 's"
  rt_Mkdir :: "string \<Rightarrow> filemode \<Rightarrow> 's \<Rightarrow> goerr option \<times> 's"
  rt_Remove :: "string \<Rightarrow> 's \<Rightarrow> goerr option \<times> 's"
  rt_Rename :: "string \<Rightarrow> string \<Rightarrow> 's \<Rightarrow> goerr option \<times> 's"
  rt_Readlink :: "string \<Rightarrow> 's \<Rightarrow> string res \<times> 's"
  rt_Chmod :: "string \<Rightarrow> filemode \<Rightarrow> 's \<Rightarrow> goerr option \<times> 's"
  rt_Chtimes :: "string \<Rightarrow> time \<Rightarrow> time \<Rightarrow> 's \<Rightarrow> goerr option \<times> 's"
  rt_Close :: "'s \<Rightarrow> goerr option \<times> 's"

text \<open>\<open>directoryFile\<close> embeds the host file; only \<open>Chtimes\<close> is its own.\<close>

datatype 'k directoryFile = directoryFile (df_File: 'k)

definition df_Chtimes ::
  "('k \<Rightarrow> time \<Rightarrow> time \<Rightarrow> 's \<Rightarrow> goerr option \<times> 's) \<Rightarrow> 'k directoryFile \<Rightarrow> time \<Rightarrow> time \<Rightarrow> 's \<Rightarrow>
   goerr option \<times> 's" where
  "df_Chtimes fileChtimes f a t s = fileChtimes (df_File f) a t s"

definition OpenDirectory :: "(string \<Rightarrow> 's \<Rightarrow> 'r res \<times> 's) \<Rightarrow> string \<Rightarrow> 's \<Rightarrow> 'r res \<times> 's" where
  "OpenDirectory OpenRoot name s =
     (case OpenRoot name s of (Inl e, s1) \<Rightarrow> (Inl e, s1) | (Inr r, s1) \<Rightarrow> (Inr r, s1))"

definition dir_Open :: "('s, 'k) osroot \<Rightarrow> string \<Rightarrow> 's \<Rightarrow> 'k directoryFile res \<times> 's" where
  "dir_Open R name s =
     (if \<not> valid name then (Inl (pathErr ''open'' name ErrInvalid), s)
      else case rt_Open R name s of
        (Inl e, s1) \<Rightarrow> (Inl e, s1)
      | (Inr f, s1) \<Rightarrow> (Inr (directoryFile f), s1))"

definition dir_OpenFile ::
  "('s, 'k) osroot \<Rightarrow> string \<Rightarrow> oflag \<Rightarrow> filemode \<Rightarrow> 's \<Rightarrow> 'k directoryFile res \<times> 's" where
  "dir_OpenFile R name flag perm s =
     (if \<not> valid name then (Inl (pathErr ''open'' name ErrInvalid), s)
      else case rt_OpenFile R name flag perm s of
        (Inl e, s1) \<Rightarrow> (Inl e, s1)
      | (Inr f, s1) \<Rightarrow> (Inr (directoryFile f), s1))"

definition dir_Stat :: "('s, 'k) osroot \<Rightarrow> string \<Rightarrow> 's \<Rightarrow> fileInfo res \<times> 's" where
  "dir_Stat R name s =
     (if \<not> valid name then (Inl (pathErr ''stat'' name ErrInvalid), s) else rt_Stat R name s)"

definition dir_Lstat :: "('s, 'k) osroot \<Rightarrow> string \<Rightarrow> 's \<Rightarrow> fileInfo res \<times> 's" where
  "dir_Lstat R name s =
     (if \<not> valid name then (Inl (pathErr ''lstat'' name ErrInvalid), s) else rt_Lstat R name s)"

definition dir_ReadDir :: "('s, 'k) osroot \<Rightarrow> string \<Rightarrow> 's \<Rightarrow> fileInfo list res \<times> 's" where
  "dir_ReadDir R name s =
     (if \<not> valid name then (Inl (pathErr ''readdir'' name ErrInvalid), s) else rt_ReadDir R name s)"

definition dir_Mkdir :: "('s, 'k) osroot \<Rightarrow> string \<Rightarrow> filemode \<Rightarrow> 's \<Rightarrow> goerr option \<times> 's" where
  "dir_Mkdir R name perm s =
     (if \<not> valid name then (Some (pathErr ''mkdir'' name ErrInvalid), s) else rt_Mkdir R name perm s)"

definition dir_Remove :: "('s, 'k) osroot \<Rightarrow> string \<Rightarrow> 's \<Rightarrow> goerr option \<times> 's" where
  "dir_Remove R name s =
     (if \<not> valid name \<or> name = ''.'' then (Some (pathErr ''remove'' name ErrInvalid), s)
      else rt_Remove R name s)"

definition dir_Rename :: "('s, 'k) osroot \<Rightarrow> string \<Rightarrow> string \<Rightarrow> 's \<Rightarrow> goerr option \<times> 's" where
  "dir_Rename R a b s =
     (if \<not> valid a \<or> \<not> valid b \<or> a = ''.'' \<or> b = ''.''
      then (Some (pathErr ''rename'' a ErrInvalid), s)
      else rt_Rename R a b s)"

definition dir_Readlink :: "('s, 'k) osroot \<Rightarrow> string \<Rightarrow> 's \<Rightarrow> string res \<times> 's" where
  "dir_Readlink R name s =
     (if \<not> valid name then (Inl (pathErr ''readlink'' name ErrInvalid), s) else rt_Readlink R name s)"

definition dir_Close :: "('s, 'k) osroot \<Rightarrow> 's \<Rightarrow> goerr option \<times> 's" where
  "dir_Close R s = rt_Close R s"

definition dir_Chmod :: "('s, 'k) osroot \<Rightarrow> string \<Rightarrow> filemode \<Rightarrow> 's \<Rightarrow> goerr option \<times> 's" where
  "dir_Chmod R name perm s =
     (if \<not> valid name then (Some (pathErr ''chmod'' name ErrInvalid), s) else rt_Chmod R name perm s)"

definition dir_Chtimes :: "('s, 'k) osroot \<Rightarrow> string \<Rightarrow> time \<Rightarrow> time \<Rightarrow> 's \<Rightarrow> goerr option \<times> 's" where
  "dir_Chtimes R name a t s =
     (if \<not> valid name then (Some (pathErr ''chtimes'' name ErrInvalid), s) else rt_Chtimes R name a t s)"

text \<open>\<open>*Directory\<close> as the namespace sees it: it has all the optional methods.\<close>

definition directory_write :: "('s, 'k) osroot \<Rightarrow> ('s, 'k directoryFile) writeFS" where
  "directory_write R =
     \<lparr>wf_OpenFile = dir_OpenFile R, wf_Mkdir = dir_Mkdir R, wf_Remove = dir_Remove R,
      wf_Rename = dir_Rename R, wf_Chmod = Some (dir_Chmod R), wf_Chtimes = Some (dir_Chtimes R)\<rparr>"

definition directory_fs :: "('s, 'k) osroot \<Rightarrow> ('s, 'k directoryFile) filesys" where
  "directory_fs R =
     \<lparr>fs_Open = dir_Open R, fs_Stat = dir_Stat R, fs_ReadDir = dir_ReadDir R,
      fs_Lstat = Some (dir_Lstat R), fs_Readlink = Some (dir_Readlink R),
      fs_Write = Some (directory_write R)\<rparr>"

lemmas directory_defs = dir_Open_def dir_OpenFile_def dir_Stat_def dir_Lstat_def dir_ReadDir_def
  dir_Mkdir_def dir_Remove_def dir_Rename_def dir_Readlink_def dir_Chmod_def dir_Chtimes_def

section \<open>Implementations of the contract\<close>

interpretation directory: checked_fs "directory_fs R" "directory_write R" valid for R
  by unfold_locales (auto simp: directory_fs_def directory_write_def directory_defs)

interpretation memory: checked_fs memory_fs memory_write valid
  by unfold_locales
    (auto simp: memory_fs_def memory_write_def with_clock_def case_prod_beta mem_Open_def mem_OpenFile_def
      open_node_def mem_Stat_def mem_ReadDir_def mem_readDir_def mem_lookup_def mem_Mkdir_def mem_Remove_def mem_Rename_def Let_def
      split: sum.split option.split)

text \<open>The root is asked about valid names only, so nothing it does for other names matters.\<close>

definition same_on_valid :: "('s, 'k) osroot \<Rightarrow> ('s, 'k) osroot \<Rightarrow> bool" where
  "same_on_valid R R' =
     (\<forall>n. valid n \<longrightarrow> rt_Open R n = rt_Open R' n \<and> rt_OpenFile R n = rt_OpenFile R' n \<and>
        rt_Stat R n = rt_Stat R' n \<and> rt_Lstat R n = rt_Lstat R' n \<and> rt_ReadDir R n = rt_ReadDir R' n \<and>
        rt_Mkdir R n = rt_Mkdir R' n \<and> rt_Readlink R n = rt_Readlink R' n \<and> rt_Chmod R n = rt_Chmod R' n \<and>
        rt_Chtimes R n = rt_Chtimes R' n \<and> (n \<noteq> ''.'' \<longrightarrow> rt_Remove R n = rt_Remove R' n) \<and>
        (\<forall>n'. valid n' \<longrightarrow> n \<noteq> ''.'' \<longrightarrow> n' \<noteq> ''.'' \<longrightarrow> rt_Rename R n n' = rt_Rename R' n n'))"

lemma directory_same: "same_on_valid R R' \<Longrightarrow> directory_fs R = directory_fs R'"
  unfolding directory_fs_def directory_write_def same_on_valid_def
  by (auto simp: fun_eq_iff directory_defs)

end
