(* ===== verification/CommandView.thy ===== *)
theory CommandView
  imports Directory NamespaceNew
begin

unbundle bit_operations_syntax

text \<open>
  \<open>command.go\<close>: the filesystem a Go command handler gets (\<open>Command.FS\<close>), a view of the
  shell's namespace under the names of \<open>io/fs\<close>, rooted at \<open>/\<close>.
\<close>

section \<open>Open files\<close>

text \<open>
  A file of the namespace, or \<open>commandReadOnlyFile\<close>, which gives a file without \<open>Write\<close> one
  that fails.  The files of the root and the null device implement \<open>vfs.File\<close>; \<open>isw\<close> says
  which files of the mounted filesystems do.
\<close>

datatype 'h cmdfile = PlainFile "'h vfile" | commandReadOnlyFile (cro_File: "'h vfile") (cro_name: string)

fun implements_File :: "('h \<Rightarrow> bool) \<Rightarrow> 'h vfile \<Rightarrow> bool" where
  "implements_File isw NullFile = True"
| "implements_File isw (MemFile fd) = True"
| "implements_File isw (ExtFile h) = isw h"

text \<open>\<open>Write\<close> on a file a handler got, where \<open>put\<close> is the method of a file of the namespace.\<close>

fun cmdfile_Write :: "('h vfile \<Rightarrow> byte list \<Rightarrow> 's \<Rightarrow> (int \<times> goerr option) \<times> 's) \<Rightarrow>
    'h cmdfile \<Rightarrow> byte list \<Rightarrow> 's \<Rightarrow> (int \<times> goerr option) \<times> 's" where
  "cmdfile_Write put (PlainFile f) p s = put f p s"
| "cmdfile_Write put (commandReadOnlyFile f name) p s =
     ((0, Some (PathError ''write'' name ErrPermission)), s)"

section \<open>The methods of commandFS\<close>

definition cv_Open :: "('w, 'h) namespace \<Rightarrow> string \<Rightarrow> 'w world \<Rightarrow> 'h cmdfile res \<times> 'w world" where
  "cv_Open ns name s =
     (if \<not> valid_path name then (Inl (PathError ''open'' name ErrInvalid), s)
      else case ns_Open ns (''/'' @ name) O_RDONLY 0 s of
        (Inl e, s1) \<Rightarrow> (Inl e, s1)
      | (Inr f, s1) \<Rightarrow> (Inr (PlainFile f), s1))"

definition cv_OpenFile ::
  "('h \<Rightarrow> bool) \<Rightarrow> ('w, 'h) namespace \<Rightarrow> string \<Rightarrow> oflag \<Rightarrow> filemode \<Rightarrow> 'w world \<Rightarrow>
   'h cmdfile res \<times> 'w world" where
  "cv_OpenFile isw ns name flag perm s =
     (if \<not> valid_path name then (Inl (PathError ''open'' name ErrInvalid), s)
      else case ns_Open ns (''/'' @ name) flag perm s of
        (Inl e, s1) \<Rightarrow> (Inl e, s1)
      | (Inr f, s1) \<Rightarrow>
          (Inr (if implements_File isw f then PlainFile f else commandReadOnlyFile f name), s1))"

definition cv_Stat :: "('w, 'h) namespace \<Rightarrow> string \<Rightarrow> 'w world \<Rightarrow> fileInfo res \<times> 'w world" where
  "cv_Stat ns name s =
     (if \<not> valid_path name then (Inl (PathError ''stat'' name ErrInvalid), s)
      else ns_Stat ns (''/'' @ name) s)"

definition cv_ReadDir :: "('w, 'h) namespace \<Rightarrow> string \<Rightarrow> 'w world \<Rightarrow> fileInfo list res \<times> 'w world" where
  "cv_ReadDir ns name s =
     (if \<not> valid_path name then (Inl (PathError ''readdir'' name ErrInvalid), s)
      else ns_ReadDir ns (''/'' @ name) s)"

definition cv_Mkdir ::
  "('w, 'h) namespace \<Rightarrow> string \<Rightarrow> filemode \<Rightarrow> 'w world \<Rightarrow> goerr option \<times> 'w world" where
  "cv_Mkdir ns name perm s =
     (if \<not> valid_path name then (Some (PathError ''mkdir'' name ErrInvalid), s)
      else ns_Mkdir ns (''/'' @ name) perm s)"

definition cv_Remove :: "('w, 'h) namespace \<Rightarrow> string \<Rightarrow> 'w world \<Rightarrow> goerr option \<times> 'w world" where
  "cv_Remove ns name s =
     (if \<not> valid_path name then (Some (PathError ''remove'' name ErrInvalid), s)
      else case ns_Lstat ns (''/'' @ name) s of
        (Inl e, s1) \<Rightarrow> (Some e, s1)
      | (Inr info, s1) \<Rightarrow> ns_Remove ns (''/'' @ name) (info_is_dir info) s1)"

definition cv_Rename :: "('w, 'h) namespace \<Rightarrow> string \<Rightarrow> string \<Rightarrow> 'w world \<Rightarrow> goerr option \<times> 'w world" where
  "cv_Rename ns oldName newName s =
     (case find (\<lambda>name. \<not> valid_path name) [oldName, newName] of
        Some name \<Rightarrow> (Some (PathError ''rename'' name ErrInvalid), s)
      | None \<Rightarrow> ns_Rename ns (''/'' @ oldName) (''/'' @ newName) s)"

text \<open>\<open>commandFS\<close> implements \<open>vfs.WriteFS\<close>, without any optional method.\<close>

definition commandFS_write :: "('h \<Rightarrow> bool) \<Rightarrow> ('w, 'h) namespace \<Rightarrow> ('w world, 'h cmdfile) writeFS" where
  "commandFS_write isw ns =
     \<lparr>wf_OpenFile = cv_OpenFile isw ns, wf_Mkdir = cv_Mkdir ns, wf_Remove = cv_Remove ns,
      wf_Rename = cv_Rename ns, wf_Chmod = None, wf_Chtimes = None\<rparr>"

definition commandFS :: "('h \<Rightarrow> bool) \<Rightarrow> ('w, 'h) namespace \<Rightarrow> ('w world, 'h cmdfile) filesys" where
  "commandFS isw ns =
     \<lparr>fs_Open = cv_Open ns, fs_Stat = cv_Stat ns, fs_ReadDir = cv_ReadDir ns, fs_Lstat = None,
      fs_Readlink = None, fs_Write = Some (commandFS_write isw ns)\<rparr>"

lemmas cv_defs = cv_Open_def cv_OpenFile_def cv_Stat_def cv_ReadDir_def cv_Mkdir_def cv_Remove_def cv_Rename_def

interpretation command_view: checked_fs "commandFS isw ns" "commandFS_write isw ns" valid_path for isw ns
  by unfold_locales (auto simp: commandFS_def commandFS_write_def cv_defs)

section \<open>Names\<close>

text \<open>A valid name and the guest name it stands for have the same elements.\<close>

lemma valid_name_elems:
  assumes "valid_path n"
  shows "name_of (path_elems n) = n"
proof -
  obtain cs where "good_elems cs" "n = name_of cs" using assms by (auto simp: valid_path_elems)
  then show ?thesis
    by (cases "cs = []") (simp_all add: name_of_def path_elems_join, simp add: path_elems_def clean_elems_def)
qed

lemma valid_no_slash:
  assumes "valid_path n"
  shows "\<not> has_suffix (''/'' @ n) ''/''"
proof -
  obtain cs where cs: "good_elems cs" "n = name_of cs" using assms by (auto simp: valid_path_elems)
  show ?thesis
  proof (cases "cs = []")
    case True
    then show ?thesis using cs by (simp add: has_suffix_def)
  next
    case False
    then show ?thesis using abs_name_plain(2) [OF cs(1)] cs(2) by (simp add: abs_name_def name_of_def)
  qed
qed

lemma valid_not_null:
  assumes "valid_path n" "n \<noteq> ''dev/null''"
  shows "Resolve ''/'' (''/'' @ n) \<noteq> ''/dev/null''" "Resolve ''/'' (''/'' @ n) \<noteq> ''/dev/null/''"
proof -
  have e: "path_elems (Resolve ''/'' (''/'' @ n)) = path_elems n" by (simp add: path_elems_Resolve)
  have d: "path_elems ''/dev/null'' = [''dev'', ''null'']" "path_elems ''/dev/null/'' = [''dev'', ''null'']"
    "name_of [''dev'', ''null''] = ''dev/null''" by code_simp+
  show "Resolve ''/'' (''/'' @ n) \<noteq> ''/dev/null''" "Resolve ''/'' (''/'' @ n) \<noteq> ''/dev/null/''"
    using e d valid_name_elems [OF assms(1)] assms(2) by (auto simp del: path_elems_slash)
qed

text \<open>Calls on a name that belongs to the root are the calls of the root filesystem on that name.\<close>

lemma view_route:
  assumes "ns_ok ns" "valid_path n" "\<not> contains_nul n" "mount_of ns (path_elems n) = None"
  shows "route ns (''/'' @ n) = Inr (root_fs, n, False)"
  using assms valid_name_elems [OF assms(2)] by (simp add: route_elems contains_nul_def)

lemma view_writable:
  assumes "ns_ok ns" "valid_path n" "\<not> contains_nul n" "mount_of ns (path_elems n) = None"
    "\<not> busy ns (path_elems n)"
  shows "ns_writable ns (''/'' @ n) = Inr (root_fs, root_write, n)"
  using view_route [OF assms(1-4)] assms(5) by (simp add: writable_elems [OF assms(1)])

end
