(* ===== verification/ViewClaims.thy ===== *)
theory ViewClaims
  imports CommandView NamespaceClaims
begin

unbundle bit_operations_syntax

text \<open>
  The properties of the two further filesystems: the view a Go command gets of the namespace, and
  the host directory.
\<close>

section \<open>The view of the root\<close>

text \<open>A name of the root filesystem that neither is nor contains a mount point or the null device.\<close>

definition root_name :: "('w, 'h) namespace \<Rightarrow> string \<Rightarrow> bool" where
  "root_name ns n =
     (valid n \<and> n \<noteq> ''dev/null'' \<and> mount_of ns (path_elems n) = None \<and> \<not> busy ns (path_elems n))"

lemma root_nameD:
  assumes "ns_ok ns" "root_name ns n"
  shows "valid_path n" "\<not> has_suffix (''/'' @ n) ''/''"
    "Resolve ''/'' (''/'' @ n) \<noteq> ''/dev/null''" "Resolve ''/'' (''/'' @ n) \<noteq> ''/dev/null/''"
    "route ns (''/'' @ n) = Inr (root_fs, n, False)" "ns_writable ns (''/'' @ n) = Inr (root_fs, root_write, n)"
    "ns_owner ns (''/'' @ n) = ''/''"
  using assms valid_no_slash [of n] valid_not_null [of n] view_route [of ns n] view_writable [of ns n]
    owner_elems [of ns "''/'' @ n"]
  by (auto simp: root_name_def valid_def)

lemma demo_root_name: "root_name demo ''tmp/x''"
proof -
  have "valid ''tmp/x''" by code_simp
  then show ?thesis
    by (simp add: root_name_def elems_ex demo_mount_of busy_def demo_elems
        demo_def [THEN arg_cong [where f = ns_mounts]])
qed

text \<open>C18: For the names of the root, the view is the root filesystem itself: every call has exactly the
  results and effects of the call of the memory filesystem with the same name, results included;
  only \<open>Remove\<close> reports a missing name with the error of \<open>Stat\<close>.\<close>

theorem view_is_root_filesystem:
  assumes "ns_ok ns" "root_name ns n" "root_name ns n'"
  shows "cv_Stat ns n s = (mem_Stat n (w_mem s), s) \<and> cv_ReadDir ns n s = (mem_ReadDir n (w_mem s), s) \<and>
    cv_Open ns n s = (let (r, m) = mem_Open (w_now s) n (w_mem s)
      in (map_sum id (\<lambda>fd. PlainFile (MemFile fd)) r, s\<lparr>w_mem := m\<rparr>)) \<and>
    cv_OpenFile isw ns n O_RDONLY p s = cv_Open ns n s \<and>
    (has_flag flag (O_WRONLY OR O_RDWR OR O_CREATE OR O_TRUNC OR O_APPEND) \<longrightarrow>
      cv_OpenFile isw ns n flag p s = (let (r, m) = mem_OpenFile (w_now s) n flag p (w_mem s)
        in (map_sum id (\<lambda>fd. PlainFile (MemFile fd)) r, s\<lparr>w_mem := m\<rparr>))) \<and>
    cv_Mkdir ns n p s = (let (r, m) = mem_Mkdir (w_now s) n p (w_mem s) in (r, s\<lparr>w_mem := m\<rparr>)) \<and>
    cv_Remove ns n s = (case mem_Stat n (w_mem s) of Inl e \<Rightarrow> (Some e, s)
      | Inr i \<Rightarrow> let (r, m) = mem_Remove n (w_mem s) in (r, s\<lparr>w_mem := m\<rparr>)) \<and>
    cv_Rename ns n n' s = (let (r, m) = mem_Rename n n' (w_mem s) in (r, s\<lparr>w_mem := m\<rparr>))"
proof -
  note N = root_nameD [OF assms(1,2)] and N' = root_nameD [OF assms(1,3)]
  have st: "ns_Stat ns (''/'' @ n) s = (mem_Stat n (w_mem s), s)"
    using N by (simp add: ns_Stat_def split: sum.split)
  then have lst: "ns_Lstat ns (''/'' @ n) s = (mem_Stat n (w_mem s), s)"
    using N by (simp add: ns_Lstat_def)
  have ro: "\<not> has_flag O_RDONLY (O_WRONLY OR O_RDWR OR O_CREATE OR O_TRUNC OR O_APPEND)" by code_simp
  have op: "ns_Open ns (''/'' @ n) O_RDONLY p s = (let (r, m) = mem_Open (w_now s) n (w_mem s)
      in (map_sum id MemFile r, s\<lparr>w_mem := m\<rparr>))" for p
    using N ro by (simp add: ns_Open_def check_slash_def)
  have opw: "ns_Open ns (''/'' @ n) flag p s = (let (r, m) = mem_OpenFile (w_now s) n flag p (w_mem s)
      in (map_sum id MemFile r, s\<lparr>w_mem := m\<rparr>))"
    if "has_flag flag (O_WRONLY OR O_RDWR OR O_CREATE OR O_TRUNC OR O_APPEND)"
    using N that by (simp add: ns_Open_def check_slash_def)
  show ?thesis
  proof (intro conjI impI)
    show "cv_Open ns n s = (let (r, m) = mem_Open (w_now s) n (w_mem s)
      in (map_sum id (\<lambda>fd. PlainFile (MemFile fd)) r, s\<lparr>w_mem := m\<rparr>))"
      using N(1) op by (cases "fst (mem_Open (w_now s) n (w_mem s))") (simp_all add: cv_Open_def case_prod_beta Let_def)
    show "cv_OpenFile isw ns n O_RDONLY p s = cv_Open ns n s"
      using N(1) op by (cases "fst (mem_Open (w_now s) n (w_mem s))")
        (simp_all add: cv_Open_def cv_OpenFile_def case_prod_beta Let_def)
    show "cv_OpenFile isw ns n flag p s = (let (r, m) = mem_OpenFile (w_now s) n flag p (w_mem s)
        in (map_sum id (\<lambda>fd. PlainFile (MemFile fd)) r, s\<lparr>w_mem := m\<rparr>))"
      if "has_flag flag (O_WRONLY OR O_RDWR OR O_CREATE OR O_TRUNC OR O_APPEND)"
      using N(1) opw [OF that] by (cases "fst (mem_OpenFile (w_now s) n flag p (w_mem s))")
        (simp_all add: cv_OpenFile_def case_prod_beta Let_def)
    show "cv_Remove ns n s = (case mem_Stat n (w_mem s) of Inl e \<Rightarrow> (Some e, s)
      | Inr i \<Rightarrow> let (r, m) = mem_Remove n (w_mem s) in (r, s\<lparr>w_mem := m\<rparr>))"
      using N(1,6) lst by (auto simp: cv_Remove_def ns_Remove_def split: sum.split)
    show "cv_Rename ns n n' s = (let (r, m) = mem_Rename n n' (w_mem s) in (r, s\<lparr>w_mem := m\<rparr>))"
      using N N' by (simp add: cv_Rename_def ns_Rename_def check_slash_def)
  qed (use N st in \<open>simp_all add: cv_Stat_def cv_ReadDir_def ns_ReadDir_def cv_Mkdir_def ns_Mkdir_def\<close>)
qed

theorem view_is_root_filesystem_witness:
  "cv_Mkdir demo ''tmp/x'' 0x1ED demo_world =
    (let (r, m) = mem_Mkdir (w_now demo_world) ''tmp/x'' 0x1ED (w_mem demo_world) in (r, demo_world\<lparr>w_mem := m\<rparr>))"
  using view_is_root_filesystem [OF demo_ok demo_root_name demo_root_name] by blast

section \<open>What a handler can do\<close>

text \<open>One call of a handler on its view, or on a file of the root it has opened.\<close>

inductive view_step :: "('h \<Rightarrow> bool) \<Rightarrow> ('w, 'h) namespace \<Rightarrow> 'w world \<Rightarrow> 'w world \<Rightarrow> bool" for isw ns where
  open_r: "view_step isw ns s (snd (cv_Open ns n s))"
| open_w: "view_step isw ns s (snd (cv_OpenFile isw ns n flag p s))"
| stat: "view_step isw ns s (snd (cv_Stat ns n s))"
| readdir: "view_step isw ns s (snd (cv_ReadDir ns n s))"
| mkdir: "view_step isw ns s (snd (cv_Mkdir ns n p s))"
| remove: "view_step isw ns s (snd (cv_Remove ns n s))"
| rename: "view_step isw ns s (snd (cv_Rename ns n n' s))"
| root_file: "file_step (w_mem s) m \<Longrightarrow> view_step isw ns s (s\<lparr>w_mem := m\<rparr>)"
| mounted: "view_step isw ns s (s\<lparr>w_ext := e\<rparr>)"

lemma Open_reach: "(ns_step ns)\<^sup>*\<^sup>* s (snd (ns_Open ns name flag p s))"
  by (rule r_into_rtranclp) (rule ns_step.open_name)

lemma Remove_reach: "ns_Lstat ns name s = (r, t) \<Longrightarrow> (ns_step ns)\<^sup>*\<^sup>* s (snd (ns_Remove ns name d t))"
  using ns_step.lstat [of ns s name] ns_step.remove [of ns t name d] by fastforce

lemma view_step_reach: "view_step isw ns s s' \<Longrightarrow> (ns_step ns)\<^sup>*\<^sup>* s s'"
proof (induction rule: view_step.cases)
  case (open_r s n)
  have "snd (cv_Open ns n s) = s \<or> snd (cv_Open ns n s) = snd (ns_Open ns (''/'' @ n) O_RDONLY 0 s)"
    by (auto simp: cv_Open_def case_prod_beta split: sum.split)
  then show ?case using open_r Open_reach [of ns s "''/'' @ n" O_RDONLY 0] by auto
next
  case (open_w s n flag p)
  have "snd (cv_OpenFile isw ns n flag p s) = s \<or>
      snd (cv_OpenFile isw ns n flag p s) = snd (ns_Open ns (''/'' @ n) flag p s)"
    by (auto simp: cv_OpenFile_def case_prod_beta split: sum.split)
  then show ?case using open_w Open_reach [of ns s "''/'' @ n" flag p] by auto
next
  case (remove s n)
  obtain r t where l: "ns_Lstat ns (''/'' @ n) s = (r, t)" by fastforce
  then have "(ns_step ns)\<^sup>*\<^sup>* s t" using ns_step.lstat [of ns s "''/'' @ n"] by fastforce
  then show ?case using remove l Remove_reach [OF l] by (auto simp: cv_Remove_def split: sum.split)
next
  case (rename s n n')
  have "snd (cv_Rename ns n n' s) = s \<or> snd (cv_Rename ns n n' s) = snd (ns_Rename ns (''/'' @ n) (''/'' @ n') s)"
    by (simp add: cv_Rename_def)
  then show ?case using rename ns_step.rename [of ns s "''/'' @ n" "''/'' @ n'"] by auto
qed (auto simp: cv_Stat_def cv_ReadDir_def cv_Mkdir_def intro: ns_step.intros r_into_rtranclp)

lemma view_steps_reach: "(view_step isw ns)\<^sup>*\<^sup>* s s' \<Longrightarrow> (ns_step ns)\<^sup>*\<^sup>* s s'"
  by (induction rule: rtranclp_induct) (use view_step_reach rtranclp_trans in fastforce)+

text \<open>Whatever sequence of calls a Go command makes on its view and its open files, the root memory
  keeps its invariant and no mount point disappears.\<close>

theorem handlers_keep_mounts:
  assumes "ns_inv ns s" "(view_step isw ns)\<^sup>*\<^sup>* s s'" "m \<in> set (ns_mounts ns)"
  shows "mem_inv (w_mem s') \<and> is_dir_at (w_mem s') (mount_point m)"
  using ns_steps_inv [OF view_steps_reach [OF assms(2)] assms(1)] assms(3) by (simp add: ns_inv_def)

theorem handlers_keep_mounts_witness:
  "is_dir_at (w_mem (snd (cv_Rename demo ''data'' ''tmp/x'' (snd (cv_Remove demo ''data'' demo_world))))) ''data''"
proof -
  have "(view_step (\<lambda>_. True) demo)\<^sup>*\<^sup>* demo_world
      (snd (cv_Rename demo ''data'' ''tmp/x'' (snd (cv_Remove demo ''data'' demo_world))))"
    by (rule rtranclp.rtrancl_into_rtrancl [OF r_into_rtranclp]) (rule view_step.remove, rule view_step.rename)
  then have "is_dir_at (w_mem (snd (cv_Rename demo ''data'' ''tmp/x'' (snd (cv_Remove demo ''data'' demo_world)))))
      (mount_point demo_mount)"
    using handlers_keep_mounts [OF demo_inv, of "\<lambda>_. True" _ demo_mount]
    by (simp add: demo_def [THEN arg_cong [where f = ns_mounts]])
  then show ?thesis by (simp add: mount_point_def demo_elems)
qed

text \<open>On a mount whose filesystem cannot be written, a handler's open with any writing flag fails with
  \<open>EROFS\<close>; a file it opens to read, which has no \<open>Write\<close> of its own, refuses every write with
  a permission error that names the file, and nothing changes.\<close>

theorem read_only_files_refuse_writes:
  assumes "ns_ok ns" "valid n" "n \<noteq> ''dev/null''" "mount_of ns (path_elems n) = Some m"
    and "fs_Write (the (mt_FS m)) = None" "\<And>h. \<not> isw h"
  shows "(has_flag flag (O_WRONLY OR O_RDWR OR O_CREATE OR O_TRUNC OR O_APPEND) \<longrightarrow>
      cv_OpenFile isw ns n flag p s = (Inl (PathError ''open'' (''/'' @ n) (Errno EROFS)), s)) \<and>
    (\<forall>f t. cv_OpenFile isw ns n flag p s = (Inr f, t) \<longrightarrow>
      cmdfile_Write put f b u = ((0, Some (PathError ''write'' n ErrPermission)), u))"
proof -
  have v: "valid_path n" "\<not> contains_nul n" using assms(2) by (simp_all add: valid_def)
  note null = valid_not_null [OF v(1) assms(3)] and sl = valid_no_slash [OF v(1)]
  have r: "route ns (''/'' @ n) = Inr (mount_fs (the (mt_FS m)),
      name_of (drop (length (mount_elems m)) (path_elems n)), mt_ReadOnly m)"
    using v assms(4) by (simp add: route_elems [OF assms(1)] contains_nul_def)
  have ext: "\<exists>h. f = ExtFile h" if "ns_Open ns (''/'' @ n) flag p s = (Inr f, t)" for f t
    using that null sl r assms(5)
    by (auto simp: ns_Open_def check_slash_def mount_fs_def lift_fs_def lift_open_def case_prod_beta Let_def
        map_sum_def split: if_splits sum.splits)
  show ?thesis
  proof (intro conjI impI allI)
    show "cv_OpenFile isw ns n flag p s = (Inl (PathError ''open'' (''/'' @ n) (Errno EROFS)), s)"
      if "has_flag flag (O_WRONLY OR O_RDWR OR O_CREATE OR O_TRUNC OR O_APPEND)"
      using that null sl r assms(5) v(1) by (simp add: cv_OpenFile_def ns_Open_def check_slash_def)
    show "cmdfile_Write put f b u = ((0, Some (PathError ''write'' n ErrPermission)), u)"
      if "cv_OpenFile isw ns n flag p s = (Inr f, t)" for f t
    proof -
      obtain r t' where r: "ns_Open ns (''/'' @ n) flag p s = (r, t')" by fastforce
      with that v(1) obtain g where "r = Inr g" by (cases r) (simp_all add: cv_OpenFile_def)
      with r have g: "ns_Open ns (''/'' @ n) flag p s = (Inr g, t')" by simp
      then obtain h where "g = ExtFile h" using ext by blast
      then have "f = commandReadOnlyFile g n" using that g v(1) assms(6) by (simp add: cv_OpenFile_def)
      then show ?thesis by simp
    qed
  qed
qed

text \<open>A filesystem with one file that can only be read, on \<open>/data\<close>.\<close>

definition plain_mount :: "(memory \<times> time, fd) mount" where
  "plain_mount = \<lparr>mt_Path = ''/data'', mt_FS = Some (memory_fs\<lparr>fs_Write := None\<rparr>), mt_ReadOnly = False\<rparr>"

theorem read_only_files_refuse_writes_witness:
  "cv_OpenFile (\<lambda>_. False) \<lparr>ns_mounts = [plain_mount]\<rparr> ''data/x'' (O_WRONLY OR O_CREATE) 0 demo_world =
    (Inl (PathError ''open'' ''/data/x'' (Errno EROFS)), demo_world)"
proof -
  let ?ns = "\<lparr>ns_mounts = [plain_mount]\<rparr>"
  have e: "mount_elems plain_mount = [''data'']" "mount_ok plain_mount" "valid ''data/x''"
    "has_flag (O_WRONLY OR O_CREATE) (O_WRONLY OR O_RDWR OR O_CREATE OR O_TRUNC OR O_APPEND)"
    by code_simp+
  have ok: "ns_ok ?ns" using e(2) by (simp add: ns_ok_def)
  have "plain_mount \<in> set (ns_mounts ?ns)" "holds plain_mount (path_elems ''data/x'')"
    using e(1,2) by (simp_all add: elems_ex holds_elems good_elem_def)
  then have "mount_of ?ns (path_elems ''data/x'') = Some plain_mount" by (simp add: mount_of_Some [OF ok])
  moreover have "fs_Write (the (mt_FS plain_mount)) = None" by (simp add: plain_mount_def)
  ultimately show ?thesis
    using read_only_files_refuse_writes [OF ok e(3), of plain_mount "\<lambda>_. False" "O_WRONLY OR O_CREATE" 0 demo_world
        "\<lambda>f b u. ((0, None), u)" "[]" "()"] e(4) by simp
qed

section \<open>The host directory\<close>

text \<open>C20: The host root behind a directory is only ever asked about valid names, and neither to remove nor
  to rename its own top: two roots that agree on those calls give the same filesystem, so nothing
  that a root would do with \<open>..\<close>, absolute names or NUL bytes can be observed.\<close>

theorem directory_confined:
  assumes "same_on_valid R R'"
  shows "directory_fs R = directory_fs R'"
  by (rule directory_same [OF assms])

text \<open>A root that would do anything for a name with \<open>..\<close>, and one that does nothing.\<close>

definition demo_root :: "(string \<Rightarrow> bool) \<Rightarrow> (nat, nat) osroot" where
  "demo_root bad =
     \<lparr>rt_Open = (\<lambda>n s. (Inl ErrNotExist, if bad n then 0 else s)), rt_OpenFile = (\<lambda>n fl p s. (Inl ErrNotExist, if bad n then 0 else s)),
      rt_Stat = (\<lambda>n s. (Inl ErrNotExist, s)), rt_Lstat = (\<lambda>n s. (Inl ErrNotExist, s)), rt_ReadDir = (\<lambda>n s. (Inr [], s)),
      rt_Mkdir = (\<lambda>n p s. (None, s + 1)), rt_Remove = (\<lambda>n s. (None, if bad n then 0 else s)),
      rt_Rename = (\<lambda>a b s. (None, if bad a \<or> bad b then 0 else s)), rt_Readlink = (\<lambda>n s. (Inl ErrInvalid, s)),
      rt_Chmod = (\<lambda>n p s. (None, s)), rt_Chtimes = (\<lambda>n a t s. (None, s)), rt_Close = (\<lambda>s. (None, s))\<rparr>"

theorem directory_confined_witness:
  "directory_fs (demo_root (\<lambda>n. n = ''../x'' \<or> n = ''/etc'')) = directory_fs (demo_root (\<lambda>n. False))"
proof (rule directory_confined)
  have "\<not> valid ''../x''" "\<not> valid ''/etc''" by code_simp+
  then show "same_on_valid (demo_root (\<lambda>n. n = ''../x'' \<or> n = ''/etc'')) (demo_root (\<lambda>n. False))"
    by (auto simp: same_on_valid_def demo_root_def fun_eq_iff)
qed

text \<open>The root memory, a host directory and the view of a handler share the contract of a writable
  filesystem on names: a call that succeeds, or that changes anything at all, was given a valid
  name, without \<open>..\<close>, empty elements or a leading slash.\<close>

theorem changes_need_valid_names:
  "needs_valid valid memory_write \<and> needs_valid valid (directory_write R) \<and>
   needs_valid valid_path (commandFS_write isw ns)"
  using memory.needs_valid directory.needs_valid command_view.needs_valid by blast

end
