(* ===== verification/Session.thy ===== *)
theory Session
  imports ShellRun CommandFS Directory
begin

unbundle bit_operations_syntax

text \<open>
  \<open>shale.go\<close>: a session, which owns a namespace with the command filesystems and the caller's
  mounts in it, a shell, its limits and the commands.  Arguments of the definitions are what is
  not in the repository: the wazero runtime (the results of \<open>Instantiate\<close>, \<open>CompileModule\<close>,
  \<open>InstantiateModule\<close> and \<open>Close\<close>), the bytes of the artifacts, the handlers of the caller
  and the contexts.

  The state of the world behind the mounts is a pair: the open files of the command filesystem and
  the state \<open>'e\<close> of the caller's filesystems.
\<close>

type_synonym 'e sworld = "(commandFile list \<times> 'e) world"
type_synonym ('e, 'k) snamespace = "(commandFile list \<times> 'e, nat + 'k) namespace"

section \<open>Output\<close>

text \<open>\<open>capture\<close>; \<open>cap_cancelled\<close> says whether its \<open>cancel\<close> was called.\<close>

record capture =
  cap_out :: string
  cap_err :: string
  cap_remaining :: int
  cap_exceeded :: bool
  cap_cancelled :: bool

definition new_capture :: "int \<Rightarrow> capture" where
  "new_capture n =
     \<lparr>cap_out = [], cap_err = [], cap_remaining = n, cap_exceeded = False, cap_cancelled = False\<rparr>"

text \<open>\<open>captureWriter.Write\<close>, on the standard output or (\<open>stderr\<close>) the standard error.\<close>

definition cw_append :: "bool \<Rightarrow> string \<Rightarrow> capture \<Rightarrow> capture" where
  "cw_append stderr p c =
     (if stderr then c\<lparr>cap_err := cap_err c @ p\<rparr> else c\<lparr>cap_out := cap_out c @ p\<rparr>)"

definition cw_Write :: "bool \<Rightarrow> string \<Rightarrow> capture \<Rightarrow> (int \<times> goerr option) \<times> capture" where
  "cw_Write stderr p c =
     (if cap_remaining c < int (length p) then
        let q = take (nat (cap_remaining c)) p;
            c' = cw_append stderr q c
        in ((int (length q), Some ErrOutputLimit),
            c'\<lparr>cap_remaining := 0, cap_exceeded := True, cap_cancelled := True\<rparr>)
      else ((int (length p), None),
            (cw_append stderr p c)\<lparr>cap_remaining := cap_remaining c - int (length p)\<rparr>))"

text \<open>Any sequence of writes of the stages of a pipeline, in the order the lock lets them in.\<close>

definition captured :: "int \<Rightarrow> (bool \<times> string) list \<Rightarrow> capture" where
  "captured n ws = foldl (\<lambda>c (stderr, p). snd (cw_Write stderr p c)) (new_capture n) ws"

section \<open>Options\<close>

type_synonym ('e, 'k) smount = "('e, 'k) mount"

record ('e, 'k, 'c) options =
  op_Mounts :: "('e, 'k) smount list"
  op_Cwd :: string
  op_Env :: "(string \<times> string) list"
  op_Commands :: "(string \<times> 'c option) list"
  op_Timeout :: int
  op_MaxOutputBytes :: int
  op_MaxFileBytes :: int
  op_MaxSteps :: int
  op_MemoryLimitPages :: "32 Word.word"

definition negative_limit :: "('e, 'k, 'c) options \<Rightarrow> bool" where
  "negative_limit opts =
     (op_Timeout opts < 0 \<or> op_MaxOutputBytes opts < 0 \<or> op_MaxFileBytes opts < 0 \<or> op_MaxSteps opts < 0)"

definition with_defaults :: "('e, 'k, 'c) options \<Rightarrow> ('e, 'k, 'c) options" where
  "with_defaults opts = opts
     \<lparr>op_Timeout := if op_Timeout opts = 0 then 10 * 1000000000 else op_Timeout opts,
      op_MaxOutputBytes := if op_MaxOutputBytes opts = 0 then 1048576 else op_MaxOutputBytes opts,
      op_MaxFileBytes := if op_MaxFileBytes opts = 0 then 67108864 else op_MaxFileBytes opts,
      op_MaxSteps := if op_MaxSteps opts = 0 then 10000 else op_MaxSteps opts,
      op_MemoryLimitPages := if op_MemoryLimitPages opts = 0 then 2048 else op_MemoryLimitPages opts\<rparr>"

definition bad_env :: "string \<times> string \<Rightarrow> bool" where
  "bad_env kv = (case kv of (k, v) \<Rightarrow>
     k = [] \<or> CHR ''='' \<in> set k \<or> contains_nul k \<or> contains_nul v)"

text \<open>
  The check of the commands, in the order in which the loop meets them: what it fails with, if it
  does.
\<close>

definition bad_command :: "(string \<Rightarrow> byte list) \<Rightarrow> string \<times> 'c option \<Rightarrow> goerr option" where
  "bad_command art nh = (case nh of (name, handler) \<Rightarrow>
     if \<not> valid_path name \<or> name = ''.'' \<or> slash \<in> set name \<or> CHR 0x5C \<in> set name \<or> contains_nul name
        \<or> handler = None
     then Some (ErrText (''invalid custom command: '' @ go_quote name))
     else if Lookup art name \<noteq> None \<or> IsBuiltin name
     then Some (ErrText (''command already registered: '' @ go_quote name))
     else None)"

fun check_commands :: "(string \<Rightarrow> byte list) \<Rightarrow> (string \<times> 'c option) list \<Rightarrow> goerr option" where
  "check_commands art [] = None"
| "check_commands art (nh # rest) =
     (case bad_command art nh of Some e \<Rightarrow> Some e | None \<Rightarrow> check_commands art rest)"

text \<open>The mounts: the commands in \<open>/bin\<close> and \<open>/usr/bin\<close>, then those of the caller.\<close>

definition bin_fs ::
  "(string \<Rightarrow> byte list) \<Rightarrow> string list \<Rightarrow> (commandFile list \<times> 'e, nat + 'k) filesys" where
  "bin_fs art names = lift_fs fst (\<lambda>c s. (c, snd s)) Inl (command_fs art names)"

definition own_fs :: "('e, 'k) filesys \<Rightarrow> (commandFile list \<times> 'e, nat + 'k) filesys" where
  "own_fs F = lift_fs snd (\<lambda>e s. (fst s, e)) Inr F"

definition session_mounts ::
  "(string \<Rightarrow> byte list) \<Rightarrow> string list \<Rightarrow> ('e, 'k) smount list \<Rightarrow>
   (commandFile list \<times> 'e, nat + 'k) mount list" where
  "session_mounts art names ms =
     [\<lparr>mt_Path = ''/bin'', mt_FS = Some (bin_fs art names), mt_ReadOnly = True\<rparr>,
      \<lparr>mt_Path = ''/usr/bin'', mt_FS = Some (bin_fs art names), mt_ReadOnly = True\<rparr>] @
     map (\<lambda>m. \<lparr>mt_Path = mt_Path m, mt_FS = map_option own_fs (mt_FS m), mt_ReadOnly = mt_ReadOnly m\<rparr>) ms"

section \<open>Sessions\<close>

text \<open>
  \<open>se_compiled\<close>: the modules whose \<open>compiled\<close> field is set.  The gate is modelled by itself
  (\<open>SessionGate\<close>): here every call runs while it holds the gate.
\<close>

record ('e, 'k, 'c, 'x) session =
  se_compiled :: "string list"
  se_fs :: "('e, 'k) snamespace"
  se_shell :: "'x shell"
  se_opts :: "('e, 'k, 'c) options"
  se_closed :: bool
  se_commands :: "(string \<times> 'c option) list"

text \<open>\<open>module.compile\<close>: the result of \<open>CompileModule\<close> is cached if it is one.\<close>

definition compile :: "goerr option \<Rightarrow> module \<Rightarrow> string list \<Rightarrow> goerr option \<times> string list" where
  "compile CompileModule m cs =
     (if md_Name m \<in> set cs then (None, cs)
      else case CompileModule of
        Some e \<Rightarrow> (Some (Wrapped (''compile '' @ md_Name m) e), cs)
      | None \<Rightarrow> (None, md_Name m # cs))"

definition session_New ::
  "(string \<Rightarrow> byte list) \<Rightarrow> goerr option \<Rightarrow> goerr option \<Rightarrow> time \<Rightarrow> 64 Word.word \<Rightarrow>
   ('e, 'k, 'c) options \<Rightarrow> 'e \<Rightarrow> ('e, 'k, 'c, 'x) session res \<times> 'e sworld option" where
  "session_New art Instantiate CompileModule now counter opts ext =
     (if negative_limit opts then (Inl (ErrText ''limits cannot be negative''), None)
      else
        let o1 = with_defaults opts
        in if 65536 < op_MemoryLimitPages o1 then (Inl (ErrText ''WASM memory exceeds 4 GiB''), None)
           else
             let cwd0 = (if op_Cwd o1 = [] then ''/work'' else op_Cwd o1)
             in if \<not> has_prefix cwd0 ''/'' then (Inl (ErrText ''cwd must be absolute''), None)
                else
                  let cwd = path_clean (Resolve ''/'' cwd0); o2 = o1\<lparr>op_Cwd := cwd\<rparr>
                  in if list_ex bad_env (op_Env o2) then (Inl (ErrText ''invalid environment entry''), None)
                     else case check_commands art (op_Commands o2) of
                       Some e \<Rightarrow> (Inl e, None)
                     | None \<Rightarrow>
                         (case NewNamespace now counter
                                 (session_mounts art (map fst (op_Commands o2)) (op_Mounts o2))
                                 (op_MaxFileBytes o2) ([], ext) of
                            (Inl e, w) \<Rightarrow> (Inl e, Some w)
                          | (Inr ns, w) \<Rightarrow>
                              (case ns_Stat ns cwd w of
                                 (Inl e, w1) \<Rightarrow> (Inl e, Some w1)
                               | (Inr i, w1) \<Rightarrow>
                                   if \<not> info_is_dir i then (Inl (ErrText ''cwd is not a directory''), Some w1)
                                   else case Instantiate of
                                     Some e \<Rightarrow> (Inl e, Some w1)
                                   | None \<Rightarrow>
                                       (case compile CompileModule (hd (Modules art)) [] of
                                          (Some e, cs) \<Rightarrow> (Inl e, Some w1)
                                        | (None, cs) \<Rightarrow>
                                            (Inr \<lparr>se_compiled = cs, se_fs = ns, se_shell = NewShell cwd (op_Env o2),
                                                  se_opts = o2, se_closed = False, se_commands = op_Commands o2\<rparr>,
                                             Some w1)))))"

text \<open>\<open>Close\<close>, with the result of closing the runtime.\<close>

definition session_Close ::
  "goerr option \<Rightarrow> ('e, 'k, 'c, 'x) session \<Rightarrow> goerr option \<times> ('e, 'k, 'c, 'x) session" where
  "session_Close runtimeClose se =
     (if se_closed se then (None, se) else (runtimeClose, se\<lparr>se_closed := True\<rparr>))"

section \<open>Run\<close>

record result =
  rs_Stdout :: string
  rs_Stderr :: string
  rs_ExitCode :: int
  rs_Exited :: bool

record request =
  rq_Script :: string
  rq_Stdin :: string

definition no_result :: result where
  "no_result = \<lparr>rs_Stdout = [], rs_Stderr = [], rs_ExitCode = 0, rs_Exited = False\<rparr>"

text \<open>The checks before the script runs, and what is made of its results.\<close>

definition run_refused :: "('e, 'k, 'c, 'x) session \<Rightarrow> request \<Rightarrow> goerr option" where
  "run_refused se rq =
     (if se_closed se then Some ErrClosed
      else if MaxScript < length (rq_Stdin rq) then Some ErrLimit else None)"

definition run_streams :: "request \<Rightarrow> streams" where
  "run_streams rq = \<lparr>io_In = Obj 0, io_Out = Obj 1, io_Err = Obj 2, io_InSet = (rq_Stdin rq \<noteq> [])\<rparr>"

definition run_finish ::
  "int \<Rightarrow> goerr option \<Rightarrow> capture \<Rightarrow> goerr option \<Rightarrow> bool \<Rightarrow> result \<times> goerr option" where
  "run_finish code e cap ctx exited =
     (let (code', e') = (if cap_exceeded cap then (1, Some ErrOutputLimit)
                         else if ctx \<noteq> None then (1, ctx) else (code, e))
      in (\<lparr>rs_Stdout = cap_out cap, rs_Stderr = cap_err cap, rs_ExitCode = code',
           rs_Exited = exited\<rparr>, e'))"

text \<open>
  The calls of \<open>Run\<close>: a context that has ended while the call waited for the gate, a refused
  call, or an execution of the script as in \<open>ShellRun\<close>, with more fuel than steps.  What the
  two writers captured is the result of any sequence of writes.
\<close>

inductive session_Run ::
  "'x library \<Rightarrow> request \<Rightarrow> ('e, 'k, 'c, 'x) session \<times> 'e sworld \<Rightarrow> result \<times> goerr option \<Rightarrow>
   ('e, 'k, 'c, 'x) session \<times> 'e sworld \<Rightarrow> bool" for L rq where
  no_gate: "session_Run L rq (se, w) (no_result, Some e) (se, w)"
| refused: "run_refused se rq = Some e \<Longrightarrow> session_Run L rq (se, w) (no_result, Some e) (se, w)"
| finished: "run_refused se rq = None \<Longrightarrow>
    (proc_step (se_fs se))\<^sup>*\<^sup>*
      (sh_Run L (Suc (nat (op_MaxSteps (se_opts se)))) (rq_Script rq) (run_streams rq) (se_shell se),
       \<lparr>rn_ctx = None, rn_steps = 0, rn_maxSteps = op_MaxSteps (se_opts se)\<rparr>, w)
      (done_with code e t, r, w') \<Longrightarrow>
    elapse r r' \<Longrightarrow> cap = captured (op_MaxOutputBytes (se_opts se)) ws \<Longrightarrow>
    session_Run L rq (se, w) (run_finish code e cap (rn_ctx r') (sh_Exited t)) (se\<lparr>se_shell := t\<rparr>, w')"

text \<open>\<open>Exec\<close> runs a script without input.\<close>

definition session_Exec where
  "session_Exec L script = session_Run L \<lparr>rq_Script = script, rq_Stdin = []\<rparr>"

section \<open>Reading files\<close>

text \<open>
  \<open>io.ReadAll\<close> on an \<open>io.LimitReader\<close>: at each round the room left in the buffer is
  \<open>room\<close> of what it holds.  The fuel bounds the rounds; \<open>None\<close> if it does not suffice.
\<close>

fun read_all ::
  "nat \<Rightarrow> (nat \<Rightarrow> nat) \<Rightarrow> (nat \<Rightarrow> 's \<Rightarrow> (byte list \<times> goerr option) \<times> 's) \<Rightarrow> int \<Rightarrow> byte list \<Rightarrow> 's \<Rightarrow>
   ((byte list \<times> goerr option) \<times> 's) option" where
  "read_all 0 room rd n acc s = None"
| "read_all (Suc k) room rd n acc s =
     (if n \<le> 0 then Some ((acc, None), s)
      else
        let ((bs, e), s1) = rd (min (room (length acc)) (nat n)) s; acc' = acc @ bs
        in case e of
             Some err \<Rightarrow> Some ((acc', if err = EOF then None else Some err), s1)
           | None \<Rightarrow> read_all k room rd (n - int (length bs)) acc' s1)"

text \<open>
  Reading and closing an opened file of the namespace; those of the mounted filesystems are
  arguments.
\<close>

definition vf_Read ::
  "('h \<Rightarrow> nat \<Rightarrow> 'w \<Rightarrow> (byte list \<times> goerr option) \<times> 'w) \<Rightarrow> 'h vfile \<Rightarrow> nat \<Rightarrow> 'w world \<Rightarrow>
   (byte list \<times> goerr option) \<times> 'w world" where
  "vf_Read readExt f n w =
     (case f of
        NullFile \<Rightarrow> (([], Some EOF), w)
      | MemFile h \<Rightarrow> (let (r, m) = mf_Read h n (w_mem w) in (r, w\<lparr>w_mem := m\<rparr>))
      | ExtFile x \<Rightarrow> (let (r, e) = readExt x n (w_ext w) in (r, w\<lparr>w_ext := e\<rparr>)))"

definition vf_Close ::
  "('h \<Rightarrow> 'w \<Rightarrow> goerr option \<times> 'w) \<Rightarrow> 'h vfile \<Rightarrow> 'w world \<Rightarrow> goerr option \<times> 'w world" where
  "vf_Close closeExt f w =
     (case f of
        NullFile \<Rightarrow> (None, w)
      | MemFile h \<Rightarrow> (let (r, m) = mf_Close h (w_mem w) in (r, w\<lparr>w_mem := m\<rparr>))
      | ExtFile x \<Rightarrow> (let (r, e) = closeExt x (w_ext w) in (r, w\<lparr>w_ext := e\<rparr>)))"

text \<open>\<open>ReadFile\<close>; \<open>None\<close> if the fuel \<open>k\<close> of \<open>read_all\<close> does not suffice.\<close>

definition session_ReadFile ::
  "nat \<Rightarrow> (nat \<Rightarrow> nat) \<Rightarrow>
   (nat + 'k \<Rightarrow> nat \<Rightarrow> commandFile list \<times> 'e \<Rightarrow> (byte list \<times> goerr option) \<times> (commandFile list \<times> 'e)) \<Rightarrow>
   (nat + 'k \<Rightarrow> commandFile list \<times> 'e \<Rightarrow> goerr option \<times> (commandFile list \<times> 'e)) \<Rightarrow>
   ('e, 'k, 'c, 'x) session \<Rightarrow> string \<Rightarrow> 'e sworld \<Rightarrow>
   ((byte list \<times> goerr option) \<times> 'e sworld) option" where
  "session_ReadFile k room readExt closeExt se name w =
     (if se_closed se then Some (([], Some ErrClosed), w)
      else case ns_Open (se_fs se) (Resolve (sh_Cwd (se_shell se)) name) O_RDONLY 0 w of
        (Inl e, w1) \<Rightarrow> Some (([], Some e), w1)
      | (Inr f, w1) \<Rightarrow>
          let mx = op_MaxFileBytes (se_opts se); limit = (if mx < max_int64 then mx + 1 else mx)
          in case read_all k room (vf_Read readExt f) limit [] w1 of
               None \<Rightarrow> None
             | Some ((b, e), w2) \<Rightarrow>
                 let w3 = snd (vf_Close closeExt f w2)
                 in Some (if mx < int (length b) then ([], Some ErrLimit) else (b, e), w3))"

section \<open>Commands\<close>

text \<open>Where \<open>command\<close> sends a command.\<close>

datatype 'c dispatch = Handler 'c | Embedded module "string list" | NotFound

definition command_dispatch ::
  "(string \<Rightarrow> byte list) \<Rightarrow> (string \<times> 'c option) list \<Rightarrow> string list \<Rightarrow> 'c dispatch" where
  "command_dispatch art commands args =
     (case map_of commands (hd args) of
        Some (Some h) \<Rightarrow> Handler h
      | _ \<Rightarrow> (case Lookup art (hd args) of
               None \<Rightarrow> NotFound
             | Some m \<Rightarrow> Embedded m (Argv m args)))"

text \<open>The environment of an embedded command, and what is made of its end.\<close>

definition command_env :: "(string \<times> string) list \<Rightarrow> string \<Rightarrow> bool \<Rightarrow> (string \<times> string) list" where
  "command_env env cwd inSet =
     AList.update ''SHALE_STDIN'' (if inSet then ''true'' else ''false'')
       (AList.update ''SHALE_CWD'' cwd env)"

datatype instance_end = Returned | ExitError "32 Word.word" | Failed goerr

definition command_result :: "goerr option \<Rightarrow> instance_end \<Rightarrow> int \<times> goerr option" where
  "command_result ctx i =
     (if ctx \<noteq> None then (1, ctx)
      else case i of
        Returned \<Rightarrow> (0, None)
      | ExitError code \<Rightarrow> (uint code, None)
      | Failed e \<Rightarrow> (1, Some e))"

text \<open>
  \<open>command\<close> for an embedded module: it is compiled first, if it was not; \<open>inst\<close> is how the
  instance ends.
\<close>

definition run_embedded ::
  "goerr option \<Rightarrow> goerr option \<Rightarrow> instance_end \<Rightarrow> module \<Rightarrow> string list \<Rightarrow>
   (int \<times> goerr option) \<times> string list" where
  "run_embedded CompileModule ctx inst m cs =
     (case compile CompileModule m cs of
        (Some e, cs') \<Rightarrow> ((1, Some e), cs')
      | (None, cs') \<Rightarrow> (command_result ctx inst, cs'))"

text \<open>
  \<open>command\<close>: the result, what it writes to the standard error itself, and the modules that are
  compiled afterwards.
\<close>

definition shale_command ::
  "(string \<Rightarrow> byte list) \<Rightarrow> (string \<times> 'c option) list \<Rightarrow>
   ('c \<Rightarrow> string \<Rightarrow> string list \<Rightarrow> (string \<times> string) list \<Rightarrow> int \<times> goerr option) \<Rightarrow>
   (module \<Rightarrow> goerr option) \<Rightarrow> (module \<Rightarrow> string list \<Rightarrow> (string \<times> string) list \<Rightarrow> instance_end) \<Rightarrow>
   goerr option \<Rightarrow> string \<Rightarrow> string list \<Rightarrow> (string \<times> string) list \<Rightarrow> bool \<Rightarrow> string list \<Rightarrow>
   (int \<times> goerr option) \<times> string \<times> string list" where
  "shale_command art commands handle CompileModule inst ctx cwd args env inSet cs =
     (case command_dispatch art commands args of
        Handler h \<Rightarrow> (handle h cwd args env, [], cs)
      | NotFound \<Rightarrow> ((127, None), hd args @ '': command not found'' @ [newline], cs)
      | Embedded m argv \<Rightarrow>
          let (r, cs') = run_embedded (CompileModule m) ctx (inst m argv (command_env env cwd inSet)) m cs
          in (r, [], cs'))"

text \<open>\<open>Versions\<close>: the release of each project.\<close>

definition Versions :: "(string \<Rightarrow> byte list) \<Rightarrow> (string \<times> string) list" where
  "Versions art = foldl (\<lambda>v m. AList.update (md_Project m) (md_Version m) v) [] (Modules art)"

text \<open>A module is compiled once: after a call that did not fail to compile it, no later call can.\<close>

lemma compiled_once:
  assumes "run_embedded cm ctx i m cs = (r, cs')" "set cs' \<subseteq> set ds" "cm = None"
  shows "run_embedded cm' ctx' j m ds = (command_result ctx' j, ds)"
proof -
  have "md_Name m \<in> set cs'" using assms(1,3) by (auto simp: run_embedded_def compile_def split: if_splits)
  then show ?thesis using assms(2) by (auto simp: run_embedded_def compile_def)
qed

end
