(* ===== verification/SessionSafe.thy ===== *)
theory SessionSafe
  imports Session ShellFrame
begin

unbundle bit_operations_syntax

text \<open>
  The invariant of a session and its calls, and what \<open>io.ReadAll\<close> makes of a file of the root.
\<close>

section \<open>Executions end as their process says\<close>

lemma proc_step_ends: "proc_step ns (p, r, w) (p', r', w') \<Longrightarrow> ends p P \<Longrightarrow> ends p' P"
proof (induction p r w p' r' w' arbitrary: P rule: proc_step.induct [split_format (complete)])
  case (left p r w p' r' w' q f)
  have "ends (f a) P" if "\<not> ends p' (\<lambda>c e s. (c, e) \<noteq> fst a)" "\<not> ends q (\<lambda>c e s. (c, e) \<noteq> snd a)" for a
    using left.prems left.IH that by (auto simp del: split_paired_All)
  then show ?case by simp
next
  case (right q r w q' r' w' p f)
  have "ends (f a) P" if "\<not> ends p (\<lambda>c e s. (c, e) \<noteq> fst a)" "\<not> ends q' (\<lambda>c e s. (c, e) \<noteq> snd a)" for a
    using right.prems right.IH that by (auto simp del: split_paired_All)
  then show ?case by simp
next
  case (join c e s c' e' s' f r w)
  then show ?case by simp
qed (auto simp del: split_paired_All)

lemma proc_steps_ends: "(proc_step ns)\<^sup>*\<^sup>* (p, r, w) (p', r', w') \<Longrightarrow> ends p P \<Longrightarrow> ends p' P"
proof (induction p' r' w' rule: rtranclp_induct [of "proc_step ns" "(p, r, w)" "(a, b, c)" for a b c, split_format (complete)])
  case (step p1 r1 w1 p2 r2 w2)
  then show ?case using proc_step_ends by blast
qed simp

section \<open>The invariant\<close>

text \<open>
  The namespace and its root are sound, the functions of the shell are statements that \<open>Parse\<close>
  would accept, no function call is under way, and the limits are set.
\<close>

definition limits_set :: "('e, 'k, 'c) options \<Rightarrow> bool" where
  "limits_set opts =
     (0 < op_Timeout opts \<and> 0 < op_MaxOutputBytes opts \<and> 0 < op_MaxFileBytes opts \<and> 0 < op_MaxSteps opts \<and>
      0 < op_MemoryLimitPages opts \<and> op_MemoryLimitPages opts \<le> 65536)"

definition session_inv :: "'x library \<Rightarrow> ('e, 'k, 'c, 'x) session \<times> 'e sworld \<Rightarrow> bool" where
  "session_inv L c = (case c of (se, w) \<Rightarrow>
     ns_inv (se_fs se) w \<and> funcs_ok (good L) (se_shell se) \<and>
     sh_args (se_shell se) = [] \<and> sh_depth (se_shell se) = 0 \<and> limits_set (se_opts se))"

text \<open>
  One call on a session: a run, closing it, or any calls on its namespace (\<open>ReadFile\<close>, or the
  activity of the mounted filesystems between calls).
\<close>

inductive session_call ::
  "'x library \<Rightarrow> ('e, 'k, 'c, 'x) session \<times> 'e sworld \<Rightarrow> ('e, 'k, 'c, 'x) session \<times> 'e sworld \<Rightarrow> bool" for L where
  run: "session_Run L rq c out c' \<Longrightarrow> session_call L c c'"
| files: "ns_reach (se_fs se) w w' \<Longrightarrow> session_call L (se, w) (se, w')"
| close: "session_call L (se, w) (snd (session_Close x se), w)"

lemma session_Run_inv:
  assumes "walks_all L" "session_Run L rq c out c'" "session_inv L c"
  shows "session_inv L c'"
  using assms(2)
proof cases
  case (finished se w code e t r w' r' cap ws)
  let ?s = "se_shell se"
  have inv: "ns_inv (se_fs se) w" "funcs_ok (good L) ?s" "sh_args ?s = []" "sh_depth ?s = 0" "limits_set (se_opts se)"
    using assms(3) finished by (simp_all add: session_inv_def)
  have "ns_inv (se_fs se) w'" using ns_steps_inv [OF proc_steps_reach [OF finished(5)] inv(1)] .
  moreover have "funcs_ok (good L) t"
    using proc_steps_calm [OF finished(5) interp_partial.Run_ok [OF calm_laws [OF assms(1)] inv(2)]] by simp
  moreover have "ends (sh_Run L n src io ?s) (\<lambda>c e t. sh_args t = [] \<and> sh_depth t = 0)" for n src io
    unfolding sh_Run_def Let_def using inv(3,4)
    by (auto intro!: ends_bind [OF list_frame [OF exec_framed frame_refl]] simp: frame_def
        split: sum.split option.split)
  from proc_steps_ends [OF finished(5) this] have "sh_args t = []" "sh_depth t = 0" by simp_all
  ultimately show ?thesis using inv(5) finished by (simp add: session_inv_def)
qed (use assms(3) in simp_all)

lemma session_call_inv:
  assumes "walks_all L" "session_call L c c'" "session_inv L c"
  shows "session_inv L c'"
  using assms(2)
proof cases
  case (files se w w')
  then show ?thesis using assms(3) ns_steps_inv [OF files(3)] by (simp add: session_inv_def)
next
  case (close se w x)
  then show ?thesis using assms(3) by (simp add: session_inv_def session_Close_def)
qed (use session_Run_inv assms in blast)

lemma session_calls_inv:
  "walks_all L \<Longrightarrow> (session_call L)\<^sup>*\<^sup>* c c' \<Longrightarrow> session_inv L c \<Longrightarrow> session_inv L c'"
  by (erule rtranclp_induct) (auto intro: session_call_inv)

section \<open>New sessions\<close>

definition start_cwd :: "('e, 'k, 'c) options \<Rightarrow> string" where
  "start_cwd opts = path_clean (Resolve ''/'' (if op_Cwd opts = [] then ''/work'' else op_Cwd opts))"

lemma session_New_parts:
  assumes "session_New art inst cm now counter opts ext = (Inr se, w)"
  obtains ns w0 w1 i where "\<not> negative_limit opts" "op_MemoryLimitPages (with_defaults opts) \<le> 65536"
    "\<not> list_ex bad_env (op_Env opts)" "check_commands art (op_Commands opts) = None"
    "NewNamespace now counter (session_mounts art (map fst (op_Commands opts)) (op_Mounts opts))
       (op_MaxFileBytes (with_defaults opts)) ([], ext) = (Inr ns, w0)"
    "ns_Stat ns (start_cwd opts) w0 = (Inr i, w1)" "info_is_dir i" "w = Some w1"
    "se = \<lparr>se_compiled = [md_Name (hd (Modules art))], se_fs = ns, se_shell = NewShell (start_cwd opts) (op_Env opts),
       se_opts = (with_defaults opts)\<lparr>op_Cwd := start_cwd opts\<rparr>, se_closed = False, se_commands = op_Commands opts\<rparr>"
proof -
  let ?o = "with_defaults opts"
  have same: "op_Cwd ?o = op_Cwd opts" "op_Env ?o = op_Env opts" "op_Commands ?o = op_Commands opts"
    "op_Mounts ?o = op_Mounts opts" by (simp_all add: with_defaults_def)
  have same2: "op_Env (?o\<lparr>op_Cwd := d\<rparr>) = op_Env opts" "op_Commands (?o\<lparr>op_Cwd := d\<rparr>) = op_Commands opts"
    "op_Mounts (?o\<lparr>op_Cwd := d\<rparr>) = op_Mounts opts" "op_MaxFileBytes (?o\<lparr>op_Cwd := d\<rparr>) = op_MaxFileBytes ?o" for d
    by (simp_all add: same)
  let ?New = "NewNamespace now counter (session_mounts art (map fst (op_Commands opts)) (op_Mounts opts))
    (op_MaxFileBytes ?o) ([], ext)"
  have g: "\<not> negative_limit opts" "\<not> 65536 < op_MemoryLimitPages ?o"
    "has_prefix (if op_Cwd opts = [] then ''/work'' else op_Cwd opts) ''/''"
    "\<not> list_ex bad_env (op_Env opts)" "check_commands art (op_Commands opts) = None"
    using assms by (simp_all add: session_New_def Let_def same split: if_split_asm option.split_asm)
  obtain r w0 where New: "?New = (r, w0)" by fastforce
  have "\<exists>ns. r = Inr ns"
    using assms g New by (cases r) (simp_all add: session_New_def Let_def same split: if_split_asm)
  then obtain ns where r: "r = Inr ns" by blast
  obtain q w1 where st: "ns_Stat ns (start_cwd opts) w0 = (q, w1)" by fastforce
  have eq: "session_New art inst cm now counter opts ext =
    (case ns_Stat ns (start_cwd opts) w0 of
       (Inl e, w1) \<Rightarrow> (Inl e, Some w1)
     | (Inr i, w1) \<Rightarrow>
         if \<not> info_is_dir i then (Inl (ErrText ''cwd is not a directory''), Some w1)
         else case inst of
           Some e \<Rightarrow> (Inl e, Some w1)
         | None \<Rightarrow>
             (case compile cm (hd (Modules art)) [] of
                (Some e, cs) \<Rightarrow> (Inl e, Some w1)
              | (None, cs) \<Rightarrow>
                  (Inr \<lparr>se_compiled = cs, se_fs = ns, se_shell = NewShell (start_cwd opts) (op_Env opts),
                        se_opts = ?o\<lparr>op_Cwd := start_cwd opts\<rparr>, se_closed = False, se_commands = op_Commands opts\<rparr>,
                   Some w1)))"
    unfolding session_New_def Let_def same same2 start_cwd_def
    by (simp only: if_False if_True not_True_eq_False not_False_eq_True g New r option.case sum.case prod.case)
  obtain i where i: "q = Inr i" using assms st unfolding eq by (cases q) simp_all
  then have "info_is_dir i" "inst = None" using assms st unfolding eq by (simp_all split: if_split_asm option.split_asm)
  moreover obtain ce cs where "compile cm (hd (Modules art)) [] = (ce, cs)" by fastforce
  moreover from this have "ce = None \<longrightarrow> cs = [md_Name (hd (Modules art))]"
    by (auto simp: compile_def split: option.splits)
  ultimately show thesis
    using that [OF g(1) _ g(4,5) New [unfolded r] st [unfolded i]] assms st i g(2) unfolding eq
    by (cases ce) (simp_all add: not_less)
qed

lemma with_defaults_set:
  "\<not> negative_limit opts \<Longrightarrow> op_MemoryLimitPages (with_defaults opts) \<le> 65536 \<Longrightarrow>
   limits_set ((with_defaults opts)\<lparr>op_Cwd := d\<rparr>)"
  by (auto simp: negative_limit_def limits_set_def with_defaults_def word_neq_0_conv)

lemma session_New_inv:
  assumes "session_New art inst cm now counter opts ext = (Inr se, Some w)" "op_MaxFileBytes opts \<le> max_int64"
  shows "session_inv L (se, w)"
    "set (ns_mounts (se_fs se)) = set (session_mounts art (map fst (op_Commands opts)) (op_Mounts opts))"
proof -
  obtain ns w0 w1 i where p: "\<not> negative_limit opts" "op_MemoryLimitPages (with_defaults opts) \<le> 65536"
    "NewNamespace now counter (session_mounts art (map fst (op_Commands opts)) (op_Mounts opts))
       (op_MaxFileBytes (with_defaults opts)) ([], ext) = (Inr ns, w0)"
    "ns_Stat ns (start_cwd opts) w0 = (Inr i, w1)" "Some w = Some w1"
    "se = \<lparr>se_compiled = [md_Name (hd (Modules art))], se_fs = ns, se_shell = NewShell (start_cwd opts) (op_Env opts),
       se_opts = (with_defaults opts)\<lparr>op_Cwd := start_cwd opts\<rparr>, se_closed = False, se_commands = op_Commands opts\<rparr>"
    by (rule session_New_parts [OF assms(1)]) blast
  have mx: "op_MaxFileBytes (with_defaults opts) \<le> max_int64"
    using assms(2) by (simp add: with_defaults_def max_int64_def)
  have "ns_inv ns w0" by (rule NewNamespace_inv(1) [OF mx p(3)])
  then have "ns_inv ns w" using ns_step_inv [OF _ ns_step.stat, of ns w0 "start_cwd opts"] p(4,5) by simp
  then show "session_inv L (se, w)"
    using with_defaults_set [OF p(1,2)] p(6) by (simp add: session_inv_def NewShell_def funcs_ok_def)
  show "set (ns_mounts (se_fs se)) = set (session_mounts art (map fst (op_Commands opts)) (op_Mounts opts))"
    using NewNamespace_inv(2) [OF mx p(3)] p(6) by simp
qed

section \<open>Reading a file of the root\<close>

text \<open>A handle that can be read, with \<open>i\<close> bytes behind it.\<close>

definition reads_at :: "memory \<Rightarrow> fd \<Rightarrow> nat \<Rightarrow> byte list \<Rightarrow> bool" where
  "reads_at m h i d =
     (h < length (m_files m) \<and> f_readable (the_file m h) \<and> \<not> f_closed (the_file m h) \<and>
      \<not> mode_is_dir (n_mode (file_node m h)) \<and> n_data (file_node m h) = d \<and>
      f_pos (the_file m h) = int i \<and> i \<le> length d \<and> int (length d) \<le> max_int64)"

lemma mf_Read_reads:
  assumes "reads_at m h i d" "0 < len"
  shows "fst (fst (mf_Read h len m)) = take len (drop i d)"
    "snd (fst (mf_Read h len m)) = (if length d - i < len then Some EOF else None)"
    "reads_at (snd (mf_Read h len m)) h (i + length (take len (drop i d))) d"
proof -
  let ?bs = "take len (drop i d)"
  have a: "mf_readAt h len (int i) m = (?bs, if length d - i < len then Some EOF else None)"
    using assms by (auto simp: reads_at_def mf_readAt_def Let_def)
  have h: "h < length (m_files m)" and pos: "f_pos (the_file m h) = int i"
    using assms(1) by (simp_all add: reads_at_def)
  have r: "mf_Read h len m = ((?bs, if length d - i < len then Some EOF else None),
      upd_file h (\<lambda>f. f\<lparr>f_pos := i64 (f_pos f + int (length ?bs))\<rparr>) m)"
    unfolding mf_Read_def pos a by simp
  show "fst (fst (mf_Read h len m)) = ?bs"
    "snd (fst (mf_Read h len m)) = (if length d - i < len then Some EOF else None)"
    unfolding r by (simp_all only: fst_conv snd_conv)
  let ?m = "upd_file h (\<lambda>f. f\<lparr>f_pos := i64 (f_pos f + int (length ?bs))\<rparr>) m"
  have b: "i + length ?bs \<le> length d" using assms(1) by (auto simp: reads_at_def)
  have "i64 (int i + int (length ?bs)) = int (i + length ?bs)"
    using assms(1) b by (subst i64_bounded) (simp_all add: reads_at_def)
  then have f: "the_file ?m h = (the_file m h)\<lparr>f_pos := int (i + length ?bs)\<rparr>"
    by (simp only: the_file_upd_file [OF h] if_True pos simp_thms)
  have n: "file_node ?m h = file_node m h"
    unfolding file_node_def f upd_file_simps by simp
  have "reads_at ?m h (i + length ?bs) d"
    using assms(1) b unfolding reads_at_def n f upd_file_simps by simp
  then show "reads_at (snd (mf_Read h len m)) h (i + length ?bs) d" unfolding r snd_conv .
qed

text \<open>\<open>ReadAll\<close> under a limit gives the bytes up to the limit, with enough fuel.\<close>

lemma read_all_file:
  assumes room: "\<And>x. 0 < room x"
  shows "reads_at m h i d \<Longrightarrow> length d - i < k \<Longrightarrow>
    \<exists>m'. read_all k room (mf_Read h) n acc m = Some ((acc @ take (nat n) (drop i d), None), m')"
proof (induction k arbitrary: i n acc m)
  case (Suc k)
  show ?case
  proof (cases "n \<le> 0")
    case False
    define len where "len = min (room (length acc)) (nat n)"
    have len: "0 < len" "len \<le> nat n" using room False by (simp_all add: len_def)
    note R = mf_Read_reads [OF Suc.prems(1) len(1)]
    obtain m1 where rd: "mf_Read h len m = ((take len (drop i d), if length d - i < len then Some EOF else None), m1)"
      using R(1,2) by (cases "mf_Read h len m") (auto simp only: fst_conv snd_conv intro: prod_eqI)
    show ?thesis
    proof (cases "length d - i < len")
      case True
      then have "take len (drop i d) = take (nat n) (drop i d)" using len(2) by simp
      then show ?thesis using False True rd by (simp add: len_def [symmetric])
    next
      case short: False
      have l: "length (take len (drop i d)) = len" using short by simp
      have "reads_at m1 h (i + len) d" using R(3) unfolding rd snd_conv l .
      moreover have "length d - (i + len) < k" using Suc.prems(2) short len(1) by linarith
      ultimately obtain m' where
        "read_all k room (mf_Read h) (n - int len) (acc @ take len (drop i d)) m1 =
          Some (((acc @ take len (drop i d)) @ take (nat (n - int len)) (drop (i + len) d), None), m')"
        using Suc.IH by blast
      moreover have "take len (drop i d) @ take (nat (n - int len)) (drop (i + len) d) = take (nat n) (drop i d)"
      proof -
        have "nat n = len + nat (n - int len)" using len(2) False by simp
        then show ?thesis by (simp add: take_add add.commute)
      qed
      ultimately show ?thesis
        using False short rd l by (simp add: len_def [symmetric] del: drop_drop length_take)
    qed
  qed simp
qed simp

lemma read_all_mem:
  "read_all k room (vf_Read rx (MemFile h)) n acc w =
   map_option (\<lambda>(r, m). (r, w\<lparr>w_mem := m\<rparr>)) (read_all k room (mf_Read h) n acc (w_mem w))"
proof (induction k arbitrary: n acc w)
  case (Suc k)
  let ?len = "min (room (length acc)) (nat n)"
  obtain bs e m where r: "mf_Read h ?len (w_mem w) = ((bs, e), m)" by (metis surj_pair)
  then have v: "vf_Read rx (MemFile h) ?len w = ((bs, e), w\<lparr>w_mem := m\<rparr>)" by (simp add: vf_Read_def)
  show ?case by (cases e) (simp_all add: r v Suc.IH Let_def option.map_comp comp_def case_prod_beta)
qed simp

text \<open>A file of the root that was opened for reading starts at its first byte.\<close>

lemma mem_Open_reads:
  assumes inv: "mem_inv m" and o: "mem_Open now name m = (Inr h, m')"
    and "\<not> mode_is_dir (n_mode (file_node m' h))"
  shows "reads_at m' h 0 (n_data (file_node m' h))"
proof -
  have inv': "mem_inv m'" using OpenFile_inv [OF inv, of now name O_RDONLY 0] o by (simp add: mem_Open_def)
  have h: "h < length (m_files m')" using OpenFile_handle [of now name O_RDONLY 0 m h] o by (simp add: mem_Open_def)
  have ro: "\<not> has_flag O_RDONLY O_WRONLY" by code_simp
  have f: "f_readable (the_file m' h) \<and> \<not> f_closed (the_file m' h) \<and> f_pos (the_file m' h) = 0"
    using o ro by (auto simp: mem_Open_def mem_OpenFile_def Let_def the_file_def split: sum.splits if_splits)
  have "f_node (the_file m' h) < length (m_heap m')"
    using mem_inv_parts(3) [OF inv'] h by (auto simp: refs_inv_def the_file_def)
  then have "node_len (file_node m' h) \<le> m_used m'"
    unfolding file_node_def by (rule node_len_le_used [OF mem_inv_parts(5) [OF inv']])
  then have "int (length (n_data (file_node m' h))) \<le> max_int64"
    using mem_inv_parts(5) [OF inv'] by (simp add: quota_inv_def node_len_def)
  then show ?thesis using f h assms(3) by (simp add: reads_at_def)
qed

lemma ns_Open_root:
  assumes ok: "ns_ok ns" and r: "ns_Open ns name O_RDONLY p s = (Inr (MemFile h), s')"
  shows "\<exists>now rel. mem_Open now rel (w_mem s) = (Inr h, w_mem s')"
proof -
  obtain c s1 where c: "check_slash ns name s = (c, s1)" by fastforce
  then have s1: "w_mem s1 = w_mem s" using check_slash_mem [OF ok, of name s] by simp
  from r c have cN: "c = None" and nn: "Resolve ''/'' name \<noteq> ''/dev/null''"
    by (auto simp: ns_Open_def split: option.splits if_splits)
  obtain g rel ro where g: "route ns name = Inr (g, rel, ro)"
    using r c cN nn by (cases "route ns name") (auto simp: ns_Open_def)
  have fl: "\<not> has_flag O_RDONLY (O_WRONLY OR O_RDWR OR O_CREATE OR O_TRUNC OR O_APPEND)" by code_simp
  have op: "fs_Open g rel s1 = (Inr (MemFile h), s')" using r c cN nn g fl by (simp add: ns_Open_def)
  from ok g show ?thesis
  proof (cases rule: route_cases)
    case root
    obtain q m where q: "mem_Open (w_now s1) rel (w_mem s1) = (q, m)" by fastforce
    then have "q = Inr h" "m = w_mem s'" using op root by (cases q; auto)+
    then show ?thesis using q s1 by auto
  next
    case (mount m)
    then show ?thesis using op mount_no_mem(1) by blast
  qed
qed

end
