(* ===== verification/SessionGate.thy ===== *)
theory SessionGate
  imports GoPath
begin

text \<open>
  The gate of a session in \<open>shale.go\<close>: a channel of capacity one that \<open>lock\<close> fills and
  \<open>unlock\<close> empties.  Any number of callers, named by a type \<open>'i\<close>, run at the same time; each
  is at one point of \<open>lock\<close>.
\<close>

section \<open>The code of a caller\<close>

text \<open>
  The points of \<open>lock\<close>: its first check of the context, the \<open>select\<close>, the second check
  (with the gate taken), and its two ends, with the session held or with an error.
\<close>

datatype point = Checking | Selecting | Entered | Holding | Refused

text \<open>
  The next points, with what becomes of the gate.  \<open>full\<close> says that the channel holds its
  element, \<open>ended\<close> that the caller's context has ended.  A \<open>select\<close> with both cases ready
  picks either; with none it waits.  The holder of the gate calls \<open>unlock\<close> when its call returns.
\<close>

fun lock_moves :: "bool \<Rightarrow> bool \<Rightarrow> point \<Rightarrow> (bool \<times> point) list" where
  "lock_moves full ended Checking = (if ended then [(full, Refused)] else [(full, Selecting)])"
| "lock_moves full ended Selecting =
     (if full then [] else [(True, Entered)]) @ (if ended then [(full, Refused)] else [])"
| "lock_moves full ended Entered = (if ended then [(False, Refused)] else [(full, Holding)])"
| "lock_moves full ended Holding = [(False, Checking)]"
| "lock_moves full ended Refused = [(full, Checking)]"

section \<open>All callers\<close>

record 'i gate =
  gt_full :: bool
  gt_at :: "'i \<Rightarrow> point"
  gt_ended :: "'i \<Rightarrow> bool"

definition new_gate :: "'i gate" where
  "new_gate = \<lparr>gt_full = False, gt_at = (\<lambda>_. Checking), gt_ended = (\<lambda>_. False)\<rparr>"

text \<open>A move of one caller, or a change of the context of a caller (it ends, or a new call begins).\<close>

inductive gate_step :: "'i gate \<Rightarrow> 'i gate \<Rightarrow> bool" where
  move: "(full, p) \<in> set (lock_moves (gt_full g) (gt_ended g i) (gt_at g i)) \<Longrightarrow>
    gate_step g (g\<lparr>gt_full := full, gt_at := (gt_at g)(i := p)\<rparr>)"
| context_change: "gate_step g (g\<lparr>gt_ended := (gt_ended g)(i := b)\<rparr>)"

inductive_cases gate_stepE: "gate_step g g'"

definition inside :: "point \<Rightarrow> bool" where
  "inside p = (p = Entered \<or> p = Holding)"

text \<open>The gate is full exactly while one caller is inside.\<close>

definition gate_inv :: "'i gate \<Rightarrow> bool" where
  "gate_inv g = (if gt_full g then \<exists>i. \<forall>j. inside (gt_at g j) \<longleftrightarrow> j = i else \<forall>j. \<not> inside (gt_at g j))"

lemma lock_moves_inside:
  assumes "(full', p') \<in> set (lock_moves full ended p)"
  shows "inside p \<and> \<not> inside p' \<and> \<not> full' \<or> \<not> full \<and> full' \<and> \<not> inside p \<and> inside p' \<or>
    full' = full \<and> inside p' = inside p"
  using assms by (cases p) (auto simp: inside_def split: if_splits)

lemma gate_step_inv: "gate_step g g' \<Longrightarrow> gate_inv g \<Longrightarrow> gate_inv g'"
proof (induction rule: gate_step.induct)
  case (move full p g i)
  from lock_moves_inside [OF move.hyps] consider
      "inside (gt_at g i)" "\<not> inside p" "\<not> full"
    | "\<not> gt_full g" "full" "\<not> inside (gt_at g i)" "inside p"
    | "full = gt_full g" "inside p = inside (gt_at g i)" by blast
  then show ?case
  proof cases
    case 1
    obtain k where k: "\<And>j. inside (gt_at g j) \<longleftrightarrow> j = k"
      using 1(1) move.prems unfolding gate_inv_def by (cases "gt_full g") auto
    then have "\<not> inside (((gt_at g)(i := p)) j)" for j using 1 by (cases "j = i") auto
    then show ?thesis using 1(3) by (simp add: gate_inv_def)
  next
    case 2
    then have none: "\<not> inside (gt_at g j)" for j using move.prems by (simp add: gate_inv_def)
    have "inside (((gt_at g)(i := p)) j) \<longleftrightarrow> j = i" for j using 2 none by (cases "j = i") simp_all
    then show ?thesis using 2(2) unfolding gate_inv_def by simp blast
  next
    case 3
    have "inside (((gt_at g)(i := p)) j) = inside (gt_at g j)" for j using 3 by simp
    then show ?thesis using 3 move.prems by (simp add: gate_inv_def)
  qed
qed (simp add: gate_inv_def)

lemma gate_steps_inv: "gate_step\<^sup>*\<^sup>* new_gate g \<Longrightarrow> gate_inv g"
proof (induction rule: rtranclp_induct)
  case base
  show ?case by (simp add: gate_inv_def new_gate_def inside_def)
qed (rule gate_step_inv)

end
