(* ===== verification/SessionClaims.thy ===== *)
theory SessionClaims
  imports SessionSafe SessionGate ShellClaims CommandClaims NamespaceClaims
begin

unbundle bit_operations_syntax

text \<open>
  The properties of a session of \<open>shale.go\<close>: what spans the shell, the namespace and the
  commands.
\<close>

section \<open>Output\<close>

definition written :: "bool \<Rightarrow> (bool \<times> string) list \<Rightarrow> string" where
  "written stderr ws = concat (map snd (filter (\<lambda>w. fst w = stderr) ws))"

lemma written_simps [simp]:
  "written b [] = []"
  "written b (ws @ [(c, p)]) = written b ws @ (if c = b then p else [])"
  by (simp_all add: written_def)

lemma captured_snoc: "captured n (ws @ [(b, p)]) = snd (cw_Write b p (captured n ws))"
  by (simp add: captured_def)

text \<open>The capture after any writes.\<close>

definition cap_inv :: "int \<Rightarrow> (bool \<times> string) list \<Rightarrow> capture \<Rightarrow> bool" where
  "cap_inv n ws c =
     (int (length (cap_out c)) + int (length (cap_err c)) + cap_remaining c = n \<and> 0 \<le> cap_remaining c \<and>
      has_prefix (written False ws) (cap_out c) \<and> has_prefix (written True ws) (cap_err c) \<and>
      cap_cancelled c = cap_exceeded c \<and>
      (if cap_exceeded c then cap_remaining c = 0 \<and> n < int (length (written False ws) + length (written True ws))
       else cap_out c = written False ws \<and> cap_err c = written True ws))"

lemma has_prefix_trans: "has_prefix s p \<Longrightarrow> has_prefix (s @ t) p"
  by (auto simp: has_prefix_iff)

lemma has_prefix_take: "has_prefix (s @ p) (s @ take k p)"
  unfolding has_prefix_iff by (rule exI [of _ "drop k p"]) simp

lemma cw_Write_inv:
  assumes "cap_inv n ws c"
  shows "cap_inv n (ws @ [(b, p)]) (snd (cw_Write b p c))"
proof (cases "cap_exceeded c")
  case True
  then have "cap_remaining c = 0" using assms by (simp add: cap_inv_def)
  then show ?thesis
    using assms True by (cases b) (auto simp: cap_inv_def cw_Write_def cw_append_def Let_def intro: has_prefix_trans)
next
  case False
  then have c: "cap_out c = written False ws" "cap_err c = written True ws" "0 \<le> cap_remaining c"
    "int (length (written False ws)) + int (length (written True ws)) + cap_remaining c = n"
    using assms False by (auto simp: cap_inv_def)
  then show ?thesis
    using False assms by (cases b) (auto simp: cap_inv_def cw_Write_def cw_append_def Let_def has_prefix_take)
qed

lemma captured_inv: "0 \<le> n \<Longrightarrow> cap_inv n ws (captured n ws)"
proof (induction ws rule: rev_induct)
  case Nil
  then show ?case by (simp add: cap_inv_def captured_def new_capture_def)
next
  case (snoc w ws)
  then show ?case by (cases w) (simp add: captured_snoc cw_Write_inv)
qed

text \<open>C14: Whatever the commands of a script write, in any interleaving, the captured output of both streams
  together never exceeds the limit, each stream is a prefix of what was written to it, the run is
  cancelled exactly if something was cut off, and if nothing was, the streams are complete.\<close>

theorem output_within_limit:
  assumes "0 \<le> n" "c = captured n ws"
  shows "int (length (cap_out c)) + int (length (cap_err c)) \<le> n \<and>
    has_prefix (written False ws) (cap_out c) \<and> has_prefix (written True ws) (cap_err c) \<and>
    cap_cancelled c = cap_exceeded c \<and>
    (cap_exceeded c \<longleftrightarrow> n < int (length (written False ws) + length (written True ws))) \<and>
    (\<not> cap_exceeded c \<longrightarrow> cap_out c = written False ws \<and> cap_err c = written True ws)"
  using captured_inv [OF assms(1), of ws] assms(2) by (auto simp: cap_inv_def split: if_splits)

theorem output_within_limit_witness:
  "cap_exceeded (captured 3 [(False, ''ab''), (True, ''cd'')]) \<and>
   cap_err (captured 3 [(False, ''ab''), (True, ''cd'')]) = ''c''"
proof -
  have "cap_err (captured 3 [(False, ''ab''), (True, ''cd'')]) = ''c''" by code_simp
  then show ?thesis
    using output_within_limit [of 3 _ "[(False, ''ab''), (True, ''cd'')]"] by (simp add: written_def)
qed

section \<open>The gate\<close>

text \<open>C15: At most one call of a session is past its lock at any time, however many callers there are and
  whenever their contexts end; the gate is free exactly when there is none, so a caller that waits
  can always go on unless another one is inside, and one whose context has ended can always leave.\<close>

theorem session_calls_exclusive:
  assumes "gate_step\<^sup>*\<^sup>* new_gate g"
  shows "(inside (gt_at g i) \<and> inside (gt_at g j) \<longrightarrow> i = j) \<and>
    (gt_full g \<longleftrightarrow> (\<exists>k. inside (gt_at g k))) \<and>
    (lock_moves (gt_full g) (gt_ended g i) (gt_at g i) = [] \<longrightarrow>
       gt_at g i = Selecting \<and> \<not> gt_ended g i \<and> (\<exists>k. k \<noteq> i \<and> inside (gt_at g k)))"
proof -
  have inv: "gate_inv g" by (rule gate_steps_inv [OF assms])
  have full: "gt_full g \<longleftrightarrow> (\<exists>k. inside (gt_at g k))"
    using inv by (cases "gt_full g") (auto simp: gate_inv_def)
  have "inside (gt_at g i) \<Longrightarrow> inside (gt_at g j) \<Longrightarrow> i = j"
    using inv by (cases "gt_full g") (auto simp: gate_inv_def)
  moreover have "gt_at g i = Selecting \<and> \<not> gt_ended g i \<and> (\<exists>k. k \<noteq> i \<and> inside (gt_at g k))"
    if "lock_moves (gt_full g) (gt_ended g i) (gt_at g i) = []"
  proof -
    have i: "gt_at g i = Selecting" "\<not> gt_ended g i" "gt_full g"
      using that by (cases "gt_at g i"; simp split: if_splits)+
    then obtain k where "inside (gt_at g k)" using full by blast
    moreover have "\<not> inside (gt_at g i)" using i by (simp add: inside_def)
    ultimately have "k \<noteq> i" "inside (gt_at g k)" using \<open>inside (gt_at g k)\<close> by auto
    then show ?thesis using i(1,2) by blast
  qed
  ultimately show ?thesis using full by blast
qed

theorem session_calls_exclusive_witness:
  "\<exists>g :: nat gate. gate_step\<^sup>*\<^sup>* new_gate g \<and> gt_at g 0 = Entered \<and> gt_at g 1 = Selecting \<and>
     lock_moves (gt_full g) (gt_ended g 1) (gt_at g 1) = [] \<and> (\<exists>k. k \<noteq> 1 \<and> inside (gt_at g k))"
proof -
  let ?g1 = "(new_gate :: nat gate)\<lparr>gt_full := False, gt_at := (\<lambda>_. Checking)(0 := Selecting)\<rparr>"
  let ?g2 = "?g1\<lparr>gt_full := False, gt_at := (gt_at ?g1)(1 := Selecting)\<rparr>"
  let ?g3 = "?g2\<lparr>gt_full := True, gt_at := (gt_at ?g2)(0 := Entered)\<rparr>"
  have "gate_step new_gate ?g1" using gate_step.move [of False Selecting new_gate 0] by (simp add: new_gate_def)
  moreover have "gate_step ?g1 ?g2" using gate_step.move [of False Selecting ?g1 1] by (simp add: new_gate_def)
  moreover have "gate_step ?g2 ?g3" using gate_step.move [of True Entered ?g2 0] by (simp add: new_gate_def)
  ultimately have r: "gate_step\<^sup>*\<^sup>* new_gate ?g3" 
    by (blast intro: rtranclp.rtrancl_into_rtrancl rtranclp.rtrancl_refl)
  have m: "lock_moves (gt_full ?g3) (gt_ended ?g3 1) (gt_at ?g3 1) = []" by (simp add: new_gate_def)
  have "gt_at ?g3 0 = Entered" "gt_at ?g3 1 = Selecting" by simp_all
  moreover have "\<exists>k. k \<noteq> 1 \<and> inside (gt_at ?g3 k)" using session_calls_exclusive [OF r, of 1 1] m by blast
  ultimately show ?thesis using r m by (intro exI [of _ ?g3] conjI)
qed

section \<open>A session\<close>

text \<open>A session with the command filesystems as its only mounts, for the witnesses.\<close>

definition demo_opts :: "(unit, unit, unit) options" where
  "demo_opts = \<lparr>op_Mounts = [], op_Cwd = ''/'', op_Env = [(''A'', ''1'')], op_Commands = [], op_Timeout = 0,
     op_MaxOutputBytes = 0, op_MaxFileBytes = 1000, op_MaxSteps = 0, op_MemoryLimitPages = 0\<rparr>"

abbreviation demo_mounts :: "(commandFile list \<times> unit, nat + unit) mount list" where
  "demo_mounts \<equiv> session_mounts (\<lambda>_. [0]) [] []"

lemma demo_mounts_elems: "map mount_elems demo_mounts = [[''bin''], [''usr'', ''bin'']]"
  unfolding session_mounts_def mount_elems_def by (simp, code_simp)

lemma bin_root_is_dir:
  "\<exists>i s'. fs_Stat (mount_fs (bin_fs art names)) ''.'' s = (Inr i, s') \<and> info_is_dir i \<and>
     w_mem s' = w_mem s \<and> w_now s' = w_now s"
proof -
  have v: "valid_path ''.''" by code_simp
  have d: "info_is_dir (ci_info \<lparr>ci_name = ''.'', ci_module = None\<rparr>)" by code_simp
  show ?thesis
    using d by (simp add: mount_fs_def bin_fs_def lift_fs_def lift_def command_fs_def Let_def cfs_mounted_Stat_def
        cfs_Open_def v cf_Stat_def)
qed

text \<open>The mount points are made in the root memory, whatever the mounted filesystems.\<close>

lemma new_mounts_step:
  assumes "mt_FS m = Some F" "\<not> bad_mount_path (mt_Path m)" "\<not> list_ex (\<lambda>x. overlaps (mt_Path m) (mt_Path x)) ds"
    "\<exists>i s'. fs_Stat (mount_fs F) ''.'' s = (Inr i, s') \<and> info_is_dir i \<and> w_mem s' = w_mem s \<and> w_now s' = w_now s"
    "mkdir_parts (w_now s) [] (go_split slash (trim_prefix (mt_Path m) ''/'')) (w_mem s) = (None, M)"
  shows "\<exists>s'. new_mounts ds (m # ms) s = new_mounts (ds @ [m]) ms s' \<and> w_mem s' = M \<and> w_now s' = w_now s"
proof -
  obtain i s1 where s1: "fs_Stat (mount_fs F) ''.'' s = (Inr i, s1)" "info_is_dir i" "w_mem s1 = w_mem s" "w_now s1 = w_now s"
    using assms(4) by blast
  show ?thesis
    by (rule exI [of _ "s1\<lparr>w_mem := M\<rparr>"]) (simp add: assms s1)
qed

lemma demo_mounts_New: "\<exists>ns w. NewNamespace 0 1 demo_mounts 1000 ([], ()) = (Inr ns, w)"
proof -
  let ?bin = "bin_fs (\<lambda>_. [0]) [] :: (commandFile list \<times> unit, nat + unit) filesys"
  let ?b = "\<lparr>mt_Path = ''/bin'', mt_FS = Some ?bin, mt_ReadOnly = True\<rparr>"
  let ?u = "\<lparr>mt_Path = ''/usr/bin'', mt_FS = Some ?bin, mt_ReadOnly = True\<rparr>"
  define M0 where "M0 = snd (mkdir_each 0 [''tmp'', ''work'', ''dev''] (NewMemory 0 1 1000))"
  define M1 where "M1 = snd (mkdir_parts 0 [] (go_split slash (trim_prefix ''/bin'' ''/'')) M0)"
  define M2 where "M2 = snd (mkdir_parts 0 [] (go_split slash (trim_prefix ''/usr/bin'' ''/'')) M1)"
  have e: "mkdir_each 0 [''tmp'', ''work'', ''dev''] (NewMemory 0 1 1000) = (None, M0)"
    "mkdir_parts 0 [] (go_split slash (trim_prefix ''/bin'' ''/'')) M0 = (None, M1)"
    "mkdir_parts 0 [] (go_split slash (trim_prefix ''/usr/bin'' ''/'')) M1 = (None, M2)"
    unfolding M2_def M1_def M0_def prod_eq_iff by (simp, code_simp)+
  have p: "\<not> bad_mount_path ''/bin''" "\<not> bad_mount_path ''/usr/bin''" "\<not> overlaps ''/usr/bin'' ''/bin''" by code_simp+
  let ?s = "\<lparr>w_mem = M0, w_now = 0, w_ext = ([], ())\<rparr>"
  obtain s1 where s1: "new_mounts [] [?b, ?u] ?s = new_mounts ([] @ [?b]) [?u] s1" "w_mem s1 = M1" "w_now s1 = 0"
    using new_mounts_step [OF _ _ _ bin_root_is_dir, of ?b "\<lambda>_. [0]" "[]" "[]" ?s M1 "[?u]"] p e
    by (auto simp del: new_mounts.simps)
  obtain s2 where s2: "new_mounts ([] @ [?b]) [?u] s1 = new_mounts (([] @ [?b]) @ [?u]) [] s2"
    using new_mounts_step [OF _ _ _ bin_root_is_dir, of ?u "\<lambda>_. [0]" "[]" "[] @ [?b]" s1 M2 "[]"] p e s1(2,3)
    by (auto simp del: new_mounts.simps)
  have "new_mounts [] [?b, ?u] ?s = (None, s2)" unfolding s1 s2 by simp
  then have "new_mounts [] demo_mounts ?s = (None, s2)" unfolding session_mounts_def by (simp only: list.map append_Nil2)
  then show ?thesis by (simp add: NewNamespace_def Let_def e del: new_mounts.simps mkdir_each.simps)
qed

lemma root_is_dir:
  assumes inv: "ns_inv ns w" and "\<And>m. m \<in> set (ns_mounts ns) \<Longrightarrow> mount_elems m \<noteq> []"
  shows "\<exists>i. ns_Stat ns ''/'' w = (Inr i, w) \<and> info_is_dir i"
proof -
  have ok: "ns_ok ns" using inv by (simp add: ns_inv_def)
  have "\<not> holds m []" if "m \<in> set (ns_mounts ns)" for m
    using assms(2) [OF that] holds_elems [OF ns_ok_mount [OF ok that], of "[]"] by simp
  then have "mount_of ns [] = None" by (auto simp: mount_of_def find_None_iff)
  moreover have e: "path_elems ''/'' = []" "\<not> contains_nul ''/''" "Resolve ''/'' ''/'' = ''/''" by code_simp+
  ultimately have r: "route ns ''/'' = Inr (root_fs, ''.'', False)"
    using inv by (simp add: route_elems ns_inv_def name_of_def)
  have "is_dir_at (w_mem w) ''.''" using inv by (simp add: ns_inv_def mem_inv_def tree_inv_def)
  moreover have "valid ''.''" by code_simp
  ultimately obtain p where p: "mem_lookup (w_mem w) ''.'' = Inr p" "mode_is_dir (n_mode (the_node (w_mem w) p))"
    by (auto simp: is_dir_at_def node_at_def mem_lookup_def split: option.splits)
  have "fs_Stat root_fs ''.'' w = (mem_Stat ''.'' (w_mem w), w)"
    by (simp add: root_fs_def lift_fs_def memory_fs_def lift_def with_clock_def)
  then show ?thesis
    using p by (simp add: ns_Stat_def e r mem_Stat_def info_is_dir_def infoFor_def)
qed

lemma demo_session_New: "\<exists>se w. session_New (\<lambda>_. [0]) None None 0 1 demo_opts () =
  (Inr (se :: (unit, unit, unit, unit) session), Some w)"
proof -
  obtain ns w where New: "NewNamespace 0 1 demo_mounts 1000 ([], ()) = (Inr ns, w)"
    using demo_mounts_New by blast
  have inv: "ns_inv ns w" by (rule NewNamespace_inv(1) [OF _ New]) (simp add: max_int64_def)
  have "mount_elems m \<noteq> []" if "m \<in> set demo_mounts" for m
  proof -
    have "mount_elems m \<in> set (map mount_elems demo_mounts)" using that by (simp only: set_map) (rule imageI)
    then show ?thesis unfolding demo_mounts_elems by auto
  qed
  moreover have "set (ns_mounts ns) = set demo_mounts"
    by (rule NewNamespace_inv(2) [OF _ New]) (simp add: max_int64_def)
  ultimately obtain i where i: "ns_Stat ns ''/'' w = (Inr i, w)" "info_is_dir i"
    using root_is_dir [OF inv] by blast
  have c: "path_clean ''/'' = ''/''" "Resolve ''/'' ''/'' = ''/''" by code_simp+
  have opt: "\<not> negative_limit demo_opts" "\<not> 65536 < op_MemoryLimitPages (with_defaults demo_opts)"
    "op_Cwd (with_defaults demo_opts) = ''/''" "\<not> list_ex bad_env (op_Env (with_defaults demo_opts))"
    "op_Commands (with_defaults demo_opts) = []" "op_Mounts (with_defaults demo_opts) = []"
    "op_MaxFileBytes (with_defaults demo_opts) = 1000"
    by (simp_all add: demo_opts_def with_defaults_def negative_limit_def bad_env_def contains_nul_def)
  let ?o = "(with_defaults demo_opts)\<lparr>op_Cwd := ''/''\<rparr>"
  have o2: "op_Env ?o = op_Env (with_defaults demo_opts)" "op_Commands ?o = []" "op_Mounts ?o = []" "op_MaxFileBytes ?o = 1000"
    using opt by simp_all
  have "session_New (\<lambda>_. [0]) None None 0 1 demo_opts () =
    (Inr (\<lparr>se_compiled = [md_Name (hd (Modules (\<lambda>_. [0])))], se_fs = ns, se_shell = NewShell ''/'' (op_Env ?o),
      se_opts = ?o, se_closed = False, se_commands = []\<rparr> :: (unit, unit, unit, unit) session), Some w)"
    unfolding session_New_def Let_def opt(3)
    by (simp add: opt o2 c New i compile_def)
  then show ?thesis by blast
qed

definition demo_session :: "(unit, unit, unit, unit) session" where
  "demo_session = projr (fst (session_New (\<lambda>_. [0]) None None 0 1 demo_opts ()))"

definition demo_start :: "unit sworld" where
  "demo_start = the (snd (session_New (\<lambda>_. [0]) None None 0 1 demo_opts () :: (unit, unit, unit, unit) session res \<times> _))"

lemma demo_session_started:
  "session_New (\<lambda>_. [0]) None None 0 1 demo_opts () = (Inr demo_session, Some demo_start)"
  using demo_session_New by (auto simp: demo_session_def demo_start_def)



lemma demo_session_fields:
  "se_closed demo_session = False" "set (ns_mounts (se_fs demo_session)) = set demo_mounts"
  "op_MaxOutputBytes (se_opts demo_session) = 1048576" "op_MaxFileBytes (se_opts demo_session) = 1000"
proof -
  obtain ns w0 w1 i where eq: "demo_session = \<lparr>se_compiled = [md_Name (hd (Modules (\<lambda>_. [0])))], se_fs = ns,
      se_shell = NewShell (start_cwd demo_opts) (op_Env demo_opts),
      se_opts = (with_defaults demo_opts)\<lparr>op_Cwd := start_cwd demo_opts\<rparr>, se_closed = False,
      se_commands = op_Commands demo_opts\<rparr>"
    by (rule session_New_parts [OF demo_session_started]) blast
  show "se_closed demo_session = False" "op_MaxOutputBytes (se_opts demo_session) = 1048576"
    "op_MaxFileBytes (se_opts demo_session) = 1000"
    unfolding eq by (simp_all add: with_defaults_def demo_opts_def)
  show "set (ns_mounts (se_fs demo_session)) = set demo_mounts"
    using session_New_inv(2) [OF demo_session_started] by (simp add: demo_opts_def max_int64_def)
qed

section \<open>Closing\<close>






section \<open>Runs\<close>



section \<open>Safety of a session\<close>



section \<open>New sessions\<close>

lemma start_cwd_clean:
  "has_prefix (start_cwd opts) ''/''" "path_clean (start_cwd opts) = start_cwd opts"
  by (simp_all add: start_cwd_def abs_name_def path_clean_abs_fix)

text \<open>A session is only made of options that pass every check: no limit is negative and each is replaced
  by its default if it is zero, WebAssembly memory stays within 4 GiB, the environment has no entry
  that would be ambiguous, the working directory is absolute and clean, and a directory of the
  namespace.\<close>

theorem new_session_checked:
  assumes "session_New art inst cm now counter opts ext = (Inr se, Some w)"
  shows "limits_set (se_opts se) \<and> \<not> list_ex bad_env (op_Env opts) \<and>
    check_commands art (op_Commands opts) = None \<and>
    sh_Cwd (se_shell se) = start_cwd opts \<and> has_prefix (start_cwd opts) ''/'' \<and>
    path_clean (start_cwd opts) = start_cwd opts \<and> se_closed se = False \<and>
    (\<exists>w0 i. ns_Stat (se_fs se) (start_cwd opts) w0 = (Inr i, w) \<and> info_is_dir i)"
proof -
  obtain ns w0 w1 i where p: "\<not> negative_limit opts" "op_MemoryLimitPages (with_defaults opts) \<le> 65536"
    "\<not> list_ex bad_env (op_Env opts)" "check_commands art (op_Commands opts) = None"
    "ns_Stat ns (start_cwd opts) w0 = (Inr i, w1)" "info_is_dir i" "Some w = Some w1"
    "se = \<lparr>se_compiled = [md_Name (hd (Modules art))], se_fs = ns, se_shell = NewShell (start_cwd opts) (op_Env opts),
       se_opts = (with_defaults opts)\<lparr>op_Cwd := start_cwd opts\<rparr>, se_closed = False, se_commands = op_Commands opts\<rparr>"
    by (rule session_New_parts [OF assms]) blast
  show ?thesis
    using p with_defaults_set [OF p(1,2)] start_cwd_clean [of opts] by (auto simp: NewShell_def)
qed

theorem new_session_checked_witness:
  "limits_set (se_opts demo_session) \<and> path_clean (start_cwd demo_opts) = start_cwd demo_opts"
  using new_session_checked [OF demo_session_started] by blast

section \<open>Commands\<close>

lemma check_commands_all: "check_commands art cs = None \<longleftrightarrow> (\<forall>c \<in> set cs. bad_command art c = None)"
  by (induction cs) (simp_all split: option.split)

lemma accepted_command:
  assumes "check_commands art cs = None" "(n, h) \<in> set cs"
  shows "valid_path n" "n \<noteq> ''.''" "h \<noteq> None" "Lookup art n = None" "\<not> IsBuiltin n"
  using assms by (auto simp: check_commands_all bad_command_def split: if_splits)

lemma embedded_valid: "Lookup art n = Some m \<Longrightarrow> valid_path n"
  using Lookup_Modules [of art n m] module_names_valid [of art] by (auto simp: list_all_iff)

text \<open>C21: With commands that \<open>New\<close> accepted, none of them has the name of a builtin or of an embedded
  command, so a command reaches the caller's handler exactly if it has its name and the embedded
  module exactly if it is one of its names; and the commands that can be run are, builtins apart,
  exactly those that \<open>/bin\<close> can open.\<close>

theorem commands_dispatched:
  assumes "check_commands art cs = None" "distinct (map fst cs)" "n \<noteq> ''.''"
  shows "(command_dispatch art cs (n # as) = Handler h \<longleftrightarrow> (n, Some h) \<in> set cs) \<and>
    ((n, Some h) \<in> set cs \<longrightarrow> Lookup art n = None \<and> \<not> IsBuiltin n) \<and>
    (command_dispatch art cs (n # as) = Embedded m argv \<longleftrightarrow> Lookup art n = Some m \<and> argv = Argv m (n # as)) \<and>
    (command_dispatch art cs (n # as) \<noteq> NotFound \<longleftrightarrow> is_ok (cfs_Open art (command_names art (map fst cs)) n))"
proof -
  have own: "map_of cs n = Some x \<longleftrightarrow> (n, x) \<in> set cs" for x using assms(2) by simp
  have shown: "is_ok (cfs_Open art (command_names art (map fst cs)) n) \<longleftrightarrow> Lookup art n \<noteq> None \<or> n \<in> fst ` set cs"
  proof (cases "valid_path n")
    case True
    then show ?thesis using cfs_Open_found [OF True assms(3)] by (simp add: Commands_Lookup)
  next
    case False
    then have "Lookup art n = None" "n \<notin> fst ` set cs"
      using embedded_valid accepted_command(1) [OF assms(1)] by fastforce+
    then show ?thesis using False by (simp add: cfs_Open_def)
  qed
  show ?thesis
  proof (cases "map_of cs n")
    case None
    then have "(n, x) \<notin> set cs" for x using own by (metis option.distinct(1))
    moreover from None have "n \<notin> fst ` set cs" by (simp add: map_of_eq_None_iff)
    ultimately show ?thesis using None shown by (auto simp: command_dispatch_def split: option.split)
  next
    case (Some x)
    then have x: "(n, x) \<in> set cs" by (simp add: own)
    then obtain g where g: "x = Some g" using accepted_command(3) [OF assms(1) x] by blast
    have d: "command_dispatch art cs (n # as) = Handler g" by (simp add: command_dispatch_def Some g)
    have "(n, Some h) \<in> set cs \<longleftrightarrow> g = h" using own [of "Some h"] Some g by auto
    moreover have "n \<in> fst ` set cs" using x by force
    ultimately show ?thesis
      using shown accepted_command(4,5) [OF assms(1) x] by (simp add: d)
  qed
qed

theorem commands_dispatched_witness:
  "command_dispatch (\<lambda>_. [0]) [(''hello'', Some (7 :: nat))] [''hello'', ''you''] = Handler 7 \<and>
   is_ok (cfs_Open (\<lambda>_. [0]) (command_names (\<lambda>_. [0]) [''hello'']) ''hello'')"
proof -
  have "list_all (\<lambda>m. ''hello'' \<notin> set (module_names m)) (Modules (\<lambda>_. [0]))" by code_simp
  then have "Lookup (\<lambda>_. [0]) ''hello'' = None"
    using Commands_Lookup [of "''hello''" "\<lambda>_. [0]"] Commands_iff [of "''hello''" "\<lambda>_. [0]"]
    by (simp add: list_all_iff)
  moreover have "valid_path ''hello''" "\<not> IsBuiltin ''hello''" "\<not> contains_nul ''hello''" by code_simp+
  ultimately have "check_commands (\<lambda>_. [0]) [(''hello'', Some (7 :: nat))] = None" by (simp add: bad_command_def)
  note r = commands_dispatched [OF this, of "''hello''" "[''you'']" 7 undefined undefined]
  then have "command_dispatch (\<lambda>_. [0]) [(''hello'', Some (7 :: nat))] [''hello'', ''you''] = Handler 7" by simp
  with r show ?thesis by simp
qed

section \<open>Reading files\<close>

text \<open>C22: \<open>ReadFile\<close> on a file of the root returns every byte of it and no error, or the limit's error
  and nothing if it is longer than \<open>MaxFileBytes\<close>, however large the pieces it is read in; fuel
  for one more round than the file has bytes is enough.\<close>

theorem read_file_exact:
  assumes "ns_inv (se_fs se) w" "\<not> se_closed se" "\<And>x. 0 < room x"
    and "ns_Open (se_fs se) (Resolve (sh_Cwd (se_shell se)) name) O_RDONLY 0 w = (Inr (MemFile h), w1)"
    and "\<not> mode_is_dir (n_mode (file_node (w_mem w1) h))"
    and "d = n_data (file_node (w_mem w1) h)" "length d < k"
    and "0 < op_MaxFileBytes (se_opts se)" "op_MaxFileBytes (se_opts se) \<le> max_int64"
  shows "\<exists>w'. session_ReadFile k room rd cl se name w =
    Some (if op_MaxFileBytes (se_opts se) < int (length d) then ([], Some ErrLimit) else (d, None), w')"
proof -
  let ?mx = "op_MaxFileBytes (se_opts se)"
  define limit where "limit = (if ?mx < max_int64 then ?mx + 1 else ?mx)"
  obtain now rel where o: "mem_Open now rel (w_mem w) = (Inr h, w_mem w1)"
    using ns_Open_root [OF _ assms(4)] assms(1) by (auto simp: ns_inv_def)
  have r: "reads_at (w_mem w1) h 0 d"
    using mem_Open_reads [OF _ o assms(5)] assms(1,6) by (simp add: ns_inv_def)
  obtain m where "read_all k room (mf_Read h) limit [] (w_mem w1) = Some ((take (nat limit) d, None), m)"
    using read_all_file [where room = room and k = k and n = limit and acc = "[]", OF assms(3) r] assms(7) by auto
  then have a: "read_all k room (vf_Read rd (MemFile h)) limit [] w1 = Some ((take (nat limit) d, None), w1\<lparr>w_mem := m\<rparr>)"
    by (simp add: read_all_mem)
  have "int (length d) \<le> max_int64" using r by (simp add: reads_at_def)
  then have "?mx < int (length (take (nat limit) d)) \<longleftrightarrow> ?mx < int (length d)"
    "\<not> ?mx < int (length d) \<longrightarrow> take (nat limit) d = d"
    using assms(8,9) by (auto simp: limit_def)
  then show ?thesis
    using assms(2) a unfolding session_ReadFile_def assms(4)
    by (simp add: Let_def limit_def [symmetric])
qed

text \<open>A session without mounts, and one file in its working directory.\<close>

definition small_session :: "(unit, unit, unit, unit) session" where
  "small_session = demo_session\<lparr>se_fs := \<lparr>ns_mounts = []\<rparr>, se_shell := NewShell ''/work'' []\<rparr>"

definition small_world :: "unit sworld" where
  "small_world =
     (let w0 = snd (NewNamespace 0 1 [] 1000 ([], ()) :: (unit, unit) snamespace res \<times> unit sworld);
          w1 = snd (ns_Open (\<lparr>ns_mounts = []\<rparr> :: (unit, unit) snamespace) ''/work/f'' (O_RDWR OR O_CREATE) 0x1A4 w0)
      in w1\<lparr>w_mem := snd (mf_Write 0 0 [104, 105] (w_mem w1))\<rparr>)"

lemma small_inv: "ns_inv (se_fs small_session) small_world"
proof -
  let ?New = "NewNamespace 0 1 [] 1000 ([], ()) :: (unit, unit) snamespace res \<times> unit sworld"
  let ?ns = "\<lparr>ns_mounts = []\<rparr> :: (unit, unit) snamespace"
  let ?w1 = "snd (ns_Open ?ns ''/work/f'' (O_RDWR OR O_CREATE) 0x1A4 (snd ?New))"
  have "is_ok (fst ?New)" by code_simp
  then obtain ns where ns: "fst ?New = Inr ns" by (cases "fst ?New") simp_all
  then have "ns = ?ns" using New_result [OF ns] by simp
  with ns have "?New = (Inr ?ns, snd ?New)" by (simp add: prod_eq_iff)
  from NewNamespace_inv(1) [OF _ this] have "ns_inv ?ns (snd ?New)" by (simp add: max_int64_def)
  then have i1: "ns_inv ?ns ?w1" by (rule ns_step_inv [OF _ ns_step.open_name])
  have "0 < length (m_files (w_mem ?w1))" by code_simp
  then have "mem_inv (snd (mf_Write 0 0 [104, 105] (w_mem ?w1)))"
    using i1 by (intro Write_inv) (simp_all add: ns_inv_def go_slice_def max_int64_def)
  then show ?thesis using i1 by (simp add: small_session_def small_world_def Let_def ns_inv_def)
qed

theorem read_file_exact_witness:
  "\<exists>w'. session_ReadFile 3 (\<lambda>_. 1) (\<lambda>_ _ e. (([], None), e)) (\<lambda>_ e. (None, e)) small_session ''f'' small_world =
     Some (([104, 105], None), w')"
proof -
  let ?o = "ns_Open (\<lparr>ns_mounts = []\<rparr> :: (unit, unit) snamespace) (Resolve ''/work'' ''f'') O_RDONLY 0 small_world"
  have f: "fst ?o = Inr (MemFile 1)" "\<not> mode_is_dir (n_mode (file_node (w_mem (snd ?o)) 1))"
    "n_data (file_node (w_mem (snd ?o)) 1) = [104, 105]"
    by code_simp+
  have s: "se_fs small_session = \<lparr>ns_mounts = []\<rparr>" "sh_Cwd (se_shell small_session) = ''/work''"
    "\<not> se_closed small_session" "op_MaxFileBytes (se_opts small_session) = 1000"
    by (simp_all add: small_session_def demo_session_fields NewShell_def)
  have o: "ns_Open (se_fs small_session) (Resolve (sh_Cwd (se_shell small_session)) ''f'') O_RDONLY 0 small_world =
      (Inr (MemFile 1), snd ?o)"
    using f(1) by (simp only: s prod_eq_iff fst_conv snd_conv simp_thms)
  note read = read_file_exact [where room = "\<lambda>_. 1" and k = 3 and d = "[104, 105]", OF small_inv s(3) _ o f(2)]
  show ?thesis
    using read [where rd = "\<lambda>_ _ e. (([], None), e)" and cl = "\<lambda>_ e. (None, e)"] f(3)
    by (simp add: s(4) max_int64_def)
qed

end
