(* ===== verification/CommandLine.thy ===== *)
theory CommandLine
  imports Session
begin

text \<open>
  \<open>cmd/shale/main.go\<close>: the command line program around a session.  What it reads (the parsed
  flags, the standard input, the lines typed at the prompt) and what it calls (opening the host
  directory, \<open>shale.New\<close>, \<open>Run\<close>) are arguments; the result is the exit status and
  everything printed.
\<close>

section \<open>The console\<close>

record console =
  cn_Stdout :: string
  cn_Stderr :: string

definition cn_print :: "string \<Rightarrow> string \<Rightarrow> console \<Rightarrow> console" where
  "cn_print out err c = c\<lparr>cn_Stdout := cn_Stdout c @ out, cn_Stderr := cn_Stderr c @ err\<rparr>"

type_synonym 's runner_fun = "request \<Rightarrow> 's \<Rightarrow> (result \<times> goerr option) \<times> 's"

text \<open>The function \<open>exec\<close>: the exit status and whether the script called \<open>exit\<close>.\<close>

definition cli_exec ::
  "'s runner_fun \<Rightarrow> string \<Rightarrow> string \<Rightarrow> console \<times> 's \<Rightarrow> (int \<times> bool) \<times> (console \<times> 's)" where
  "cli_exec Run src stdin cs =
     (let ((res, err), s) = Run \<lparr>rq_Script = src, rq_Stdin = stdin\<rparr> (snd cs);
          c = cn_print (rs_Stdout res) (rs_Stderr res) (fst cs)
      in case err of
           None \<Rightarrow> ((rs_ExitCode res, rs_Exited res), (c, s))
         | Some e \<Rightarrow>
             ((if rs_ExitCode res = 0 then 1 else rs_ExitCode res, rs_Exited res),
              (cn_print [] (''shale: '' @ err_text e @ [newline]) c, s)))"

section \<open>The prompt\<close>

text \<open>
  What the loop meets at its head: the context has been interrupted, or the next line that is
  typed; the list ends where the input does.  \<open>incomplete\<close> is \<open>syntax.IsIncomplete\<close> of
  what \<open>Parse\<close> says of the text so far.  The results are that text, the status and whether the
  loop has ended because of \<open>exit\<close>.
\<close>

datatype input = Interrupted | Typed string

fun cli_repl ::
  "(string \<Rightarrow> bool) \<Rightarrow> 's runner_fun \<Rightarrow> input list \<Rightarrow> string \<Rightarrow> int \<Rightarrow> console \<times> 's \<Rightarrow>
   (string \<times> int) \<times> (console \<times> 's)" where
  "cli_repl incomplete Run [] src code (c, s) =
     ((src, code), (cn_print [] (if src \<noteq> [] then ''> '' else ''shale$ '') c, s))"
| "cli_repl incomplete Run (Interrupted # rest) src code (c, s) = ((src, code), (c, s))"
| "cli_repl incomplete Run (Typed line # rest) src code (c, s) =
     (let c1 = cn_print [] (if src \<noteq> [] then ''> '' else ''shale$ '') c;
          src' = src @ line @ [newline]
      in if incomplete src' then cli_repl incomplete Run rest src' code (c1, s)
         else
           let ((code', exited), cs') = cli_exec Run src' [] (c1, s)
           in if exited then (([], code'), cs') else cli_repl incomplete Run rest [] code' cs')"

text \<open>The loop and what follows it: an error of the scanner, or text that was never completed.\<close>

definition cli_interactive ::
  "(string \<Rightarrow> bool) \<Rightarrow> 's runner_fun \<Rightarrow> input list \<Rightarrow> goerr option \<Rightarrow> console \<times> 's \<Rightarrow>
   int \<times> (console \<times> 's)" where
  "cli_interactive incomplete Run lines scanErr cs =
     (let ((src, code), cs1) = cli_repl incomplete Run lines [] 0 cs
      in case scanErr of
           Some e \<Rightarrow> (1, (cn_print [] (err_text e @ [newline]) (fst cs1), snd cs1))
         | None \<Rightarrow>
             if src \<noteq> [] then (let ((code', _), cs2) = cli_exec Run src [] cs1 in (code', cs2))
             else (code, cs1))"

section \<open>The program\<close>

record cli_flags =
  fg_c :: "string option"
  fg_root :: string
  fg_readonly :: bool
  fg_timeout :: int
  fg_version :: bool
  fg_NArg :: nat

text \<open>The standard input, with whether reading it fails in the end.\<close>

definition cli_input :: "string \<times> bool \<Rightarrow> string option" where
  "cli_input inp =
     (let data = take (Suc MaxScript) (fst inp)
      in if snd inp \<and> length (fst inp) \<le> MaxScript \<or> MaxScript < length data then None else Some data)"

definition cli_options :: "('e, 'k) filesys \<Rightarrow> cli_flags \<Rightarrow> ('e, 'k, 'c) options" where
  "cli_options dir fl =
     \<lparr>op_Mounts = [\<lparr>mt_Path = ''/workspace'', mt_FS = Some dir, mt_ReadOnly = fg_readonly fl\<rparr>],
      op_Cwd = ''/workspace'', op_Env = [], op_Commands = [], op_Timeout = fg_timeout fl,
      op_MaxOutputBytes = 0, op_MaxFileBytes = 0, op_MaxSteps = 0, op_MemoryLimitPages = 0\<rparr>"

definition cli_version :: "(string \<Rightarrow> byte list) \<Rightarrow> string" where
  "cli_version art =
     ''shale (uutils '' @
     go_join '', '' (map (\<lambda>name. name @ '' '' @ the (map_of (Versions art) name))
       (sort (map fst (Versions art)))) @ '')'' @ [newline]"

definition cli_banner :: "string \<Rightarrow> string" where
  "cli_banner root = ''shale '' @ [CHR 0xE2, CHR 0x80, CHR 0x94] @ '' /workspace is '' @ root @
     '' (writes persist unless -readonly)'' @ [newline]"

definition cli_run ::
  "(string \<Rightarrow> byte list) \<Rightarrow> cli_flags \<Rightarrow> (string \<Rightarrow> ('e, 'k) filesys res) \<Rightarrow>
   (('e, 'k, 'c) options \<Rightarrow> 's res) \<Rightarrow> 's runner_fun \<Rightarrow> (string \<Rightarrow> bool) \<Rightarrow> bool \<Rightarrow> string \<times> bool \<Rightarrow>
   input list \<Rightarrow> goerr option \<Rightarrow> int \<times> console" where
  "cli_run art fl OpenDir New Run incomplete interactive stdin lines scanErr =
     (let c0 = \<lparr>cn_Stdout = [], cn_Stderr = []\<rparr>
      in if fg_version fl then (0, cn_print (cli_version art) [] c0)
         else if 0 < fg_NArg fl
         then (2, cn_print [] (''usage: shale [-root DIR] [-readonly] [-c SCRIPT]'' @ [newline]) c0)
         else case OpenDir (fg_root fl) of
           Inl e \<Rightarrow> (1, cn_print [] (err_text e @ [newline]) c0)
         | Inr dir \<Rightarrow>
             (case New (cli_options dir fl) of
                Inl e \<Rightarrow> (1, cn_print [] (err_text e @ [newline]) c0)
              | Inr s \<Rightarrow>
                  (case fg_c fl of
                     Some script \<Rightarrow>
                       (case (if interactive then Some [] else cli_input stdin) of
                          None \<Rightarrow> (1, cn_print [] (''shale: input too large or unreadable'' @ [newline]) c0)
                        | Some inp \<Rightarrow>
                            let ((code, _), (c, _)) = cli_exec Run script inp (c0, s) in (code, c))
                   | None \<Rightarrow>
                       if \<not> interactive then
                         (case cli_input stdin of
                            None \<Rightarrow> (1, cn_print [] (''shale: script too large or unreadable'' @ [newline]) c0)
                          | Some script \<Rightarrow>
                              let ((code, _), (c, _)) = cli_exec Run script [] (c0, s) in (code, c))
                       else
                         let (code, (c, _)) = cli_interactive incomplete Run lines scanErr
                               (cn_print [] (cli_banner (fg_root fl)) c0, s)
                         in (code, c))))"

section \<open>What the prompt executes\<close>







text \<open>The status tells of every error.\<close>

lemma cli_exec_status:
  "snd (fst (Run \<lparr>rq_Script = src, rq_Stdin = inp\<rparr> s)) \<noteq> None \<Longrightarrow>
   fst (fst (cli_exec Run src inp (c, s))) \<noteq> 0"
  by (auto simp: cli_exec_def Let_def case_prod_beta split: option.split)

end
